(* ===== verification/Prelude.thy ===== *)
theory Prelude
  imports Main "HOL-Library.Word"
begin

text \<open>
  Shared vocabulary of the development: the machine integer types of the
  K60 port (\<open>uint8_t\<close>, \<open>uint16_t\<close>, \<open>uint32_t\<close> as words), the collections of
  facts the component theories feed to the simplifier, and the generic lemmas
  on words and lists that several components use (single-bit set and clear,
  occurrence counts in event logs).
\<close>

unbundle bit_operations_syntax

type_synonym u8 = "8 word"
type_synonym u16 = "16 word"
type_synonym u32 = "32 word"

named_theorems model_defs "definitions of model operations unfolded by the component proofs"
named_theorems reg_simps "evaluation facts for register fields and masks"

subsection \<open>Single bits of a register\<close>

definition set_bit_reg :: "'a::len word \<Rightarrow> nat \<Rightarrow> 'a word" where
  "set_bit_reg w n = w OR push_bit n 1"

definition clear_bit_reg :: "'a::len word \<Rightarrow> nat \<Rightarrow> 'a word" where
  "clear_bit_reg w n = w AND NOT (push_bit n 1)"

lemma bit_set_bit_reg [simp]:
  "bit (set_bit_reg (w::'a::len word) n) m \<longleftrightarrow> (m = n \<and> n < LENGTH('a)) \<or> bit w m"
  by (auto simp: set_bit_reg_def bit_or_iff bit_exp_iff)

lemma bit_clear_bit_reg [simp]:
  "bit (clear_bit_reg (w::'a::len word) n) m \<longleftrightarrow> m \<noteq> n \<and> bit w m"
  by (auto simp: clear_bit_reg_def bit_and_iff bit_not_iff bit_exp_iff
           dest: bit_imp_le_length)

lemma set_bit_reg_idem [simp]:
  "set_bit_reg (set_bit_reg w n) n = set_bit_reg w n"
  by (simp add: set_bit_reg_def word_bw_assocs)

lemmas mask_simps = word_bw_assocs bit.conj_disj_distribs

lemma or_and_absorb_right [simp]: "((x::'a::len word) OR y) AND y = y"
  by (rule bit_word_eqI) (auto simp: bit_and_iff bit_or_iff)

lemma and_not_and_zero [simp]: "((x::'a::len word) AND NOT y) AND y = 0"
  by (rule bit_word_eqI) (auto simp: bit_and_iff bit_not_iff)

lemma word_le_1_iff: "(x::'a::len word) \<le> 1 \<longleftrightarrow> x = 0 \<or> x = 1"
  by (auto simp: le_less)

subsection \<open>Counting the members of a list that satisfy a predicate\<close>

text \<open>Changing a function at one point moves the count of list members at which
  it satisfies \<open>P\<close> by at most one in each direction.\<close>

lemma length_filter_if_notin:
  "m \<notin> set xs \<Longrightarrow>
   length (filter (\<lambda>x. P (if x = m then v else f x)) xs) = length (filter (\<lambda>x. P (f x)) xs)"
  by (induction xs) auto

lemma length_filter_fun_upd:
  assumes "distinct xs"
  shows "length (filter (\<lambda>x. P ((f(m := v)) x)) xs) + (if m \<in> set xs \<and> P (f m) then 1 else 0) =
         length (filter (\<lambda>x. P (f x)) xs) + (if m \<in> set xs \<and> P v then 1 else 0)"
  using assms
proof (induction xs)
  case Nil
  show ?case by simp
next
  case (Cons a xs)
  from Cons.prems have a: "a \<notin> set xs" and d: "distinct xs" by simp_all
  note IH = Cons.IH [OF d]
  show ?case
  proof (cases "a = m")
    case True
    with a have "m \<notin> set xs" by simp
    with True show ?thesis by (simp add: length_filter_if_notin)
  next
    case False
    then have upd: "(f(m := v)) a = f a" and ma: "m \<noteq> a" by simp_all
    from IH upd ma show ?thesis by (auto simp del: fun_upd_apply split: if_splits)
  qed
qed

lemma unat_and_mask_mod: "unat ((w::'a::len word) AND mask n) = unat w mod 2 ^ n"
proof -
  have "w AND mask n = take_bit n w" by (simp add: take_bit_eq_mask)
  then have "unat (w AND mask n) = take_bit n (unat w)" by (simp add: unsigned_take_bit_eq)
  then show ?thesis by (simp add: take_bit_eq_mod)
qed

lemma unat_ucast_mod: "unat (ucast (w::'a::len word) :: 'b::len word) = unat w mod 2 ^ LENGTH('b)"
  by (simp add: unsigned_ucast_eq take_bit_eq_mod)

lemma div_bracket:
  assumes "0 < (b::nat)"
  shows "b * (a div b) \<le> a \<and> a < b * (a div b + 1)"
proof -
  have "b * (a div b) + a mod b = a" by (rule mult_div_mod_eq)
  moreover have "a mod b < b" using assms by simp
  ultimately have "b * (a div b) \<le> a \<and> a < b * (a div b) + b" by linarith
  then show ?thesis by (simp add: distrib_left)
qed

lemma unat_and_not_mask: "unat ((w::'a::len word) AND NOT (mask n)) = unat w div 2 ^ n * 2 ^ n"
proof -
  have e: "w AND NOT (mask n) = push_bit n (drop_bit n w)"
    by (rule bit_word_eqI) (auto simp: bit_and_iff bit_not_iff bit_mask_iff bit_push_bit_iff bit_drop_bit_eq)
  have "unat w div 2 ^ n * 2 ^ n \<le> unat w" by simp
  also have "unat w < 2 ^ LENGTH('a)" by (rule unsigned_less)
  finally have "unat w div 2 ^ n * 2 ^ n < 2 ^ LENGTH('a)" .
  moreover have "unat (push_bit n (drop_bit n w)) = take_bit LENGTH('a) (push_bit n (unat (drop_bit n w)))"
    by (rule unsigned_push_bit_eq)
  moreover have "unat (drop_bit n w) = unat w div 2 ^ n"
    unfolding unat_drop_bit_eq by (simp add: drop_bit_eq_div)
  ultimately show ?thesis by (simp add: e push_bit_eq_mult take_bit_eq_mod)
qed

lemma div_mod_split_nat:
  assumes "r < (m::nat)"
  shows "(q * m + r) div m = q \<and> (q * m + r) mod m = r"
  using assms by simp

end
