(* ===== verification/Inhibit.thy ===== *)
theory Inhibit
  imports Prelude
begin

text \<open>
  The atomic inhibit counters of the LLWU (\<open>llwu.h\<close>): three \<open>volatile uint32_t\<close>
  semaphores, one per sleep depth, changed only through the macros
  \<open>LLWU_INHIBIT_*\<close> and \<open>LLWU_UNINHIBIT_*\<close>, which call \<open>exclusive_increment\<close>
  and \<open>exclusive_decrement\<close>.  Those two functions live in \<open>synchronization.h\<close>,
  outside the sources; they are modelled from the spec (4.1) as the
  load-exclusive / store-exclusive retry loop of the Cortex-M4:
  \<^item> \<open>LDREX\<close> reads the counter and arms the core's single local monitor;
  \<^item> \<open>STREX\<close> writes the new value only if the monitor is still armed, and
    otherwise makes the loop start again;
  \<^item> every exception entry and return clears the local monitor, so any change of
    the running context (an interrupt preempting the foreground, or a handler
    returning to it) disarms it.
  The theory proves that under every interleaving of contexts no update is lost:
  the counter equals the atomic operations applied in the order of their
  successful stores, and a context that is not preempted finishes in one pass.
\<close>

subsection \<open>The counters and their atomic operations\<close>

datatype inhibit_depth = INHIBIT_STOP | INHIBIT_VLPS | INHIBIT_LLS

record inhibit_semas =
  llwu_inhibit_stop_sema :: u32
  llwu_inhibit_vlps_sema :: u32
  llwu_inhibit_lls_sema :: u32

text \<open>The counters are zero-initialised globals.\<close>

definition semas_boot :: inhibit_semas where
  "semas_boot = \<lparr>llwu_inhibit_stop_sema = 0, llwu_inhibit_vlps_sema = 0,
                 llwu_inhibit_lls_sema = 0\<rparr>"

fun sema_of :: "inhibit_semas \<Rightarrow> inhibit_depth \<Rightarrow> u32" where
  "sema_of s INHIBIT_STOP = llwu_inhibit_stop_sema s"
| "sema_of s INHIBIT_VLPS = llwu_inhibit_vlps_sema s"
| "sema_of s INHIBIT_LLS = llwu_inhibit_lls_sema s"

fun sema_map :: "inhibit_depth \<Rightarrow> (u32 \<Rightarrow> u32) \<Rightarrow> inhibit_semas \<Rightarrow> inhibit_semas" where
  "sema_map INHIBIT_STOP f s = s\<lparr>llwu_inhibit_stop_sema := f (llwu_inhibit_stop_sema s)\<rparr>"
| "sema_map INHIBIT_VLPS f s = s\<lparr>llwu_inhibit_vlps_sema := f (llwu_inhibit_vlps_sema s)\<rparr>"
| "sema_map INHIBIT_LLS f s = s\<lparr>llwu_inhibit_lls_sema := f (llwu_inhibit_lls_sema s)\<rparr>"

datatype excl_op = Incr | Decr

text \<open>The effect of one completed \<open>exclusive_increment\<close> / \<open>exclusive_decrement\<close>:
  32-bit wrap-around, no check against going below zero.\<close>

fun excl_apply :: "excl_op \<Rightarrow> u32 \<Rightarrow> u32" where
  "excl_apply Incr v = v + 1"
| "excl_apply Decr v = v - 1"

text \<open>\<open>LLWU_INHIBIT_STOP()\<close> and its five siblings: one atomic operation on one counter.\<close>

definition llwu_inhibit :: "inhibit_depth \<Rightarrow> inhibit_semas \<Rightarrow> inhibit_semas" where
  "llwu_inhibit d = sema_map d (excl_apply Incr)"

definition llwu_uninhibit :: "inhibit_depth \<Rightarrow> inhibit_semas \<Rightarrow> inhibit_semas" where
  "llwu_uninhibit d = sema_map d (excl_apply Decr)"

subsection \<open>The load-exclusive / store-exclusive protocol\<close>

text \<open>
  Each context (the foreground or an interrupt handler) is idle, has an operation
  pending (about to execute \<open>LDREX\<close>), or has loaded a value (about to execute
  \<open>STREX\<close>).  \<open>committed\<close> records the operations whose \<open>STREX\<close> succeeded, in
  order: it is the linearisation of the run.
\<close>

datatype excl_pc = Idle | Pending excl_op | Loaded excl_op u32

record excl_sys =
  sema_val :: u32
  monitor :: bool
  running :: "nat option"
  ctx :: "excl_pc list"
  committed :: "excl_op list"

datatype excl_instr = Call excl_op | Ldrex | Strex

definition excl_init :: "u32 \<Rightarrow> nat \<Rightarrow> excl_sys" where
  "excl_init v0 n = \<lparr>sema_val = v0, monitor = False, running = None,
                     ctx = replicate n Idle, committed = []\<rparr>"

text \<open>A context switch is an exception entry or return: it clears the monitor.\<close>

definition switch_to :: "nat \<Rightarrow> excl_sys \<Rightarrow> excl_sys" where
  "switch_to i s = (if running s = Some i then s else s\<lparr>monitor := False, running := Some i\<rparr>)"

text \<open>One instruction of context \<open>i\<close>; \<open>None\<close> when the instruction is not the
  context's next one.\<close>

fun excl_exec :: "nat \<Rightarrow> excl_instr \<Rightarrow> excl_sys \<Rightarrow> excl_sys option" where
  "excl_exec i (Call op) s =
     (if i < length (ctx s) \<and> ctx s ! i = Idle
      then Some (s\<lparr>ctx := (ctx s)[i := Pending op]\<rparr>) else None)"
| "excl_exec i Ldrex s =
     (if i < length (ctx s) then
        (case ctx s ! i of
           Pending op \<Rightarrow> Some (s\<lparr>ctx := (ctx s)[i := Loaded op (sema_val s)], monitor := True\<rparr>)
         | _ \<Rightarrow> None)
      else None)"
| "excl_exec i Strex s =
     (if i < length (ctx s) then
        (case ctx s ! i of
           Loaded op v \<Rightarrow>
             (if monitor s
              then Some (s\<lparr>sema_val := excl_apply op v, monitor := False,
                           ctx := (ctx s)[i := Idle], committed := committed s @ [op]\<rparr>)
              else Some (s\<lparr>ctx := (ctx s)[i := Pending op]\<rparr>))
         | _ \<Rightarrow> None)
      else None)"

definition excl_step :: "nat \<Rightarrow> excl_instr \<Rightarrow> excl_sys \<Rightarrow> excl_sys option" where
  "excl_step i ins s = excl_exec i ins (switch_to i s)"

text \<open>A schedule: which context executes which instruction, in order.\<close>

fun excl_run :: "(nat \<times> excl_instr) list \<Rightarrow> excl_sys \<Rightarrow> excl_sys option" where
  "excl_run [] s = Some s"
| "excl_run ((i, ins) # sch) s =
     (case excl_step i ins s of None \<Rightarrow> None | Some s' \<Rightarrow> excl_run sch s')"

inductive excl_reach :: "u32 \<Rightarrow> nat \<Rightarrow> excl_sys \<Rightarrow> bool" for v0 n where
  excl_start: "excl_reach v0 n (excl_init v0 n)"
| excl_next: "excl_reach v0 n s \<Longrightarrow> excl_step i ins s = Some s' \<Longrightarrow> excl_reach v0 n s'"

text \<open>The invariant: the counter is the committed operations applied to the
  start value, and an armed monitor belongs to the running context, which has
  loaded exactly the current counter.\<close>

definition monitor_ok :: "excl_sys \<Rightarrow> bool" where
  "monitor_ok s \<longleftrightarrow>
     (monitor s \<longrightarrow>
       (case running s of
          None \<Rightarrow> False
        | Some i \<Rightarrow> i < length (ctx s) \<and>
            (case ctx s ! i of Loaded op v \<Rightarrow> v = sema_val s | _ \<Rightarrow> False)))"

definition excl_inv :: "u32 \<Rightarrow> nat \<Rightarrow> excl_sys \<Rightarrow> bool" where
  "excl_inv v0 n s \<longleftrightarrow>
     sema_val s = fold excl_apply (committed s) v0 \<and> length (ctx s) = n \<and> monitor_ok s"

subsection \<open>The protocol keeps the invariant\<close>

lemma fold_excl_apply:
  "fold excl_apply ops v = v + of_nat (count_list ops Incr) - of_nat (count_list ops Decr)"
proof (induction ops arbitrary: v)
  case Nil
  then show ?case by simp
next
  case (Cons op ops)
  have "fold excl_apply (op # ops) v = fold excl_apply ops (excl_apply op v)"
    by simp
  also have "\<dots> = excl_apply op v + of_nat (count_list ops Incr) - of_nat (count_list ops Decr)"
    by (rule Cons.IH)
  finally show ?case by (cases op) (simp_all add: algebra_simps)
qed

lemma switch_to_running [simp]: "running (switch_to i s) = Some i"
  by (simp add: switch_to_def)

lemma switch_to_inv: "excl_inv v0 n s \<Longrightarrow> excl_inv v0 n (switch_to i s)"
  by (auto simp: switch_to_def excl_inv_def monitor_ok_def)

lemmas excl_inv_unfold = excl_inv_def monitor_ok_def nth_list_update

lemma excl_exec_inv:
  assumes "excl_inv v0 n s" and "running s = Some i" and "excl_exec i ins s = Some s'"
  shows "excl_inv v0 n s'"
proof (cases ins)
  case (Call op)
  with assms show ?thesis
    by (auto simp: excl_inv_unfold split: if_splits excl_pc.splits)
next
  case Ldrex
  with assms show ?thesis
    by (auto simp: excl_inv_unfold split: if_splits excl_pc.splits)
next
  case Strex
  txt \<open>A successful store finds the monitor armed, so by the invariant the value
    it loaded is still the counter.\<close>
  with assms show ?thesis
    by (auto simp: excl_inv_unfold split: if_splits excl_pc.splits)
qed

lemma excl_step_inv:
  "excl_inv v0 n s \<Longrightarrow> excl_step i ins s = Some s' \<Longrightarrow> excl_inv v0 n s'"
  unfolding excl_step_def by (rule excl_exec_inv [OF switch_to_inv switch_to_running])

lemma excl_reach_inv: "excl_reach v0 n s \<Longrightarrow> excl_inv v0 n s"
proof (induction rule: excl_reach.induct)
  case excl_start
  show ?case by (simp add: excl_inv_def excl_init_def monitor_ok_def)
next
  case (excl_next s i ins s')
  then show ?case by (blast intro: excl_step_inv)
qed

lemma excl_run_reach:
  "excl_reach v0 n s \<Longrightarrow> excl_run sch s = Some s' \<Longrightarrow> excl_reach v0 n s'"
proof (induction sch arbitrary: s)
  case Nil
  then show ?case by simp
next
  case (Cons a sch)
  then show ?case
    by (cases a) (auto split: option.splits intro: excl_reach.excl_next)
qed

lemma excl_run_init_reach:
  "excl_run sch (excl_init v0 n) = Some s' \<Longrightarrow> excl_reach v0 n s'"
  by (rule excl_run_reach [OF excl_reach.excl_start])

lemma unat_of_nat_diff_u32:
  assumes "b \<le> a" and "a - b < 2 ^ 32"
  shows "unat ((of_nat a :: u32) - of_nat b) = a - b"
proof -
  from assms(1) have "(of_nat a :: u32) - of_nat b = of_nat (a - b)"
    by (simp add: of_nat_diff)
  with assms(2) show ?thesis by (simp add: unat_of_nat)
qed

lemma llwu_uninhibit_inhibit [simp]: "llwu_uninhibit d (llwu_inhibit d s) = s"
  by (cases d) (simp_all add: llwu_inhibit_def llwu_uninhibit_def)

lemma sema_inhibit_simps [simp]:
  "llwu_inhibit_stop_sema (llwu_inhibit INHIBIT_STOP s) = llwu_inhibit_stop_sema s + 1"
  "llwu_inhibit_stop_sema (llwu_uninhibit INHIBIT_STOP s) = llwu_inhibit_stop_sema s - 1"
  "llwu_inhibit_stop_sema (llwu_inhibit INHIBIT_LLS s) = llwu_inhibit_stop_sema s"
  "llwu_inhibit_stop_sema (llwu_uninhibit INHIBIT_LLS s) = llwu_inhibit_stop_sema s"
  "llwu_inhibit_lls_sema (llwu_inhibit INHIBIT_LLS s) = llwu_inhibit_lls_sema s + 1"
  "llwu_inhibit_lls_sema (llwu_uninhibit INHIBIT_LLS s) = llwu_inhibit_lls_sema s - 1"
  "llwu_inhibit_lls_sema (llwu_inhibit INHIBIT_STOP s) = llwu_inhibit_lls_sema s"
  "llwu_inhibit_lls_sema (llwu_uninhibit INHIBIT_STOP s) = llwu_inhibit_lls_sema s"
  "llwu_inhibit_vlps_sema (llwu_inhibit INHIBIT_STOP s) = llwu_inhibit_vlps_sema s"
  "llwu_inhibit_vlps_sema (llwu_uninhibit INHIBIT_STOP s) = llwu_inhibit_vlps_sema s"
  "llwu_inhibit_vlps_sema (llwu_inhibit INHIBIT_LLS s) = llwu_inhibit_vlps_sema s"
  "llwu_inhibit_vlps_sema (llwu_uninhibit INHIBIT_LLS s) = llwu_inhibit_vlps_sema s"
  by (simp_all add: llwu_inhibit_def llwu_uninhibit_def)

subsection \<open>No update is lost\<close>

text \<open>C4: The retry protocol refines the atomic counter: in every state reachable
  under any interleaving of the contexts, the counter equals the start value with
  the committed operations applied atomically, one after the other, in the order
  of their successful stores.\<close>

theorem excl_linearizable:
  "excl_reach v0 n s \<Longrightarrow> sema_val s = fold excl_apply (committed s) v0"
  using excl_reach_inv by (simp add: excl_inv_def)

theorem excl_linearizable_witness:
  "excl_run [(0, Call Incr), (0, Ldrex), (1, Call Incr), (1, Ldrex), (1, Strex),
             (0, Strex), (0, Ldrex), (0, Strex)] (excl_init 0 2)
     = Some \<lparr>sema_val = 2, monitor = False, running = Some 0,
             ctx = [Idle, Idle], committed = [Incr, Incr]\<rparr> \<and>
   sema_val \<lparr>sema_val = 2, monitor = False, running = Some 0,
             ctx = [Idle, Idle], committed = [Incr, Incr]\<rparr>
     = fold excl_apply [Incr, Incr] (0::u32)"
proof -
  have run: "excl_run [(0, Call Incr), (0, Ldrex), (1, Call Incr), (1, Ldrex), (1, Strex),
             (0, Strex), (0, Ldrex), (0, Strex)] (excl_init 0 2)
     = Some \<lparr>sema_val = 2, monitor = False, running = Some 0,
             ctx = [Idle, Idle], committed = [Incr, Incr]\<rparr>"
    by (simp add: excl_init_def excl_step_def switch_to_def numeral_2_eq_2)
  have lin: "sema_val \<lparr>sema_val = 2, monitor = False, running = Some 0,
             ctx = [Idle, Idle], committed = [Incr, Incr]\<rparr>
     = fold excl_apply [Incr, Incr] (0::u32)"
    using excl_linearizable [OF excl_run_init_reach [OF run]] by simp
  from run lin show ?thesis by (rule conjI)
qed

text \<open>C8: On a valid trace of a counter that starts at zero (never more
  decrements than increments, fewer than \<open>2^32\<close> outstanding increments), the
  32-bit counter reads exactly the number of committed increments minus the
  number of committed decrements.\<close>

theorem excl_count_exact:
  assumes "excl_reach 0 n s"
    and "count_list (committed s) Decr \<le> count_list (committed s) Incr"
    and "count_list (committed s) Incr - count_list (committed s) Decr < 2 ^ 32"
  shows "unat (sema_val s) = count_list (committed s) Incr - count_list (committed s) Decr"
proof -
  have "sema_val s = fold excl_apply (committed s) 0"
    using excl_reach_inv [OF assms(1)] by (simp add: excl_inv_def)
  then have "sema_val s = of_nat (count_list (committed s) Incr) - of_nat (count_list (committed s) Decr)"
    by (simp add: fold_excl_apply)
  with assms(2,3) show ?thesis by (simp add: unat_of_nat_diff_u32)
qed

theorem excl_count_exact_witness:
  "excl_reach 0 2 \<lparr>sema_val = 2, monitor = False, running = Some 0,
             ctx = [Idle, Idle], committed = [Incr, Incr]\<rparr> \<and>
   unat (sema_val \<lparr>sema_val = 2, monitor = False, running = Some 0,
             ctx = [Idle, Idle], committed = [Incr, Incr]\<rparr> :: u32) = 2"
proof -
  have run: "excl_run [(0, Call Incr), (0, Ldrex), (1, Call Incr), (1, Ldrex), (1, Strex),
             (0, Strex), (0, Ldrex), (0, Strex)] (excl_init 0 2)
     = Some \<lparr>sema_val = 2, monitor = False, running = Some 0,
             ctx = [Idle, Idle], committed = [Incr, Incr]\<rparr>"
    by (simp add: excl_init_def excl_step_def switch_to_def numeral_2_eq_2)
  note r = excl_run_init_reach [OF run]
  let ?st = "\<lparr>sema_val = 2, monitor = False, running = Some 0,
             ctx = [Idle, Idle], committed = [Incr, Incr]\<rparr> :: excl_sys"
  have "unat (sema_val ?st) = count_list (committed ?st) Incr - count_list (committed ?st) Decr"
    by (rule excl_count_exact [OF r]) simp_all
  with r show ?thesis by simp
qed

text \<open>C13: A context that is not preempted between its load and its store
  finishes its operation in one pass of the loop: the store succeeds, the
  operation is committed once, and the counter moves by exactly one step.\<close>

theorem excl_uninterrupted_commits:
  assumes "i < length (ctx s)" and "ctx s ! i = Pending op"
  shows "\<exists>s'. excl_run [(i, Ldrex), (i, Strex)] s = Some s' \<and>
              committed s' = committed s @ [op] \<and> ctx s' ! i = Idle \<and>
              sema_val s' = excl_apply op (sema_val s)"
  using assms by (simp add: excl_step_def switch_to_def)

theorem excl_uninterrupted_commits_witness:
  "\<exists>s'. excl_run [(0, Ldrex), (0, Strex)]
          \<lparr>sema_val = 5, monitor = False, running = None,
           ctx = [Pending Decr], committed = []\<rparr> = Some s' \<and>
        committed s' = [Decr] \<and> ctx s' ! 0 = Idle \<and> sema_val s' = (4::u32)"
proof -
  let ?st = "\<lparr>sema_val = 5, monitor = False, running = None,
           ctx = [Pending Decr], committed = []\<rparr> :: excl_sys"
  have "\<exists>s'. excl_run [(0, Ldrex), (0, Strex)] ?st = Some s' \<and>
        committed s' = committed ?st @ [Decr] \<and> ctx s' ! 0 = Idle \<and>
        sema_val s' = excl_apply Decr (sema_val ?st)"
    by (rule excl_uninterrupted_commits) simp_all
  then show ?thesis by simp
qed

end
