(* ===== verification/Uart_Hw.thy ===== *)
theory Uart_Hw
  imports Inhibit
begin

text \<open>
  The UART peripheral as the driver \<open>uart.c\<close> sees it, and the driver's global
  state.  The register file is the part of \<open>UART_Type\<close> the driver touches; the
  masks are those of the vendor header (\<open>MK60D10.h\<close>, not among the sources),
  written as abbreviations so that they unfold to their values.  The hardware
  side of reception is a small set of events (a start-bit edge, a received byte,
  the line going idle) that set the status flags the way the K60 reference
  manual describes; the receive data stage holds one byte (the driver programs
  a receive watermark of one, so a data-ready flag stands for one byte).
\<close>

subsection \<open>Register masks\<close>

abbreviation (input) UART_S1_TDRE_MASK :: u8 where "UART_S1_TDRE_MASK \<equiv> 0x80"
abbreviation (input) UART_S1_TC_MASK :: u8 where "UART_S1_TC_MASK \<equiv> 0x40"
abbreviation (input) UART_S1_RDRF_MASK :: u8 where "UART_S1_RDRF_MASK \<equiv> 0x20"
abbreviation (input) UART_S2_RXEDGIF_MASK :: u8 where "UART_S2_RXEDGIF_MASK \<equiv> 0x40"
abbreviation (input) UART_S2_RAF_MASK :: u8 where "UART_S2_RAF_MASK \<equiv> 0x01"
abbreviation (input) UART_C2_RIE_MASK :: u8 where "UART_C2_RIE_MASK \<equiv> 0x20"
abbreviation (input) UART_C2_TE_MASK :: u8 where "UART_C2_TE_MASK \<equiv> 0x08"
abbreviation (input) UART_C2_RE_MASK :: u8 where "UART_C2_RE_MASK \<equiv> 0x04"
abbreviation (input) UART_BDH_RXEDGIE_MASK :: u8 where "UART_BDH_RXEDGIE_MASK \<equiv> 0x40"
abbreviation (input) UART_BDH_SBR_MASK :: u8 where "UART_BDH_SBR_MASK \<equiv> 0x1F"
abbreviation (input) UART_BDL_SBR_MASK :: u8 where "UART_BDL_SBR_MASK \<equiv> 0xFF"
abbreviation (input) UART_C4_BRFA_MASK :: u8 where "UART_C4_BRFA_MASK \<equiv> 0x1F"
abbreviation (input) UART_CFIFO_RXFLUSH_MASK :: u8 where "UART_CFIFO_RXFLUSH_MASK \<equiv> 0x40"
abbreviation (input) UART_CFIFO_TXFLUSH_MASK :: u8 where "UART_CFIFO_TXFLUSH_MASK \<equiv> 0x80"
abbreviation (input) UART_PFIFO_RXFE_SHIFT :: nat where "UART_PFIFO_RXFE_SHIFT \<equiv> 3"
abbreviation (input) UART_PFIFO_TXFE_SHIFT :: nat where "UART_PFIFO_TXFE_SHIFT \<equiv> 7"

text \<open>The driver's arrays \<open>rx_callback[NUM_UARTS]\<close> and \<open>receiving[NUM_UARTS]\<close>.\<close>

abbreviation (input) NUM_UARTS :: nat where "NUM_UARTS \<equiv> 6"

subsection \<open>The register file\<close>

record uart_regs =
  BDH :: u8
  BDL :: u8
  C1 :: u8
  C2 :: u8
  S1 :: u8
  S2 :: u8
  C4 :: u8
  D_rx :: u8
  PFIFO :: u8
  CFIFO :: u8
  TWFIFO :: u8
  RWFIFO :: u8

text \<open>Writing \<open>S2\<close>: the two interrupt flags (\<open>LBKDIF\<close>, \<open>RXEDGIF\<close>) are cleared by
  writing one, \<open>RAF\<close> is read-only, and the five configuration bits between them
  take the written value.\<close>

definition s2_write :: "u8 \<Rightarrow> u8 \<Rightarrow> u8" where
  "s2_write old v = ((old AND 0xC0) AND NOT v) OR (old AND 0x01) OR (v AND 0x3E)"

subsection \<open>The driver's global state\<close>

text \<open>A receive callback is a function pointer; \<open>None\<close> is \<open>NULL\<close>.  Calls it
  makes are observable events, as are the changes of the STOP and LLS
  inhibit counters the driver makes and the bytes it writes to the line.\<close>

type_synonym rx_cb = nat

datatype uart_event =
    Ev_inhibit_stop nat
  | Ev_uninhibit_stop nat
  | Ev_deliver nat rx_cb u8
  | Ev_tx nat u8

datatype break_code = BREAK_INVALID_PARAM

record uart_drv =
  uart :: "nat \<Rightarrow> uart_regs"
  rx_callback :: "nat \<Rightarrow> rx_cb option"
  receiving :: "nat \<Rightarrow> u8"
  semas :: inhibit_semas
  sim_scgc4 :: u32
  sim_scgc1 :: u32
  nvic_enabled :: "nat set"
  breaks :: "break_code list"
  events :: "uart_event list"

definition set_uart :: "nat \<Rightarrow> uart_regs \<Rightarrow> uart_drv \<Rightarrow> uart_drv" where
  "set_uart n r s = s\<lparr>uart := (uart s)(n := r)\<rparr>"

definition emit :: "uart_event \<Rightarrow> uart_drv \<Rightarrow> uart_drv" where
  "emit e s = s\<lparr>events := events s @ [e]\<rparr>"

text \<open>Reset values of the registers (K60 reference manual) and the driver's
  zero-initialised globals.\<close>

definition uart_regs_reset :: uart_regs where
  "uart_regs_reset = \<lparr>BDH = 0, BDL = 0x04, C1 = 0, C2 = 0, S1 = 0xC0, S2 = 0, C4 = 0,
                       D_rx = 0, PFIFO = 0, CFIFO = 0, TWFIFO = 0, RWFIFO = 1\<rparr>"

definition uart_drv_boot :: uart_drv where
  "uart_drv_boot = \<lparr>uart = (\<lambda>_. uart_regs_reset), rx_callback = (\<lambda>_. None),
                     receiving = (\<lambda>_. 0), semas = semas_boot, sim_scgc4 = 0, sim_scgc1 = 0,
                     nvic_enabled = {}, breaks = [], events = []\<rparr>"

subsection \<open>The hardware side of reception\<close>

text \<open>
  \<^item> \<open>Hw_edge\<close>: a falling edge on RX (a start bit): the edge flag and the
    receiver-active flag are set;
  \<^item> \<open>Hw_byte c\<close>: a frame completes: the data register holds \<open>c\<close> and the
    data-ready flag is set;
  \<^item> \<open>Hw_idle\<close>: the receiver detects an idle line and clears receiver-active.
  The driver enables two interrupt sources, data-ready (\<open>RIE\<close>) and RX edge
  (\<open>RXEDGIE\<close>); an interrupt is pending when one of them is enabled and its flag
  is set.
\<close>

datatype rx_hw = Hw_edge | Hw_byte u8 | Hw_idle

fun rx_hw_apply :: "rx_hw \<Rightarrow> uart_regs \<Rightarrow> uart_regs" where
  "rx_hw_apply Hw_edge r = r\<lparr>S2 := S2 r OR UART_S2_RXEDGIF_MASK OR UART_S2_RAF_MASK\<rparr>"
| "rx_hw_apply (Hw_byte c) r = r\<lparr>D_rx := c, S1 := S1 r OR UART_S1_RDRF_MASK\<rparr>"
| "rx_hw_apply Hw_idle r = r\<lparr>S2 := S2 r AND NOT UART_S2_RAF_MASK\<rparr>"

definition uart_irq_pending :: "uart_regs \<Rightarrow> bool" where
  "uart_irq_pending r \<longleftrightarrow>
     (C2 r AND UART_C2_RIE_MASK \<noteq> 0 \<and> S1 r AND UART_S1_RDRF_MASK \<noteq> 0) \<or>
     (BDH r AND UART_BDH_RXEDGIE_MASK \<noteq> 0 \<and> S2 r AND UART_S2_RXEDGIF_MASK \<noteq> 0)"

end
