(* ===== verification/Uart_Rx.thy ===== *)
theory Uart_Rx
  imports Uart_Hw
begin

text \<open>
  The receive side of \<open>uart.c\<close>: the status interrupt handler \<open>rx_irq_handler\<close>
  with its three blocks (drain the data register and call the callback; on an
  idle receiver drop the activity latch and release STOP; on an edge raise STOP
  and set the latch, then clear the edge flag), the per-UART interrupt entry
  points \<open>isr_uartN_status\<close>, \<open>uart_enable_rx_interrupt\<close> and
  \<open>uart_disable_rx_interrupt\<close> (which also hold and release LLS), and
  \<open>uart_set_rx_callback\<close>.  The lemmas show that the latch pairs every STOP
  inhibit of a line with exactly one release, in every interleaving of hardware
  events and handler runs, and what the handler does on each branch.
\<close>

subsection \<open>The interrupt handler\<close>

text \<open>Lines 18--23: reading \<open>S1\<close> and then \<open>D\<close> clears the data-ready flag; the
  byte goes to the callback if one is registered, and is dropped otherwise.\<close>

definition rx_read_data :: "nat \<Rightarrow> uart_drv \<Rightarrow> uart_drv" where
  "rx_read_data n s =
     (let r = uart s n in
      if S1 r AND UART_S1_RDRF_MASK \<noteq> 0 then
        (let c = D_rx r;
             s' = set_uart n (r\<lparr>S1 := S1 r AND NOT UART_S1_RDRF_MASK\<rparr>) s
         in case rx_callback s n of None \<Rightarrow> s' | Some cb \<Rightarrow> emit (Ev_deliver n cb c) s')
      else s)"

text \<open>Lines 24--30: receiver idle and the latch set: clear it, release STOP.\<close>

definition rx_check_idle :: "nat \<Rightarrow> uart_drv \<Rightarrow> uart_drv" where
  "rx_check_idle n s =
     (if S2 (uart s n) AND UART_S2_RAF_MASK = 0 then
        (if receiving s n \<noteq> 0
         then emit (Ev_uninhibit_stop n)
                (s\<lparr>receiving := (receiving s)(n := 0),
                   semas := llwu_uninhibit INHIBIT_STOP (semas s)\<rparr>)
         else s)
      else s)"

text \<open>Lines 32--40: an edge while the latch is clear raises STOP and sets the
  latch; the edge flag is cleared by writing a one to it in either case.\<close>

definition rx_check_edge :: "nat \<Rightarrow> uart_drv \<Rightarrow> uart_drv" where
  "rx_check_edge n s =
     (if S2 (uart s n) AND UART_S2_RXEDGIF_MASK \<noteq> 0 then
        (let s' = (if receiving s n = 0
                   then (emit (Ev_inhibit_stop n)
                          (s\<lparr>semas := llwu_inhibit INHIBIT_STOP (semas s)\<rparr>))
                          \<lparr>receiving := (receiving s)(n := 1)\<rparr>
                   else s)
         in set_uart n ((uart s' n)\<lparr>S2 := s2_write (S2 (uart s' n)) UART_S2_RXEDGIF_MASK\<rparr>) s')
      else s)"

definition rx_irq_handler :: "nat \<Rightarrow> uart_drv \<Rightarrow> uart_drv" where
  "rx_irq_handler n s = rx_check_edge n (rx_check_idle n (rx_read_data n s))"

text \<open>\<open>isr_uart0_status\<close> \<dots> \<open>isr_uart5_status\<close>: each exists when its UART is
  enabled in the board configuration (\<open>UARTn_CONF_ENABLE\<close>), and calls the
  handler for its own line.\<close>

definition isr_uart_status :: "(nat \<Rightarrow> bool) \<Rightarrow> nat \<Rightarrow> uart_drv \<Rightarrow> uart_drv" where
  "isr_uart_status conf n s = (if n < NUM_UARTS \<and> conf n then rx_irq_handler n s else s)"

subsection \<open>Enabling and disabling reception, the callback slot\<close>

definition uart_enable_rx_interrupt :: "nat \<Rightarrow> uart_drv \<Rightarrow> uart_drv" where
  "uart_enable_rx_interrupt n s =
     (let r = uart s n;
          r1 = r\<lparr>C2 := C2 r OR UART_C2_RIE_MASK\<rparr>;
          r2 = r1\<lparr>BDH := BDH r1 OR UART_BDH_RXEDGIE_MASK\<rparr>;
          r3 = r2\<lparr>C2 := C2 r2 OR UART_C2_RE_MASK\<rparr>
      in (set_uart n r3 s)\<lparr>semas := llwu_inhibit INHIBIT_LLS (semas s)\<rparr>)"

definition uart_disable_rx_interrupt :: "nat \<Rightarrow> uart_drv \<Rightarrow> uart_drv" where
  "uart_disable_rx_interrupt n s =
     (let r = uart s n;
          r1 = r\<lparr>C2 := C2 r AND NOT UART_C2_RIE_MASK\<rparr>;
          r2 = r1\<lparr>BDH := BDH r1 AND NOT UART_BDH_RXEDGIE_MASK\<rparr>;
          r3 = r2\<lparr>C2 := C2 r2 AND NOT UART_C2_RE_MASK\<rparr>
      in (set_uart n r3 s)\<lparr>semas := llwu_uninhibit INHIBIT_LLS (semas s)\<rparr>)"

definition uart_set_rx_callback :: "nat \<Rightarrow> rx_cb option \<Rightarrow> uart_drv \<Rightarrow> uart_drv" where
  "uart_set_rx_callback n cb s = s\<lparr>rx_callback := (rx_callback s)(n := cb)\<rparr>"

subsection \<open>Runs of one line\<close>

text \<open>What can happen to line \<open>n\<close>: a hardware event, or a run of the handler.\<close>

datatype rx_input = Rx_hw rx_hw | Rx_isr

fun rx_input_step :: "nat \<Rightarrow> uart_drv \<Rightarrow> rx_input \<Rightarrow> uart_drv" where
  "rx_input_step n s (Rx_hw h) = set_uart n (rx_hw_apply h (uart s n)) s"
| "rx_input_step n s Rx_isr = rx_irq_handler n s"

definition rx_run :: "nat \<Rightarrow> rx_input list \<Rightarrow> uart_drv \<Rightarrow> uart_drv" where
  "rx_run n ins s = foldl (rx_input_step n) s ins"

text \<open>The STOP inhibits (\<open>True\<close>) and releases (\<open>False\<close>) of line \<open>n\<close>, in order.\<close>

fun stop_trace :: "nat \<Rightarrow> uart_event list \<Rightarrow> bool list" where
  "stop_trace n [] = []"
| "stop_trace n (Ev_inhibit_stop m # es) = (if m = n then True # stop_trace n es else stop_trace n es)"
| "stop_trace n (Ev_uninhibit_stop m # es) = (if m = n then False # stop_trace n es else stop_trace n es)"
| "stop_trace n (Ev_deliver m cb c # es) = stop_trace n es"
| "stop_trace n (Ev_tx m c # es) = stop_trace n es"

fun alternates :: "bool \<Rightarrow> bool list \<Rightarrow> bool" where
  "alternates b [] = True"
| "alternates b (x # xs) = (x = b \<and> alternates (\<not> b) xs)"

text \<open>The pairing invariant of line \<open>n\<close>: the latch is 0 or 1, the line's STOP
  events alternate inhibit, release, inhibit, \<dots>, and the latch is set exactly
  when an inhibit is outstanding.\<close>

definition rx_pairing :: "nat \<Rightarrow> uart_drv \<Rightarrow> bool" where
  "rx_pairing n s \<longleftrightarrow>
     (receiving s n = 0 \<or> receiving s n = 1) \<and>
     alternates True (stop_trace n (events s)) \<and>
     (receiving s n = 1 \<longleftrightarrow> odd (length (stop_trace n (events s))))"

text \<open>The STOP counter as the receive path keeps it: every latch is 0 or 1 and the
  counter is the number of lines whose latch is set.\<close>

definition lines_receiving :: "uart_drv \<Rightarrow> nat" where
  "lines_receiving s = length (filter (\<lambda>n. receiving s n \<noteq> 0) [0..<NUM_UARTS])"

definition stop_inv :: "uart_drv \<Rightarrow> bool" where
  "stop_inv s \<longleftrightarrow>
     list_all (\<lambda>n. receiving s n \<le> 1) [0..<NUM_UARTS] \<and>
     llwu_inhibit_stop_sema (semas s) = of_nat (lines_receiving s)"

subsection \<open>The latch pairs inhibits with releases\<close>

lemmas drv_simps = emit_def set_uart_def

lemma stop_trace_append [simp]: "stop_trace n (xs @ ys) = stop_trace n xs @ stop_trace n ys"
  by (induction n xs rule: stop_trace.induct) auto

lemma alternates_append:
  "alternates b (xs @ ys) \<longleftrightarrow> alternates b xs \<and> alternates (if even (length xs) then b else \<not> b) ys"
  by (induction xs arbitrary: b) auto

lemma rx_read_data_frame [simp]:
  "receiving (rx_read_data m s) = receiving s"
  "semas (rx_read_data m s) = semas s"
  "stop_trace n (events (rx_read_data m s)) = stop_trace n (events s)"
  by (auto simp: rx_read_data_def drv_simps Let_def split: option.splits)

lemma rx_pairing_frame:
  "rx_pairing n s \<Longrightarrow> receiving t n = receiving s n \<Longrightarrow>
   stop_trace n (events t) = stop_trace n (events s) \<Longrightarrow> rx_pairing n t"
  unfolding rx_pairing_def by metis

lemma rx_read_data_pairing: "rx_pairing n s \<Longrightarrow> rx_pairing n (rx_read_data m s)"
  by (rule rx_pairing_frame) simp_all

lemma rx_check_idle_pairing: "rx_pairing n s \<Longrightarrow> rx_pairing n (rx_check_idle m s)"
  by (auto simp: rx_pairing_def rx_check_idle_def drv_simps alternates_append)

lemma rx_check_edge_pairing: "rx_pairing n s \<Longrightarrow> rx_pairing n (rx_check_edge m s)"
  by (auto simp: rx_pairing_def rx_check_edge_def drv_simps alternates_append Let_def)

lemma rx_irq_handler_pairing: "rx_pairing n s \<Longrightarrow> rx_pairing n (rx_irq_handler m s)"
  unfolding rx_irq_handler_def
  by (intro rx_check_edge_pairing rx_check_idle_pairing rx_read_data_pairing)

lemma rx_input_step_pairing: "rx_pairing n s \<Longrightarrow> rx_pairing n (rx_input_step m s i)"
proof (cases i)
  case (Rx_hw h)
  assume "rx_pairing n s"
  with Rx_hw show ?thesis by (auto intro: rx_pairing_frame simp: drv_simps)
next
  case Rx_isr
  assume "rx_pairing n s"
  with Rx_isr show ?thesis by (simp add: rx_irq_handler_pairing)
qed

lemma rx_run_pairing: "rx_pairing n s \<Longrightarrow> rx_pairing n (rx_run m ins s)"
  unfolding rx_run_def
  by (induction ins arbitrary: s) (simp_all add: rx_input_step_pairing)


subsection \<open>The STOP counter counts the receiving lines\<close>


lemma lines_receiving_upd:
  assumes "m < NUM_UARTS"
  shows "lines_receiving (s\<lparr>receiving := (receiving s)(m := v)\<rparr>) + (if receiving s m \<noteq> 0 then 1 else 0) =
         lines_receiving s + (if v \<noteq> 0 then 1 else 0)"
  using length_filter_fun_upd [of "[0..<NUM_UARTS]" "\<lambda>x. x \<noteq> 0" "receiving s" m v] assms
  unfolding lines_receiving_def by simp

lemma lines_receiving_cong:
  "receiving t = receiving s \<Longrightarrow> lines_receiving t = lines_receiving s"
  by (simp add: lines_receiving_def)

lemma stop_inv_update:
  assumes inv: "stop_inv s" and m: "m < NUM_UARTS" and v: "v \<le> 1"
    and rt: "receiving t = (receiving s)(m := v)"
    and st: "llwu_inhibit_stop_sema (semas t) + of_nat (if receiving s m \<noteq> 0 then 1 else 0) =
             llwu_inhibit_stop_sema (semas s) + of_nat (if v \<noteq> 0 then 1 else 0)"
  shows "stop_inv t"
proof -
  let ?a = "if receiving s m \<noteq> 0 then 1 else 0 :: nat"
  let ?b = "if v \<noteq> 0 then 1 else 0 :: nat"
  have "lines_receiving t = lines_receiving (s\<lparr>receiving := (receiving s)(m := v)\<rparr>)"
    using rt by (simp add: lines_receiving_cong)
  then have cnt: "lines_receiving t + ?a = lines_receiving s + ?b"
    using lines_receiving_upd [OF m, of s v] by simp
  from inv have s0: "llwu_inhibit_stop_sema (semas s) = of_nat (lines_receiving s)"
    by (simp add: stop_inv_def)
  have "llwu_inhibit_stop_sema (semas t) + of_nat ?a = of_nat (lines_receiving s + ?b)"
    using st s0 by simp
  also have "\<dots> = of_nat (lines_receiving t) + of_nat ?a"
    by (simp only: cnt [symmetric] of_nat_add)
  finally have "llwu_inhibit_stop_sema (semas t) = of_nat (lines_receiving t)"
    by simp
  moreover have "list_all (\<lambda>n. receiving t n \<le> 1) [0..<NUM_UARTS]"
    using inv v rt by (simp add: stop_inv_def list_all_iff)
  ultimately show ?thesis by (simp add: stop_inv_def)
qed


lemma stop_inv_frame:
  "stop_inv s \<Longrightarrow> receiving t = receiving s \<Longrightarrow>
   llwu_inhibit_stop_sema (semas t) = llwu_inhibit_stop_sema (semas s) \<Longrightarrow> stop_inv t"
proof -
  assume inv: "stop_inv s" and r: "receiving t = receiving s"
    and st: "llwu_inhibit_stop_sema (semas t) = llwu_inhibit_stop_sema (semas s)"
  from r have "lines_receiving t = lines_receiving s" by (rule lines_receiving_cong)
  with inv r st show ?thesis by (simp add: stop_inv_def)
qed

lemma stop_inv_latch: "stop_inv s \<Longrightarrow> m < NUM_UARTS \<Longrightarrow> receiving s m \<noteq> 0 \<Longrightarrow> receiving s m = 1"
  by (auto simp: stop_inv_def list_all_iff word_le_1_iff)

lemma rx_check_idle_stop_inv:
  assumes inv: "stop_inv s" and m: "m < NUM_UARTS"
  shows "stop_inv (rx_check_idle m s)"
proof (cases "S2 (uart s m) AND UART_S2_RAF_MASK = 0 \<and> receiving s m \<noteq> 0")
  case True
  with inv m have "receiving s m = 1" by (blast dest: stop_inv_latch)
  with True show ?thesis
    by (intro stop_inv_update [OF inv m, of 0]) (simp_all add: rx_check_idle_def drv_simps)
next
  case False
  with inv show ?thesis by (auto simp: rx_check_idle_def)
qed

lemma rx_check_edge_stop_inv:
  assumes inv: "stop_inv s" and m: "m < NUM_UARTS"
  shows "stop_inv (rx_check_edge m s)"
proof (cases "S2 (uart s m) AND UART_S2_RXEDGIF_MASK \<noteq> 0")
  case edge: True
  show ?thesis
  proof (cases "receiving s m = 0")
    case True
    with edge show ?thesis
      by (intro stop_inv_update [OF inv m, of 1]) (simp_all add: rx_check_edge_def drv_simps Let_def)
  next
    case False
    with edge show ?thesis
      by (intro stop_inv_frame [OF inv]) (simp_all add: rx_check_edge_def drv_simps Let_def)
  qed
next
  case False
  with inv show ?thesis by (simp add: rx_check_edge_def)
qed

lemma rx_irq_handler_stop_inv:
  "stop_inv s \<Longrightarrow> m < NUM_UARTS \<Longrightarrow> stop_inv (rx_irq_handler m s)"
proof -
  assume inv: "stop_inv s" and m: "m < NUM_UARTS"
  have "stop_inv (rx_read_data m s)" by (rule stop_inv_frame [OF inv]) simp_all
  then have "stop_inv (rx_check_idle m (rx_read_data m s))" using m by (rule rx_check_idle_stop_inv)
  then show ?thesis unfolding rx_irq_handler_def using m by (rule rx_check_edge_stop_inv)
qed

lemma rx_input_step_stop_inv:
  "stop_inv s \<Longrightarrow> m < NUM_UARTS \<Longrightarrow> stop_inv (rx_input_step m s i)"
proof -
  assume inv: "stop_inv s" and m: "m < NUM_UARTS"
  show ?thesis
  proof (cases i)
    case (Rx_hw h)
    then show ?thesis by (simp add: drv_simps stop_inv_frame [OF inv])
  next
    case Rx_isr
    then show ?thesis by (simp add: rx_irq_handler_stop_inv [OF inv m])
  qed
qed

lemma rx_run_stop_inv:
  "stop_inv s \<Longrightarrow> m < NUM_UARTS \<Longrightarrow> stop_inv (rx_run m ins s)"
  unfolding rx_run_def
  by (induction ins arbitrary: s) (simp_all add: rx_input_step_stop_inv)


lemmas rx_defs = rx_irq_handler_def rx_read_data_def rx_check_idle_def rx_check_edge_def

lemma rx_input_step_receiving_other:
  "m \<noteq> n \<Longrightarrow> receiving (rx_input_step n s i) m = receiving s m"
  by (cases i) (simp_all add: rx_defs drv_simps Let_def split: option.splits)

lemma rx_run_receiving_other:
  "m \<noteq> n \<Longrightarrow> receiving (rx_run n ins s) m = receiving s m"
  unfolding rx_run_def
  by (induction ins arbitrary: s) (simp_all add: rx_input_step_receiving_other)

lemma rx_input_step_events:
  "\<exists>es. events (rx_input_step n s i) = events s @ es"
  by (cases i) (auto simp: rx_defs drv_simps Let_def split: option.splits)

lemma rx_run_events:
  "\<exists>es. events (rx_run n ins s) = events s @ es"
  unfolding rx_run_def
proof (induction ins arbitrary: s)
  case Nil
  show ?case by simp
next
  case (Cons i ins)
  obtain es1 where "events (rx_input_step n s i) = events s @ es1"
    using rx_input_step_events by blast
  moreover obtain es2 where "events (foldl (rx_input_step n) (rx_input_step n s i) ins) =
                             events (rx_input_step n s i) @ es2"
    using Cons.IH by blast
  ultimately show ?case by auto
qed

lemma alternates_count:
  "alternates b xs \<Longrightarrow>
   count_list xs b = count_list xs (\<not> b) + (if odd (length xs) then 1 else 0)"
  by (induction xs arbitrary: b) auto

text \<open>C2: Round trip of an activity window: when a line goes from idle
  (latch clear) through any interleaving of edges, bytes, idle detections and
  handler runs back to idle, its STOP inhibits and releases alternate starting
  with an inhibit, there are exactly as many releases as inhibits, and the
  STOP counter is back to its value.\<close>

theorem rx_window_round_trip:
  assumes inv: "stop_inv s" and pair: "rx_pairing n s" and n: "n < NUM_UARTS"
    and idle0: "receiving s n = 0" and idle1: "receiving (rx_run n ins s) n = 0"
  shows "llwu_inhibit_stop_sema (semas (rx_run n ins s)) = llwu_inhibit_stop_sema (semas s) \<and>
         alternates True (stop_trace n (drop (length (events s)) (events (rx_run n ins s)))) \<and>
         count_list (stop_trace n (drop (length (events s)) (events (rx_run n ins s)))) True =
         count_list (stop_trace n (drop (length (events s)) (events (rx_run n ins s)))) False"
proof -
  let ?t = "rx_run n ins s"
  obtain es where ev: "events ?t = events s @ es" using rx_run_events by blast
  have pair': "rx_pairing n ?t" using pair by (rule rx_run_pairing)
  have even0: "even (length (stop_trace n (events s)))" using pair idle0 by (simp add: rx_pairing_def)
  have even1: "even (length (stop_trace n (events ?t)))" using pair' idle1 by (simp add: rx_pairing_def)
  have alt: "alternates True (stop_trace n es)"
    using pair' even0 by (simp add: rx_pairing_def ev alternates_append)
  have evn: "even (length (stop_trace n es))" using even0 even1 by (simp add: ev)
  have "receiving ?t = receiving s"
  proof
    fix m show "receiving ?t m = receiving s m"
      by (cases "m = n") (simp_all add: idle0 idle1 rx_run_receiving_other)
  qed
  then have "lines_receiving ?t = lines_receiving s" by (rule lines_receiving_cong)
  moreover have "stop_inv ?t" using inv n by (rule rx_run_stop_inv)
  ultimately have "llwu_inhibit_stop_sema (semas ?t) = llwu_inhibit_stop_sema (semas s)"
    using inv by (simp add: stop_inv_def)
  with alt evn alternates_count [OF alt] show ?thesis by (simp add: ev)
qed


theorem rx_window_round_trip_witness:
  "receiving (rx_run 0 [Rx_hw Hw_edge, Rx_isr, Rx_hw (Hw_byte 65), Rx_isr, Rx_hw Hw_idle, Rx_isr]
              uart_drv_boot) 0 = 0 \<and>
   llwu_inhibit_stop_sema (semas (rx_run 0 [Rx_hw Hw_edge, Rx_isr, Rx_hw (Hw_byte 65), Rx_isr,
              Rx_hw Hw_idle, Rx_isr] uart_drv_boot)) = 0"
proof -
  let ?ins = "[Rx_hw Hw_edge, Rx_isr, Rx_hw (Hw_byte 65), Rx_isr, Rx_hw Hw_idle, Rx_isr]"
  have inv: "stop_inv uart_drv_boot"
    by (simp add: stop_inv_def lines_receiving_def uart_drv_boot_def semas_boot_def list_all_iff)
  have pair: "rx_pairing 0 uart_drv_boot" by (simp add: rx_pairing_def uart_drv_boot_def)
  have idle1: "receiving (rx_run 0 ?ins uart_drv_boot) 0 = 0"
    by (simp add: rx_run_def rx_defs drv_simps Let_def uart_drv_boot_def uart_regs_reset_def s2_write_def)
  have "llwu_inhibit_stop_sema (semas (rx_run 0 ?ins uart_drv_boot)) =
        llwu_inhibit_stop_sema (semas uart_drv_boot)"
    using rx_window_round_trip [OF inv pair _ _ idle1] by (simp add: uart_drv_boot_def)
  with idle1 show ?thesis by (simp add: uart_drv_boot_def semas_boot_def)
qed

lemma s2_write_edge_clears [simp]: "s2_write old UART_S2_RXEDGIF_MASK AND UART_S2_RXEDGIF_MASK = 0"
  unfolding s2_write_def by (simp add: mask_simps)

lemma s2_write_edge_keeps_raf [simp]:
  "s2_write old UART_S2_RXEDGIF_MASK AND UART_S2_RAF_MASK = old AND UART_S2_RAF_MASK"
  unfolding s2_write_def by (simp add: mask_simps)

lemma rx_step_while_receiving:
  assumes recv: "receiving s n = 1" and raf: "S2 (uart s n) AND UART_S2_RAF_MASK \<noteq> 0"
    and not_idle: "i \<noteq> Rx_hw Hw_idle"
  shows "receiving (rx_input_step n s i) n = 1 \<and>
         S2 (uart (rx_input_step n s i) n) AND UART_S2_RAF_MASK \<noteq> 0 \<and>
         semas (rx_input_step n s i) = semas s \<and>
         stop_trace n (events (rx_input_step n s i)) = stop_trace n (events s)"
proof (cases i)
  case (Rx_hw h)
  with not_idle recv raf show ?thesis
    by (cases h) (simp_all add: drv_simps mask_simps or_eq_0_iff)
next
  case Rx_isr
  have rd: "S2 (uart (rx_read_data n s) n) = S2 (uart s n)"
    by (simp add: rx_read_data_def drv_simps Let_def split: option.splits)
  from Rx_isr recv raf rd show ?thesis
    by (simp add: rx_irq_handler_def rx_check_idle_def rx_check_edge_def drv_simps Let_def)
qed

text \<open>C3: Idempotence of the latch: while a line is receiving (latch set,
  receiver active), any number of further edge interrupts, bytes and handler
  runs leave the inhibit counters, the latch and the line's STOP events
  unchanged: an activity window holds STOP exactly once.\<close>

theorem rx_receiving_absorbs_interrupts:
  assumes "receiving s n = 1" and "S2 (uart s n) AND UART_S2_RAF_MASK \<noteq> 0"
    and "Rx_hw Hw_idle \<notin> set ins"
  shows "semas (rx_run n ins s) = semas s \<and> receiving (rx_run n ins s) n = 1 \<and>
         stop_trace n (events (rx_run n ins s)) = stop_trace n (events s)"
  using assms unfolding rx_run_def
proof (induction ins arbitrary: s)
  case Nil
  then show ?case by simp
next
  case (Cons i ins)
  have "i \<noteq> Rx_hw Hw_idle" using Cons.prems(3) by auto
  with Cons.prems(1,2) have step:
    "receiving (rx_input_step n s i) n = 1 \<and>
     S2 (uart (rx_input_step n s i) n) AND UART_S2_RAF_MASK \<noteq> 0 \<and>
     semas (rx_input_step n s i) = semas s \<and>
     stop_trace n (events (rx_input_step n s i)) = stop_trace n (events s)"
    by (rule rx_step_while_receiving)
  then have "semas (foldl (rx_input_step n) (rx_input_step n s i) ins) = semas (rx_input_step n s i) \<and>
             receiving (foldl (rx_input_step n) (rx_input_step n s i) ins) n = 1 \<and>
             stop_trace n (events (foldl (rx_input_step n) (rx_input_step n s i) ins)) =
             stop_trace n (events (rx_input_step n s i))"
    using Cons.prems(3) by (intro Cons.IH) auto
  with step show ?case by simp
qed

theorem rx_receiving_absorbs_interrupts_witness:
  "semas (rx_run 0 [Rx_hw Hw_edge, Rx_isr, Rx_hw Hw_edge, Rx_isr]
            (rx_run 0 [Rx_hw Hw_edge, Rx_isr] uart_drv_boot)) =
   semas (rx_run 0 [Rx_hw Hw_edge, Rx_isr] uart_drv_boot)"
proof -
  let ?s = "rx_run 0 [Rx_hw Hw_edge, Rx_isr] uart_drv_boot"
  have r: "receiving ?s 0 = 1" and a: "S2 (uart ?s 0) AND UART_S2_RAF_MASK \<noteq> 0"
    by (simp_all add: rx_run_def rx_defs drv_simps Let_def uart_drv_boot_def uart_regs_reset_def
                      s2_write_def)
  have "Rx_hw Hw_idle \<notin> set [Rx_hw Hw_edge, Rx_isr, Rx_hw Hw_edge, Rx_isr]" by simp
  from rx_receiving_absorbs_interrupts [OF r a this] show ?thesis by simp
qed

text \<open>C7: The spec's end-to-end example: on a line that is idle with no flag
  pending and a callback registered, the sequence edge interrupt, data-ready
  interrupt for a byte, interrupt after the receiver went idle yields exactly
  one STOP inhibit, one callback call with the byte, and one release, in that
  order, and leaves the counters and the latch as they were.\<close>

theorem rx_edge_byte_idle:
  assumes "receiving s n = 0" and "S1 (uart s n) AND UART_S1_RDRF_MASK = 0"
    and "S2 (uart s n) AND UART_S2_RXEDGIF_MASK = 0" and "rx_callback s n = Some cb"
  shows "events (rx_run n [Rx_hw Hw_edge, Rx_isr, Rx_hw (Hw_byte c), Rx_isr, Rx_hw Hw_idle, Rx_isr] s) =
           events s @ [Ev_inhibit_stop n, Ev_deliver n cb c, Ev_uninhibit_stop n] \<and>
         semas (rx_run n [Rx_hw Hw_edge, Rx_isr, Rx_hw (Hw_byte c), Rx_isr, Rx_hw Hw_idle, Rx_isr] s) = semas s \<and>
         receiving (rx_run n [Rx_hw Hw_edge, Rx_isr, Rx_hw (Hw_byte c), Rx_isr, Rx_hw Hw_idle, Rx_isr] s) n = 0"
  using assms
  by (simp add: rx_run_def rx_defs drv_simps Let_def mask_simps or_eq_0_iff)

theorem rx_edge_byte_idle_witness:
  "events (rx_run 0 [Rx_hw Hw_edge, Rx_isr, Rx_hw (Hw_byte 88), Rx_isr, Rx_hw Hw_idle, Rx_isr]
             (uart_set_rx_callback 0 (Some 1) uart_drv_boot)) =
   [Ev_inhibit_stop 0, Ev_deliver 0 1 88, Ev_uninhibit_stop 0]"
proof -
  let ?s = "uart_set_rx_callback 0 (Some 1) uart_drv_boot"
  have "receiving ?s 0 = 0" and "S1 (uart ?s 0) AND UART_S1_RDRF_MASK = 0"
    and "S2 (uart ?s 0) AND UART_S2_RXEDGIF_MASK = 0" and "rx_callback ?s 0 = Some 1"
    by (simp_all add: uart_set_rx_callback_def uart_drv_boot_def uart_regs_reset_def)
  from rx_edge_byte_idle [OF this, of 88] show ?thesis
    by (simp add: uart_set_rx_callback_def uart_drv_boot_def)
qed

text \<open>C10: An edge seen only after the receiver is already idle again (the
  idle check runs before the edge check in the same handler run) sets the latch
  and raises STOP, and leaves no enabled UART interrupt pending: STOP stays held
  until some later line activity interrupts.\<close>

theorem rx_edge_after_idle_holds_stop:
  assumes "receiving s n = 0" and "S1 (uart s n) AND UART_S1_RDRF_MASK = 0"
    and "S2 (uart s n) AND UART_S2_RXEDGIF_MASK \<noteq> 0" and "S2 (uart s n) AND UART_S2_RAF_MASK = 0"
  shows "receiving (rx_irq_handler n s) n = 1 \<and>
         llwu_inhibit_stop_sema (semas (rx_irq_handler n s)) = llwu_inhibit_stop_sema (semas s) + 1 \<and>
         \<not> uart_irq_pending (uart (rx_irq_handler n s) n)"
  using assms
  by (simp add: rx_defs drv_simps Let_def uart_irq_pending_def)

theorem rx_edge_after_idle_holds_stop_witness:
  "receiving (rx_irq_handler 0 (set_uart 0 (uart_regs_reset\<lparr>S2 := 0x40\<rparr>) uart_drv_boot)) 0 = 1 \<and>
   llwu_inhibit_stop_sema (semas (rx_irq_handler 0 (set_uart 0 (uart_regs_reset\<lparr>S2 := 0x40\<rparr>)
      uart_drv_boot))) = 1"
proof -
  let ?s = "set_uart 0 (uart_regs_reset\<lparr>S2 := 0x40\<rparr>) uart_drv_boot"
  have "receiving ?s 0 = 0" and "S1 (uart ?s 0) AND UART_S1_RDRF_MASK = 0"
    and "S2 (uart ?s 0) AND UART_S2_RXEDGIF_MASK \<noteq> 0" and "S2 (uart ?s 0) AND UART_S2_RAF_MASK = 0"
    by (simp_all add: drv_simps uart_drv_boot_def uart_regs_reset_def)
  from rx_edge_after_idle_holds_stop [OF this] show ?thesis
    by (simp add: drv_simps uart_drv_boot_def semas_boot_def)
qed

end
