(* ===== verification/Uart_Init.thy ===== *)
theory Uart_Init
  imports Uart_Rx
begin

text \<open>
  Initialisation of a UART (\<open>uart.c\<close>): \<open>uart_module_enable\<close> opens the clock
  gate of one module in the SIM, and \<open>uart_init\<close> picks the module clock,
  computes the baud divisor and its fine adjust, programs the register block
  and enables the module's interrupt in the NVIC.  The divisor macros
  \<open>UART_SBR\<close> and \<open>UART_BRFA\<close> live in \<open>uart.h\<close>, outside the sources; they are
  modelled from the spec (6): the divisor is \<open>round (clk / (16 baud))\<close>, the
  fine adjust what is left of \<open>clk / (16 baud)\<close> above it in steps of 1/32
  (none when the divisor was rounded up).  The properties of \<open>uart_init\<close> below
  hold for any divisor calculator: they concern what the code does with the
  two values it is given.  An invalid
  module number is reported through \<open>DEBUGGER_BREAK\<close>, modelled as an entry of
  the \<open>breaks\<close> log, after which the code continues as written.
\<close>

subsection \<open>Clock gates\<close>

abbreviation (input) SIM_SCGC4_UART0_SHIFT :: nat where "SIM_SCGC4_UART0_SHIFT \<equiv> 10"
abbreviation (input) SIM_SCGC4_UART1_SHIFT :: nat where "SIM_SCGC4_UART1_SHIFT \<equiv> 11"
abbreviation (input) SIM_SCGC4_UART2_SHIFT :: nat where "SIM_SCGC4_UART2_SHIFT \<equiv> 12"
abbreviation (input) SIM_SCGC4_UART3_SHIFT :: nat where "SIM_SCGC4_UART3_SHIFT \<equiv> 13"
abbreviation (input) SIM_SCGC1_UART4_SHIFT :: nat where "SIM_SCGC1_UART4_SHIFT \<equiv> 10"
abbreviation (input) SIM_SCGC1_UART5_SHIFT :: nat where "SIM_SCGC1_UART5_SHIFT \<equiv> 11"

definition debugger_break :: "break_code \<Rightarrow> uart_drv \<Rightarrow> uart_drv" where
  "debugger_break b s = s\<lparr>breaks := breaks s @ [b]\<rparr>"

definition uart_module_enable :: "nat \<Rightarrow> uart_drv \<Rightarrow> uart_drv" where
  "uart_module_enable n s =
     (if n = 0 then s\<lparr>sim_scgc4 := set_bit_reg (sim_scgc4 s) SIM_SCGC4_UART0_SHIFT\<rparr>
      else if n = 1 then s\<lparr>sim_scgc4 := set_bit_reg (sim_scgc4 s) SIM_SCGC4_UART1_SHIFT\<rparr>
      else if n = 2 then s\<lparr>sim_scgc4 := set_bit_reg (sim_scgc4 s) SIM_SCGC4_UART2_SHIFT\<rparr>
      else if n = 3 then s\<lparr>sim_scgc4 := set_bit_reg (sim_scgc4 s) SIM_SCGC4_UART3_SHIFT\<rparr>
      else if n = 4 then s\<lparr>sim_scgc1 := set_bit_reg (sim_scgc1 s) SIM_SCGC1_UART4_SHIFT\<rparr>
      else if n = 5 then s\<lparr>sim_scgc1 := set_bit_reg (sim_scgc1 s) SIM_SCGC1_UART5_SHIFT\<rparr>
      else debugger_break BREAK_INVALID_PARAM s)"

text \<open>Whether the clock gate of module \<open>n\<close> is open.\<close>

definition uart_clock_gated :: "nat \<Rightarrow> uart_drv \<Rightarrow> bool" where
  "uart_clock_gated n s \<longleftrightarrow>
     (if n \<le> 3 then bit (sim_scgc4 s) (10 + n)
      else if n \<le> 5 then bit (sim_scgc1 s) (6 + n) else False)"

subsection \<open>The baud divisor\<close>

text \<open>\<open>round (clk / (16 baud))\<close>, halves rounded up.\<close>

definition UART_SBR :: "u32 \<Rightarrow> u32 \<Rightarrow> u32" where
  "UART_SBR clk baud = word_of_nat ((unat clk + 8 * unat baud) div (16 * unat baud))"

text \<open>\<open>clk / (16 baud)\<close> in steps of 1/32 is \<open>2 clk / baud\<close>; the fine adjust is
  the part of it (rounded) above \<open>32 SBR\<close>.\<close>

definition UART_BRFA :: "u32 \<Rightarrow> u32 \<Rightarrow> u32" where
  "UART_BRFA clk baud =
     (let q = (2 * unat clk + unat baud div 2) div unat baud;
          s = 32 * unat (UART_SBR clk baud)
      in if s \<le> q then word_of_nat (q - s) else 0)"

text \<open>Lines 130, 132 and 134: the 13-bit divisor goes to \<open>BDH[4:0]\<close> and \<open>BDL\<close>,
  the fine adjust to \<open>C4[4:0]\<close>; the other bits of \<open>BDH\<close> and \<open>C4\<close> are kept.\<close>

definition bdh_with_sbr :: "u8 \<Rightarrow> u16 \<Rightarrow> u8" where
  "bdh_with_sbr bdh sbr = (bdh AND NOT UART_BDH_SBR_MASK) OR (ucast (drop_bit 8 sbr) AND 0x1F)"

definition bdl_with_sbr :: "u8 \<Rightarrow> u16 \<Rightarrow> u8" where
  "bdl_with_sbr bdl sbr = (bdl AND NOT UART_BDL_SBR_MASK) OR (ucast sbr AND 0xFF)"

definition c4_with_brfa :: "u8 \<Rightarrow> u16 \<Rightarrow> u8" where
  "c4_with_brfa c4 brfa = (c4 AND NOT UART_C4_BRFA_MASK) OR (ucast brfa AND 0x1F)"

text \<open>What the hardware reads back: the divisor field, the fine-adjust field,
  and the baud rate they produce from a module clock,
  \<open>clk / (16 (SBR + BRFA/32)) = 2 clk / (32 SBR + BRFA)\<close>.\<close>

definition sbr_field :: "uart_regs \<Rightarrow> nat" where
  "sbr_field r = unat (BDH r AND UART_BDH_SBR_MASK) * 256 + unat (BDL r)"

definition brfa_field :: "uart_regs \<Rightarrow> nat" where
  "brfa_field r = unat (C4 r AND UART_C4_BRFA_MASK)"

definition uart_baud_rate :: "nat \<Rightarrow> uart_regs \<Rightarrow> nat" where
  "uart_baud_rate clk r = 2 * clk div (32 * sbr_field r + brfa_field r)"

subsection \<open>uart_init\<close>

text \<open>The core clocks the code reads when no module clock is given.\<close>

record core_clocks =
  SystemSysClock :: u32
  SystemBusClock :: u32

text \<open>\<open>UARTn_RX_TX_IRQn\<close> of the K60 vector table.\<close>

definition uart_irqn :: "nat \<Rightarrow> nat" where
  "uart_irqn n = 45 + 2 * n"

text \<open>Lines 120--149: the register programming, in the order of the code.\<close>

definition uart_program_regs :: "u16 \<Rightarrow> u16 \<Rightarrow> uart_regs \<Rightarrow> uart_regs" where
  "uart_program_regs sbr brfa r =
     (let r1 = r\<lparr>C2 := C2 r AND NOT (UART_C2_TE_MASK OR UART_C2_RE_MASK)\<rparr>;
          r2 = r1\<lparr>C1 := 0\<rparr>;
          r3 = r2\<lparr>BDH := bdh_with_sbr (BDH r2) sbr\<rparr>;
          r4 = r3\<lparr>BDL := bdl_with_sbr (BDL r3) sbr\<rparr>;
          r5 = r4\<lparr>C4 := c4_with_brfa (C4 r4) brfa\<rparr>;
          r6 = r5\<lparr>PFIFO := set_bit_reg (PFIFO r5) UART_PFIFO_RXFE_SHIFT\<rparr>;
          r7 = r6\<lparr>PFIFO := clear_bit_reg (PFIFO r6) UART_PFIFO_TXFE_SHIFT\<rparr>;
          r8 = r7\<lparr>TWFIFO := 0\<rparr>;
          r9 = r8\<lparr>RWFIFO := 1\<rparr>;
          r10 = r9\<lparr>CFIFO := UART_CFIFO_RXFLUSH_MASK OR UART_CFIFO_TXFLUSH_MASK\<rparr>
      in r10\<lparr>C2 := C2 r10 OR UART_C2_TE_MASK\<rparr>)"

text \<open>Lines 94--108: the module clock the divisor is computed from; a zero
  argument means the module's current clock, the system clock for modules 0
  and 1 and the bus clock for the others.\<close>

definition uart_module_clock :: "core_clocks \<Rightarrow> nat \<Rightarrow> u32 \<Rightarrow> u32" where
  "uart_module_clock clk n module_clk_hz =
     (if module_clk_hz = 0
      then (if n \<le> 1 then SystemSysClock clk else SystemBusClock clk)
      else module_clk_hz)"

text \<open>The whole function; \<open>conf\<close> is the board's \<open>UARTn_CONF_ENABLE\<close>.  With a
  zero module clock only modules 0--4 have a clock to pick; any other number
  is reported and the function returns.\<close>

definition uart_init ::
  "core_clocks \<Rightarrow> (nat \<Rightarrow> bool) \<Rightarrow> nat \<Rightarrow> u32 \<Rightarrow> u32 \<Rightarrow> uart_drv \<Rightarrow> uart_drv" where
  "uart_init clk conf n module_clk_hz baud s =
     (if module_clk_hz = 0 \<and> 4 < n then debugger_break BREAK_INVALID_PARAM s
      else
        (let hz = uart_module_clock clk n module_clk_hz;
             s1 = uart_module_enable n s;
             sbr = (ucast (UART_SBR hz baud) :: u16);
             brfa = (ucast (UART_BRFA hz baud) :: u16);
             s2 = set_uart n (uart_program_regs sbr brfa (uart s1 n)) s1
         in if n < NUM_UARTS \<and> conf n
            then s2\<lparr>nvic_enabled := insert (uart_irqn n) (nvic_enabled s2)\<rparr>
            else s2))"

subsection \<open>Properties\<close>

lemma u8_mask_1f: "(0x1F :: u8) = mask 5" by (simp add: mask_eq_exp_minus_1)

lemma bdh_field: "unat (bdh_with_sbr b sbr AND UART_BDH_SBR_MASK) = unat sbr div 256 mod 32"
proof -
  have "bdh_with_sbr b sbr AND 0x1F = ucast (drop_bit 8 sbr) AND 0x1F"
    by (simp add: bdh_with_sbr_def mask_simps)
  moreover have "unat ((ucast (drop_bit 8 sbr) :: u8) AND 0x1F) = unat (drop_bit 8 sbr) mod 256 mod 32"
    by (simp only: u8_mask_1f unat_and_mask_mod unat_ucast_mod) simp
  moreover have "unat (drop_bit 8 sbr) = unat sbr div 256"
    by (simp add: unat_drop_bit_eq drop_bit_eq_div unat_div_distrib)
  ultimately show ?thesis by (simp add: mod_mod_cancel)
qed

lemma bdl_field: "unat (bdl_with_sbr b sbr) = unat sbr mod 256"
proof -
  have ff: "(0xFF :: u8) = - 1" by simp
  have "bdl_with_sbr b sbr = ucast sbr" by (simp add: bdl_with_sbr_def ff)
  then show ?thesis by (simp add: unat_ucast_mod)
qed

lemma c4_field: "unat (c4_with_brfa c sbr AND UART_C4_BRFA_MASK) = unat sbr mod 32"
proof -
  have "c4_with_brfa c sbr AND 0x1F = ucast sbr AND 0x1F"
    by (simp add: c4_with_brfa_def mask_simps)
  moreover have "unat ((ucast sbr :: u8) AND 0x1F) = unat sbr mod 256 mod 32"
    by (simp only: u8_mask_1f unat_and_mask_mod unat_ucast_mod) simp
  ultimately show ?thesis by (simp add: mod_mod_cancel)
qed

lemma div256_mod32: "(n::nat) div 256 mod 32 * 256 + n mod 256 = n mod 8192"
  using mod_mult2_eq [of n 256 32] by simp

lemma program_regs_fields:
  "sbr_field (uart_program_regs sbr brfa r) = unat sbr mod 8192"
  "brfa_field (uart_program_regs sbr brfa r) = unat brfa mod 32"
  by (simp_all add: uart_program_regs_def sbr_field_def brfa_field_def Let_def bdh_field bdl_field
                    c4_field div256_mod32)

lemma module_enable_uart [simp]: "uart (uart_module_enable n s) = uart s"
  by (simp add: uart_module_enable_def debugger_break_def)

lemma uart_init_uart:
  assumes "\<not> (module_clk_hz = 0 \<and> 4 < n)"
  shows "uart (uart_init clk conf n module_clk_hz baud s) n =
           uart_program_regs (ucast (UART_SBR (uart_module_clock clk n module_clk_hz) baud))
                             (ucast (UART_BRFA (uart_module_clock clk n module_clk_hz) baud)) (uart s n)"
  by (simp only: uart_init_def if_not_P [OF assms]) (simp add: Let_def set_uart_def)

lemma ucast16_field_sbr:
  "unat (ucast (w :: u32) :: u16) mod 8192 = unat w mod 8192"
proof -
  have "unat w mod 65536 mod 8192 = unat w mod 8192"
    using mod_mod_cancel [of 8192 65536 "unat w"] by simp
  then show ?thesis by (simp add: unat_ucast_mod)
qed

lemma ucast16_field_brfa:
  "unat (ucast (w :: u32) :: u16) mod 32 = unat w mod 32"
proof -
  have "unat w mod 65536 mod 32 = unat w mod 32"
    using mod_mod_cancel [of 32 65536 "unat w"] by simp
  then show ?thesis by (simp add: unat_ucast_mod)
qed

text \<open>C14: \<open>uart_module_enable\<close> opens the clock gate of module \<open>n\<close> exactly when \<open>n\<close> is a UART
  number and leaves every other gate as it was.\<close>

theorem uart_module_enable_gates:
  "uart_clock_gated m (uart_module_enable n s) \<longleftrightarrow> uart_clock_gated m s \<or> (m = n \<and> n < NUM_UARTS)"
  by (auto simp: uart_module_enable_def uart_clock_gated_def debugger_break_def)

text \<open>\<open>uart_module_enable\<close> reports \<open>BREAK_INVALID_PARAM\<close> exactly for module
  numbers outside 0--5.\<close>

theorem uart_module_enable_breaks:
  "breaks (uart_module_enable n s) =
     (if n < NUM_UARTS then breaks s else breaks s @ [BREAK_INVALID_PARAM])"
  by (simp add: uart_module_enable_def debugger_break_def)

text \<open>C15: \<open>uart_init\<close> stores the divisor and fine adjust it computes without
  a range check: the SBR field read back from \<open>BDH\<close>/\<open>BDL\<close> is the divisor modulo
  2 to the 13, the BRFA field of \<open>C4\<close> the fine adjust modulo 32, whatever their
  size (a divisor of 8192 or more, from a fast clock and a low rate, is
  silently truncated).\<close>

theorem uart_init_divisor_fields:
  assumes n: "\<not> (module_clk_hz = 0 \<and> 4 < n)"
    and hz: "uart_module_clock clk n module_clk_hz = f"
  shows "sbr_field (uart (uart_init clk conf n module_clk_hz baud s) n) = unat (UART_SBR f baud) mod 8192 \<and>
         brfa_field (uart (uart_init clk conf n module_clk_hz baud s) n) = unat (UART_BRFA f baud) mod 32"
  using uart_init_uart [OF n, of clk conf baud s] hz
  by (simp add: program_regs_fields ucast16_field_sbr ucast16_field_brfa)

text \<open>The example of the specification: a 50 MHz module clock at 115200 baud
  gives SBR 27 and BRFA 4, that is 115207 baud, within 3 percent of the
  target.\<close>

theorem uart_init_115200:
  "let r = uart (uart_init clk conf n 50000000 115200 s) n
   in sbr_field r = 27 \<and> brfa_field r = 4 \<and> uart_baud_rate 50000000 r = 115207"
proof -
  have "sbr_field (uart (uart_init clk conf n 50000000 115200 s) n) = 27 \<and>
        brfa_field (uart (uart_init clk conf n 50000000 115200 s) n) = 4"
    using uart_init_uart [of 50000000 n clk conf 115200 s]
    by (simp add: uart_module_clock_def program_regs_fields ucast16_field_sbr ucast16_field_brfa
                  UART_SBR_def UART_BRFA_def Let_def)
  then show ?thesis by (simp add: uart_baud_rate_def)
qed

text \<open>\<open>uart_init(5, 0, baud)\<close> has no clock to pick for UART5: it only reports
  \<open>BREAK_INVALID_PARAM\<close> and changes nothing else.\<close>

theorem uart_init_uart5_default_clock:
  "uart_init clk conf 5 0 baud s = s\<lparr>breaks := breaks s @ [BREAK_INVALID_PARAM]\<rparr>"
  by (simp add: uart_init_def debugger_break_def)

text \<open>C16: with an explicit clock and a module number of 6 or more, \<open>uart_init\<close>
  reports \<open>BREAK_INVALID_PARAM\<close> and still programs the register block \<open>UART[n]\<close>.\<close>

theorem uart_init_bad_module_programs:
  assumes "NUM_UARTS \<le> n" and "module_clk_hz \<noteq> 0"
  shows "breaks (uart_init clk conf n module_clk_hz baud s) = breaks s @ [BREAK_INVALID_PARAM] \<and>
         uart (uart_init clk conf n module_clk_hz baud s) n =
           uart_program_regs (ucast (UART_SBR module_clk_hz baud)) (ucast (UART_BRFA module_clk_hz baud))
                             (uart s n)"
  using assms uart_init_uart [of module_clk_hz n clk conf baud s]
  by (simp add: uart_init_def Let_def set_uart_def uart_module_enable_def debugger_break_def
                uart_module_clock_def)

theorem uart_init_divisor_fields_witness:
  "sbr_field (uart (uart_init \<lparr>SystemSysClock = 0, SystemBusClock = 0\<rparr> (\<lambda>_. True) 0 50000000 300
                      uart_drv_boot) 0) = unat (UART_SBR 50000000 300) mod 8192 \<and>
   brfa_field (uart (uart_init \<lparr>SystemSysClock = 0, SystemBusClock = 0\<rparr> (\<lambda>_. True) 0 50000000 300
                      uart_drv_boot) 0) = unat (UART_BRFA 50000000 300) mod 32"
  by (rule uart_init_divisor_fields) (simp_all add: uart_module_clock_def)

theorem uart_init_bad_module_programs_witness:
  "breaks (uart_init \<lparr>SystemSysClock = 0, SystemBusClock = 0\<rparr> (\<lambda>_. True) 6 50000000 115200
            uart_drv_boot) = breaks uart_drv_boot @ [BREAK_INVALID_PARAM] \<and>
   uart (uart_init \<lparr>SystemSysClock = 0, SystemBusClock = 0\<rparr> (\<lambda>_. True) 6 50000000 115200
          uart_drv_boot) 6 =
     uart_program_regs (ucast (UART_SBR 50000000 115200)) (ucast (UART_BRFA 50000000 115200))
                       (uart uart_drv_boot 6)"
  by (rule uart_init_bad_module_programs) simp_all

end
