(* ===== verification/Llwu_Policy.thy ===== *)
theory Llwu_Policy
  imports Inhibit
begin

text \<open>
  Controller registry and sleep-depth policy of the LLWU.  The control struct,
  its default initialiser \<open>LLWU_CONTROL\<close> and the prototypes of
  \<open>llwu_register\<close>, \<open>llwu_set_allow\<close> and \<open>llwu_sleep\<close> are in \<open>llwu.h\<close>; their
  bodies (\<open>llwu.c\<close>) are not among the sources and are modelled from the spec
  (4.2): registration prepends the struct to a singly linked list through its
  \<open>next\<close> pointer, \<open>set_allow\<close> stores the flag, and the policy walks the list
  (a pointer walk, so a \<^theory_text>\<open>partial_function (option)\<close>: a cyclic list makes it
  run forever) and picks the deepest mode that neither a counter nor a
  dissenting controller forbids.  The registry is a heap of control structs
  indexed by address; the abstract view of a well-formed registry is the list
  of addresses its chain visits.
\<close>

subsection \<open>Power modes and their order\<close>

text \<open>The depths, shallowest first: \<open>WAIT\<close> is the always-safe idle state.\<close>

datatype power_mode = WAIT | STOP | VLPS | LLS

fun mode_rank :: "power_mode \<Rightarrow> nat" where
  "mode_rank WAIT = 0"
| "mode_rank STOP = 1"
| "mode_rank VLPS = 2"
| "mode_rank LLS = 3"

instantiation power_mode :: linorder
begin

definition less_eq_power_mode :: "power_mode \<Rightarrow> power_mode \<Rightarrow> bool" where
  "less_eq_power_mode m m' \<longleftrightarrow> mode_rank m \<le> mode_rank m'"

definition less_power_mode :: "power_mode \<Rightarrow> power_mode \<Rightarrow> bool" where
  "less_power_mode m m' \<longleftrightarrow> mode_rank m < mode_rank m'"

instance
proof
  fix x y z :: power_mode
  show "x < y \<longleftrightarrow> x \<le> y \<and> \<not> y \<le> x"
    by (auto simp: less_eq_power_mode_def less_power_mode_def)
  show "x \<le> x" by (simp add: less_eq_power_mode_def)
  show "x \<le> y \<Longrightarrow> y \<le> z \<Longrightarrow> x \<le> z" by (simp add: less_eq_power_mode_def)
  show "x \<le> y \<Longrightarrow> y \<le> x \<Longrightarrow> x = y"
    by (cases x; cases y) (simp_all add: less_eq_power_mode_def)
  show "x \<le> y \<or> y \<le> x" by (auto simp: less_eq_power_mode_def)
qed

end

definition all_modes :: "power_mode list" where
  "all_modes = [WAIT, STOP, VLPS, LLS]"

subsection \<open>The controller registry\<close>

type_synonym ctl_addr = nat

text \<open>\<open>struct llwu_control { struct llwu_control *next; char allow_llwu; }\<close>\<close>

record llwu_control =
  ctl_next :: "ctl_addr option"
  allow_llwu :: u8

text \<open>\<open>LLWU_CONTROL(name)\<close>: a static struct, unlinked, allowing deep sleep.\<close>

definition LLWU_CONTROL :: llwu_control where
  "LLWU_CONTROL = \<lparr>ctl_next = None, allow_llwu = 1\<rparr>"

record llwu_registry =
  controls :: "ctl_addr \<Rightarrow> llwu_control"
  llwu_head :: "ctl_addr option"

definition llwu_register :: "ctl_addr \<Rightarrow> llwu_registry \<Rightarrow> llwu_registry" where
  "llwu_register c r =
     r\<lparr>controls := (controls r)(c := (controls r c)\<lparr>ctl_next := llwu_head r\<rparr>),
       llwu_head := Some c\<rparr>"

definition llwu_set_allow :: "ctl_addr \<Rightarrow> u8 \<Rightarrow> llwu_registry \<Rightarrow> llwu_registry" where
  "llwu_set_allow c allow r =
     r\<lparr>controls := (controls r)(c := (controls r c)\<lparr>allow_llwu := allow\<rparr>)\<rparr>"

text \<open>The policy's walk over the list: unanimous consent, stopping at the first
  controller whose flag is zero.\<close>

partial_function (option) llwu_all_allow ::
  "(ctl_addr \<Rightarrow> llwu_control) \<Rightarrow> ctl_addr option \<Rightarrow> bool option" where
  "llwu_all_allow h p =
     (case p of
        None \<Rightarrow> Some True
      | Some c \<Rightarrow> (if allow_llwu (h c) = 0 then Some False else llwu_all_allow h (ctl_next (h c))))"

text \<open>The chain from \<open>p\<close> visits exactly the addresses \<open>cs\<close> and ends in \<open>NULL\<close>.\<close>

fun ctl_chain :: "(ctl_addr \<Rightarrow> llwu_control) \<Rightarrow> ctl_addr option \<Rightarrow> ctl_addr list \<Rightarrow> bool" where
  "ctl_chain h p [] \<longleftrightarrow> p = None"
| "ctl_chain h p (c # cs) \<longleftrightarrow> p = Some c \<and> ctl_chain h (ctl_next (h c)) cs"

subsection \<open>The sleep-depth decision\<close>

text \<open>The counter that guards each depth; \<open>WAIT\<close> has none.\<close>

fun mode_inhibited :: "inhibit_semas \<Rightarrow> power_mode \<Rightarrow> bool" where
  "mode_inhibited s WAIT = False"
| "mode_inhibited s STOP = (llwu_inhibit_stop_sema s \<noteq> 0)"
| "mode_inhibited s VLPS = (llwu_inhibit_vlps_sema s \<noteq> 0)"
| "mode_inhibited s LLS = (llwu_inhibit_lls_sema s \<noteq> 0)"

text \<open>The decision of \<open>llwu_sleep\<close>, taken with interrupts masked: the shallowest
  nonzero counter caps the depth, and any dissenting controller caps it at
  \<open>WAIT\<close>.\<close>

definition llwu_choose_mode :: "bool \<Rightarrow> inhibit_semas \<Rightarrow> power_mode" where
  "llwu_choose_mode allow s =
     (if \<not> allow \<or> llwu_inhibit_stop_sema s \<noteq> 0 then WAIT
      else if llwu_inhibit_vlps_sema s \<noteq> 0 then STOP
      else if llwu_inhibit_lls_sema s \<noteq> 0 then VLPS
      else LLS)"

text \<open>\<open>llwu_sleep\<close>: walk the registry, then decide; \<open>None\<close> when the walk does
  not end.\<close>

definition llwu_sleep_mode :: "llwu_registry \<Rightarrow> inhibit_semas \<Rightarrow> power_mode option" where
  "llwu_sleep_mode r s =
     map_option (\<lambda>allow. llwu_choose_mode allow s) (llwu_all_allow (controls r) (llwu_head r))"

text \<open>The specification of the policy (spec 4.2): a depth is permitted when it
  is \<open>WAIT\<close>, or when every controller consents and no counter of this depth or
  of a shallower one is nonzero.\<close>

definition mode_permitted :: "bool \<Rightarrow> inhibit_semas \<Rightarrow> power_mode \<Rightarrow> bool" where
  "mode_permitted allow s m \<longleftrightarrow>
     m = WAIT \<or> (allow \<and> list_all (\<lambda>d. \<not> mode_inhibited s d) (filter (\<lambda>d. d \<le> m) all_modes))"

subsection \<open>Registry operations\<close>

text \<open>What the rest of the system does to the registry: \<open>llwu_register\<close> and
  \<open>llwu_set_allow\<close> calls, in program order, starting from the boot state
  (no controller registered, every static struct as \<open>LLWU_CONTROL\<close> made it).\<close>

datatype reg_op = Reg ctl_addr | Allow ctl_addr u8

fun reg_step :: "llwu_registry \<Rightarrow> reg_op \<Rightarrow> llwu_registry" where
  "reg_step r (Reg c) = llwu_register c r"
| "reg_step r (Allow c a) = llwu_set_allow c a r"

fun registered :: "reg_op list \<Rightarrow> ctl_addr list" where
  "registered [] = []"
| "registered (Reg c # ops) = c # registered ops"
| "registered (Allow c a # ops) = registered ops"

definition registry_boot :: llwu_registry where
  "registry_boot = \<lparr>controls = (\<lambda>_. LLWU_CONTROL), llwu_head = None\<rparr>"

subsection \<open>Order of the modes\<close>

lemma mode_le_iff [simp]: "(m::power_mode) \<le> m' \<longleftrightarrow> mode_rank m \<le> mode_rank m'"
  by (simp add: less_eq_power_mode_def)

lemma mode_in_all_modes [simp]: "m \<in> set all_modes"
  by (cases m) (simp_all add: all_modes_def)

lemma finite_power_mode_set [simp]: "finite (A :: power_mode set)"
  by (rule finite_subset [of _ "set all_modes"]) auto

subsection \<open>The pointer walk over a well-formed registry\<close>

lemma llwu_all_allow_chain:
  "ctl_chain h p cs \<Longrightarrow> llwu_all_allow h p = Some (list_all (\<lambda>c. allow_llwu (h c) \<noteq> 0) cs)"
proof (induction cs arbitrary: p)
  case Nil
  then show ?case by (simp add: llwu_all_allow.simps)
next
  case (Cons c cs)
  from Cons.prems have p: "p = Some c" and ch: "ctl_chain h (ctl_next (h c)) cs"
    by simp_all
  show ?case using Cons.IH [OF ch] p by (simp add: llwu_all_allow.simps [of h "Some c"])
qed

lemma chain_frame:
  "ctl_chain h p cs \<Longrightarrow> c \<notin> set cs \<Longrightarrow> ctl_chain (h(c := x)) p cs"
  by (induction cs arbitrary: p) auto

lemma chain_same_next:
  "ctl_chain h p cs \<Longrightarrow> ctl_next x = ctl_next (h c) \<Longrightarrow> ctl_chain (h(c := x)) p cs"
  by (induction cs arbitrary: p) auto

lemma register_chain:
  "ctl_chain (controls r) (llwu_head r) cs \<Longrightarrow> c \<notin> set cs \<Longrightarrow>
   ctl_chain (controls (llwu_register c r)) (llwu_head (llwu_register c r)) (c # cs)"
  by (simp add: llwu_register_def chain_frame)

lemma set_allow_chain:
  "ctl_chain (controls r) (llwu_head r) cs \<Longrightarrow>
   ctl_chain (controls (llwu_set_allow c a r)) (llwu_head (llwu_set_allow c a r)) cs"
  by (simp add: llwu_set_allow_def chain_same_next)

lemma registered_append [simp]: "registered (xs @ ys) = registered xs @ registered ys"
  by (induction xs rule: registered.induct) auto

lemma reg_ops_chain:
  "distinct (registered ops) \<Longrightarrow>
   ctl_chain (controls (foldl reg_step registry_boot ops)) (llwu_head (foldl reg_step registry_boot ops))
     (rev (registered ops))"
proof (induction ops rule: rev_induct)
  case Nil
  then show ?case by (simp add: registry_boot_def)
next
  case (snoc op ops)
  have dist: "distinct (registered ops)" using snoc.prems by simp
  note ch = snoc.IH [OF dist]
  show ?case
  proof (cases op)
    case (Reg c)
    with snoc.prems have "c \<notin> set (rev (registered ops))" by simp
    from register_chain [OF ch this] Reg show ?thesis by simp
  next
    case (Allow c a)
    from set_allow_chain [OF ch] Allow show ?thesis by simp
  qed
qed

lemma self_loop_diverges:
  assumes loop: "ctl_next (h c) = Some c" and allow: "allow_llwu (h c) \<noteq> 0"
  shows "llwu_all_allow h (Some c) = None"
proof (rule ccontr)
  assume "llwu_all_allow h (Some c) \<noteq> None"
  then obtain y where ret: "llwu_all_allow h (Some c) = Some y" by blast
  txt \<open>Partial correctness of the walk: whatever it returns, it did not start at
    a self-linked consenting node.\<close>
  have "h = h \<longrightarrow> Some c \<noteq> Some c"
  proof (rule llwu_all_allow.raw_induct [where P = "\<lambda>h' p y. h' = h \<longrightarrow> p \<noteq> Some c", OF _ ret])
    fix f h' p y'
    assume IH: "\<And>p b y. f p b = Some y \<Longrightarrow> p = h \<longrightarrow> b \<noteq> Some c"
      and eq: "(case p of None \<Rightarrow> Some True
                | Some c' \<Rightarrow> if allow_llwu (h' c') = 0 then Some False
                            else f h' (ctl_next (h' c'))) = Some y'"
    show "h' = h \<longrightarrow> p \<noteq> Some c"
    proof (intro impI notI)
      assume "h' = h" and "p = Some c"
      with eq loop allow have "f h (Some c) = Some y'" by simp
      then show False using IH by blast
    qed
  qed
  then show False by simp
qed

subsection \<open>What a terminating walk has seen\<close>

text \<open>A walk that returns consent has followed a \<open>NULL\<close>-terminated chain of
  consenting controllers; that chain is unique, as for the heap lists of
  Hoare logic.\<close>

lemma all_allow_true_chain:
  assumes "llwu_all_allow h p = Some True"
  shows "\<exists>cs. ctl_chain h p cs \<and> list_all (\<lambda>c. allow_llwu (h c) \<noteq> 0) cs"
proof -
  have "y \<longrightarrow> (\<exists>cs. ctl_chain h' p' cs \<and> list_all (\<lambda>c. allow_llwu (h' c) \<noteq> 0) cs)"
    if "llwu_all_allow h' p' = Some y" for h' p' y
  proof (rule llwu_all_allow.raw_induct
           [where P = "\<lambda>h p y. y \<longrightarrow> (\<exists>cs. ctl_chain h p cs \<and> list_all (\<lambda>c. allow_llwu (h c) \<noteq> 0) cs)",
            OF _ that])
    fix f h p y
    assume IH: "\<And>h p y. f h p = Some y \<Longrightarrow>
                  y \<longrightarrow> (\<exists>cs. ctl_chain h p cs \<and> list_all (\<lambda>c. allow_llwu (h c) \<noteq> 0) cs)"
      and eq: "(case p of None \<Rightarrow> Some True
                | Some c \<Rightarrow> if allow_llwu (h c) = 0 then Some False else f h (ctl_next (h c))) = Some y"
    show "y \<longrightarrow> (\<exists>cs. ctl_chain h p cs \<and> list_all (\<lambda>c. allow_llwu (h c) \<noteq> 0) cs)"
    proof (cases p)
      case None
      then show ?thesis by (intro impI exI [of _ "[]"]) simp
    next
      case (Some c)
      show ?thesis
      proof
        assume y
        with eq Some have a: "allow_llwu (h c) \<noteq> 0" and r: "f h (ctl_next (h c)) = Some y"
          by (auto split: if_splits)
        obtain cs where "ctl_chain h (ctl_next (h c)) cs" "list_all (\<lambda>c. allow_llwu (h c) \<noteq> 0) cs"
          using IH [OF r] \<open>y\<close> by blast
        then show "\<exists>cs. ctl_chain h p cs \<and> list_all (\<lambda>c. allow_llwu (h c) \<noteq> 0) cs"
          using a Some by (intro exI [of _ "c # cs"]) simp
      qed
    qed
  qed
  then show ?thesis using assms by blast
qed

lemma chain_unique: "ctl_chain h p cs \<Longrightarrow> ctl_chain h p cs' \<Longrightarrow> cs = cs'"
proof (induction cs arbitrary: p cs')
  case Nil
  then show ?case by (cases cs') auto
next
  case (Cons c cs)
  then show ?case by (cases cs') auto
qed

lemma chain_suffix: "ctl_chain h p (xs @ c # ys) \<Longrightarrow> ctl_chain h (ctl_next (h c)) ys"
  by (induction xs arbitrary: p) auto

lemma register_keeps_member:
  assumes inv: "\<forall>cs. ctl_chain (controls r) (llwu_head r) cs \<longrightarrow> d \<in> set cs"
    and ch: "ctl_chain (controls (llwu_register c r)) (llwu_head (llwu_register c r)) cs"
  shows "d \<in> set cs"
proof -
  let ?h = "controls (llwu_register c r)"
  obtain cs' where cs: "cs = c # cs'" and ch': "ctl_chain ?h (llwu_head r) cs'"
    using ch by (cases cs) (auto simp: llwu_register_def)
  show ?thesis
  proof (cases "c \<in> set cs'")
    case True
    then obtain xs ys where sp: "cs' = xs @ c # ys" by (blast dest: split_list)
    have "ctl_chain ?h (llwu_head r) ys"
      using chain_suffix [of ?h "llwu_head r" xs c ys] ch' sp by (simp add: llwu_register_def)
    with ch' have "cs' = ys" by (rule chain_unique)
    with sp show ?thesis by simp
  next
    case False
    have "controls r = ?h(c := controls r c)" by (simp add: llwu_register_def)
    then have "ctl_chain (controls r) (llwu_head r) cs'"
      using chain_frame [OF ch' False, of "controls r c"] by simp
    with inv cs show ?thesis by simp
  qed
qed

lemma chain_same_next_rev:
  "ctl_chain (h(c := x)) p cs \<Longrightarrow> ctl_next x = ctl_next (h c) \<Longrightarrow> ctl_chain h p cs"
  using chain_same_next [of "h(c := x)" p cs "h c" c] by simp

lemma sleep_mode_no_consent:
  assumes m: "llwu_sleep_mode r sm = Some m" and a: "allow_llwu (controls r c) = 0"
    and on: "\<forall>cs. ctl_chain (controls r) (llwu_head r) cs \<longrightarrow> c \<in> set cs"
  shows "m = WAIT"
proof -
  obtain allow where w: "llwu_all_allow (controls r) (llwu_head r) = Some allow"
    and m': "m = llwu_choose_mode allow sm"
    using m by (auto simp: llwu_sleep_mode_def)
  have "\<not> allow"
  proof
    assume allow
    with w have "llwu_all_allow (controls r) (llwu_head r) = Some True" by simp
    then obtain cs where "ctl_chain (controls r) (llwu_head r) cs"
      and "list_all (\<lambda>c. allow_llwu (controls r c) \<noteq> 0) cs"
      using all_allow_true_chain by blast
    with on a show False by (auto simp: list_all_iff)
  qed
  then show ?thesis using m' by (simp add: llwu_choose_mode_def)
qed

subsection \<open>The decision is the deepest permitted mode\<close>

lemma choose_permitted: "mode_permitted allow s (llwu_choose_mode allow s)"
  by (auto simp: mode_permitted_def llwu_choose_mode_def all_modes_def)

lemma choose_deepest: "mode_permitted allow s m \<Longrightarrow> m \<le> llwu_choose_mode allow s"
  by (cases m) (auto simp: mode_permitted_def llwu_choose_mode_def all_modes_def)

text \<open>C5: The sleep-depth decision refines the policy of the spec: the mode
  \<open>llwu_sleep\<close> picks is the deepest of the modes that no nonzero counter of its
  own or a shallower depth and no dissenting controller forbids.\<close>

theorem llwu_choose_is_deepest:
  "llwu_choose_mode allow s = Max (set (filter (mode_permitted allow s) all_modes))"
proof (rule sym, rule Max_eqI)
  show "finite (set (filter (mode_permitted allow s) all_modes))" by simp
  show "\<And>m. m \<in> set (filter (mode_permitted allow s) all_modes) \<Longrightarrow> m \<le> llwu_choose_mode allow s"
    using choose_deepest by simp
  show "llwu_choose_mode allow s \<in> set (filter (mode_permitted allow s) all_modes)"
    using choose_permitted by simp
qed

text \<open>The two policy examples of the spec, on a registry holding one
  controller: counters STOP 0, VLPS 1, LLS 0 with the controller consenting
  give STOP; all counters zero with the controller dissenting give WAIT.\<close>

theorem llwu_policy_examples:
  "llwu_sleep_mode (llwu_register 7 registry_boot)
     \<lparr>llwu_inhibit_stop_sema = 0, llwu_inhibit_vlps_sema = 1, llwu_inhibit_lls_sema = 0\<rparr> = Some STOP \<and>
   llwu_sleep_mode (llwu_set_allow 7 0 (llwu_register 7 registry_boot)) semas_boot = Some WAIT"
  by (simp add: llwu_sleep_mode_def llwu_register_def llwu_set_allow_def registry_boot_def
                LLWU_CONTROL_def llwu_all_allow.simps llwu_choose_mode_def semas_boot_def)

text \<open>C11: When every controller is registered once, whatever the order of
  registrations and allow-flag changes, \<open>llwu_sleep\<close>'s walk over the registry
  terminates and its decision is the policy applied to unanimous consent of the
  registered controllers.\<close>

theorem llwu_sleep_terminates:
  assumes "distinct (registered ops)"
  shows "llwu_sleep_mode (foldl reg_step registry_boot ops) s =
           Some (llwu_choose_mode
                   (\<forall>c \<in> set (registered ops).
                      allow_llwu (controls (foldl reg_step registry_boot ops) c) \<noteq> 0) s)"
  using llwu_all_allow_chain [OF reg_ops_chain [OF assms]]
  by (simp add: llwu_sleep_mode_def list_all_iff)

theorem llwu_sleep_terminates_witness:
  "llwu_sleep_mode (foldl reg_step registry_boot [Reg 1, Reg 2, Allow 1 0]) semas_boot = Some WAIT"
proof -
  have "distinct (registered [Reg 1, Reg 2, Allow 1 0])" by simp
  from llwu_sleep_terminates [OF this, of semas_boot] show ?thesis
    by (simp add: llwu_set_allow_def llwu_register_def registry_boot_def LLWU_CONTROL_def
                  llwu_choose_mode_def)
qed

text \<open>With the unchecked O(1) prepend of the spec (4.2), registering the head
  controller a second time links it to itself;
  while it consents, \<open>llwu_sleep\<close>'s walk never ends.\<close>

theorem llwu_register_twice_diverges:
  assumes "llwu_head r = Some c" and "allow_llwu (controls r c) \<noteq> 0"
  shows "llwu_sleep_mode (llwu_register c r) s = None"
proof -
  have "llwu_all_allow (controls (llwu_register c r)) (Some c) = None"
    by (rule self_loop_diverges) (use assms in \<open>simp_all add: llwu_register_def\<close>)
  with assms(1) show ?thesis by (simp add: llwu_sleep_mode_def llwu_register_def)
qed

end
