(* ===== verification/Llwu_Wakeup.thy ===== *)
theory Llwu_Wakeup
  imports Prelude
begin

text \<open>
  The wake-source registry of the LLWU (\<open>llwu.h\<close>; the bodies of the operations
  live in \<open>llwu.c\<close>, outside the sources, and follow spec 4.3).  The header's
  three enumerations are datatypes with their numbering: eight internal
  modules, sixteen external pins, four edge sensitivities encoded in two bits.
  The unit's registers are the module-enable byte \<open>ME\<close> (one bit per module)
  and the pin-enable bytes \<open>PE1\<close>--\<open>PE4\<close>, four pins of two bits each
  (\<open>LLWU_WAKEUP_PIN_REG_SIZE\<close>, \<open>LLWU_WAKEUP_EDGE_WIDTH\<close>); a callback table
  holds at most one callback and argument per pin.  The operations take the
  raw enumeration value, as C passes it, and an out-of-range value is the
  error \<open>Inl LLWU_INVALID_PARAM\<close>, the fatal configuration error of the spec.
  The lemmas show that pin configuration reads back and leaves every other
  pin alone, that module enables are independent bits, that the callback slot
  keeps the last write, and that the register layout is preserved.
\<close>

subsection \<open>The enumerations of llwu.h\<close>

datatype llwu_wakeup_module =
    LLWU_WAKEUP_MODULE_LPTMR
  | LLWU_WAKEUP_MODULE_CMP0
  | LLWU_WAKEUP_MODULE_CMP1
  | LLWU_WAKEUP_MODULE_CMP2
  | LLWU_WAKEUP_MODULE_TSI
  | LLWU_WAKEUP_MODULE_RTC_ALARM
  | LLWU_WAKEUP_MODULE_RESERVED
  | LLWU_WAKEUP_MODULE_RTC_SECONDS

fun wakeup_module_num :: "llwu_wakeup_module \<Rightarrow> nat" where
  "wakeup_module_num LLWU_WAKEUP_MODULE_LPTMR = 0"
| "wakeup_module_num LLWU_WAKEUP_MODULE_CMP0 = 1"
| "wakeup_module_num LLWU_WAKEUP_MODULE_CMP1 = 2"
| "wakeup_module_num LLWU_WAKEUP_MODULE_CMP2 = 3"
| "wakeup_module_num LLWU_WAKEUP_MODULE_TSI = 4"
| "wakeup_module_num LLWU_WAKEUP_MODULE_RTC_ALARM = 5"
| "wakeup_module_num LLWU_WAKEUP_MODULE_RESERVED = 6"
| "wakeup_module_num LLWU_WAKEUP_MODULE_RTC_SECONDS = 7"

abbreviation (input) LLWU_WAKEUP_MODULE_END :: nat where "LLWU_WAKEUP_MODULE_END \<equiv> 8"

datatype llwu_wakeup_pin =
    LLWU_WAKEUP_PIN_PTE1 | LLWU_WAKEUP_PIN_PTE2 | LLWU_WAKEUP_PIN_PTE4 | LLWU_WAKEUP_PIN_PTA4
  | LLWU_WAKEUP_PIN_PTA13 | LLWU_WAKEUP_PIN_PTB0 | LLWU_WAKEUP_PIN_PTC1 | LLWU_WAKEUP_PIN_PTC3
  | LLWU_WAKEUP_PIN_PTC4 | LLWU_WAKEUP_PIN_PTC5 | LLWU_WAKEUP_PIN_PTC6 | LLWU_WAKEUP_PIN_PTC11
  | LLWU_WAKEUP_PIN_PTD0 | LLWU_WAKEUP_PIN_PTD2 | LLWU_WAKEUP_PIN_PTD4 | LLWU_WAKEUP_PIN_PTD6

fun wakeup_pin_num :: "llwu_wakeup_pin \<Rightarrow> nat" where
  "wakeup_pin_num LLWU_WAKEUP_PIN_PTE1 = 0"
| "wakeup_pin_num LLWU_WAKEUP_PIN_PTE2 = 1"
| "wakeup_pin_num LLWU_WAKEUP_PIN_PTE4 = 2"
| "wakeup_pin_num LLWU_WAKEUP_PIN_PTA4 = 3"
| "wakeup_pin_num LLWU_WAKEUP_PIN_PTA13 = 4"
| "wakeup_pin_num LLWU_WAKEUP_PIN_PTB0 = 5"
| "wakeup_pin_num LLWU_WAKEUP_PIN_PTC1 = 6"
| "wakeup_pin_num LLWU_WAKEUP_PIN_PTC3 = 7"
| "wakeup_pin_num LLWU_WAKEUP_PIN_PTC4 = 8"
| "wakeup_pin_num LLWU_WAKEUP_PIN_PTC5 = 9"
| "wakeup_pin_num LLWU_WAKEUP_PIN_PTC6 = 10"
| "wakeup_pin_num LLWU_WAKEUP_PIN_PTC11 = 11"
| "wakeup_pin_num LLWU_WAKEUP_PIN_PTD0 = 12"
| "wakeup_pin_num LLWU_WAKEUP_PIN_PTD2 = 13"
| "wakeup_pin_num LLWU_WAKEUP_PIN_PTD4 = 14"
| "wakeup_pin_num LLWU_WAKEUP_PIN_PTD6 = 15"

abbreviation (input) LLWU_WAKEUP_PIN_NUMOF :: nat where "LLWU_WAKEUP_PIN_NUMOF \<equiv> 16"

datatype llwu_wakeup_edge =
    LLWU_WAKEUP_EDGE_DISABLE | LLWU_WAKEUP_EDGE_RISING | LLWU_WAKEUP_EDGE_FALLING | LLWU_WAKEUP_EDGE_ANY

fun wakeup_edge_bits :: "llwu_wakeup_edge \<Rightarrow> u8" where
  "wakeup_edge_bits LLWU_WAKEUP_EDGE_DISABLE = 0"
| "wakeup_edge_bits LLWU_WAKEUP_EDGE_RISING = 1"
| "wakeup_edge_bits LLWU_WAKEUP_EDGE_FALLING = 2"
| "wakeup_edge_bits LLWU_WAKEUP_EDGE_ANY = 3"

abbreviation (input) LLWU_WAKEUP_EDGE_MASK :: u8 where "LLWU_WAKEUP_EDGE_MASK \<equiv> 0x03"
abbreviation (input) LLWU_WAKEUP_EDGE_WIDTH :: nat where "LLWU_WAKEUP_EDGE_WIDTH \<equiv> 2"
abbreviation (input) LLWU_WAKEUP_PIN_REG_SIZE :: nat where "LLWU_WAKEUP_PIN_REG_SIZE \<equiv> 4"

text \<open>Reading a two-bit field back as an edge sensitivity.\<close>

definition edge_of_bits :: "u8 \<Rightarrow> llwu_wakeup_edge" where
  "edge_of_bits v =
     (let b = v AND LLWU_WAKEUP_EDGE_MASK in
      if b = 0 then LLWU_WAKEUP_EDGE_DISABLE
      else if b = 1 then LLWU_WAKEUP_EDGE_RISING
      else if b = 2 then LLWU_WAKEUP_EDGE_FALLING
      else LLWU_WAKEUP_EDGE_ANY)"

subsection \<open>Registers and callback table\<close>

type_synonym llwu_cb = nat

datatype llwu_error = LLWU_INVALID_PARAM

record llwu_wake =
  llwu_PE :: "u8 list"
  llwu_ME :: u8
  wake_cb :: "nat \<Rightarrow> (llwu_cb \<times> nat) option"

definition llwu_wake_reset :: llwu_wake where
  "llwu_wake_reset = \<lparr>llwu_PE = [0, 0, 0, 0], llwu_ME = 0, wake_cb = (\<lambda>_. None)\<rparr>"

text \<open>The register layout: four pin-enable registers.\<close>

definition llwu_wake_wf :: "llwu_wake \<Rightarrow> bool" where
  "llwu_wake_wf w \<longleftrightarrow> length (llwu_PE w) = LLWU_WAKEUP_PIN_NUMOF div LLWU_WAKEUP_PIN_REG_SIZE"

text \<open>Register index and bit position of a pin's edge field.\<close>

definition pin_reg :: "nat \<Rightarrow> nat" where
  "pin_reg pin = pin div LLWU_WAKEUP_PIN_REG_SIZE"

definition pin_shift :: "nat \<Rightarrow> nat" where
  "pin_shift pin = (pin mod LLWU_WAKEUP_PIN_REG_SIZE) * LLWU_WAKEUP_EDGE_WIDTH"

definition pin_edge :: "nat \<Rightarrow> llwu_wake \<Rightarrow> llwu_wakeup_edge" where
  "pin_edge pin w = edge_of_bits (drop_bit (pin_shift pin) (llwu_PE w ! pin_reg pin))"

definition module_enabled :: "nat \<Rightarrow> llwu_wake \<Rightarrow> bool" where
  "module_enabled m w \<longleftrightarrow> bit (llwu_ME w) m"

subsection \<open>Operations\<close>

definition llwu_enable_wakeup_module :: "nat \<Rightarrow> llwu_wake \<Rightarrow> llwu_error + llwu_wake" where
  "llwu_enable_wakeup_module m w =
     (if m < LLWU_WAKEUP_MODULE_END then Inr (w\<lparr>llwu_ME := set_bit_reg (llwu_ME w) m\<rparr>)
      else Inl LLWU_INVALID_PARAM)"

definition llwu_disable_wakeup_module :: "nat \<Rightarrow> llwu_wake \<Rightarrow> llwu_error + llwu_wake" where
  "llwu_disable_wakeup_module m w =
     (if m < LLWU_WAKEUP_MODULE_END then Inr (w\<lparr>llwu_ME := clear_bit_reg (llwu_ME w) m\<rparr>)
      else Inl LLWU_INVALID_PARAM)"

definition set_edge_field :: "nat \<Rightarrow> u8 \<Rightarrow> u8 \<Rightarrow> u8" where
  "set_edge_field sh v x =
     (x AND NOT (push_bit sh LLWU_WAKEUP_EDGE_MASK)) OR push_bit sh (v AND LLWU_WAKEUP_EDGE_MASK)"

definition llwu_set_wakeup_pin :: "nat \<Rightarrow> llwu_wakeup_edge \<Rightarrow> llwu_wake \<Rightarrow> llwu_error + llwu_wake" where
  "llwu_set_wakeup_pin pin edge w =
     (if pin < LLWU_WAKEUP_PIN_NUMOF then
        (let i = pin_reg pin in
         Inr (w\<lparr>llwu_PE := (llwu_PE w)[i := set_edge_field (pin_shift pin) (wakeup_edge_bits edge)
                                                              (llwu_PE w ! i)]\<rparr>))
      else Inl LLWU_INVALID_PARAM)"

definition llwu_set_wakeup_callback ::
  "nat \<Rightarrow> llwu_cb \<Rightarrow> nat \<Rightarrow> llwu_wake \<Rightarrow> llwu_error + llwu_wake" where
  "llwu_set_wakeup_callback pin cb arg w =
     (if pin < LLWU_WAKEUP_PIN_NUMOF then Inr (w\<lparr>wake_cb := (wake_cb w)(pin \<mapsto> (cb, arg))\<rparr>)
      else Inl LLWU_INVALID_PARAM)"

text \<open>After a wake-up, the callbacks of the pins whose wake flag is set are
  called with their argument, in pin order; a flagged pin without a callback
  is skipped.\<close>

definition llwu_wake_dispatch :: "(nat \<Rightarrow> bool) \<Rightarrow> llwu_wake \<Rightarrow> (llwu_cb \<times> nat) list" where
  "llwu_wake_dispatch flagged w =
     List.map_filter (\<lambda>p. if flagged p then wake_cb w p else None) [0..<LLWU_WAKEUP_PIN_NUMOF]"

text \<open>Configuration calls as a sequence; an error stops the sequence.\<close>

datatype wake_op =
    Enable_module nat | Disable_module nat | Set_pin nat llwu_wakeup_edge | Set_callback nat llwu_cb nat

fun wake_step :: "wake_op \<Rightarrow> llwu_wake \<Rightarrow> llwu_error + llwu_wake" where
  "wake_step (Enable_module m) w = llwu_enable_wakeup_module m w"
| "wake_step (Disable_module m) w = llwu_disable_wakeup_module m w"
| "wake_step (Set_pin p e) w = llwu_set_wakeup_pin p e w"
| "wake_step (Set_callback p cb a) w = llwu_set_wakeup_callback p cb a w"

fun wake_run :: "wake_op list \<Rightarrow> llwu_wake \<Rightarrow> llwu_error + llwu_wake" where
  "wake_run [] w = Inr w"
| "wake_run (op # ops) w = (case wake_step op w of Inl e \<Rightarrow> Inl e | Inr w' \<Rightarrow> wake_run ops w')"

subsection \<open>Properties\<close>

lemma edge_of_bits_inv [simp]: "edge_of_bits (wakeup_edge_bits e) = e"
  by (cases e) (simp_all add: edge_of_bits_def)

lemma u8_3_mask: "(3::u8) = mask 2" by (simp add: mask_eq_exp_minus_1)

lemma bit_set_edge_field:
  "bit (set_edge_field sh v x) n \<longleftrightarrow>
     (if sh \<le> n \<and> n < sh + 2 then n < 8 \<and> bit v (n - sh) else bit x n)"
  by (auto simp add: set_edge_field_def bit_or_iff bit_and_iff bit_not_iff bit_push_bit_iff u8_3_mask
      bit_mask_iff dest: bit_imp_le_length)

lemma edge_of_bits_cong:
  assumes "\<And>n. n < 2 \<Longrightarrow> bit a n = bit b n"
  shows "edge_of_bits a = edge_of_bits b"
proof -
  have "a AND 3 = b AND 3"
    by (rule bit_word_eqI) (auto simp: bit_and_iff u8_3_mask bit_mask_iff assms)
  then show ?thesis by (simp add: edge_of_bits_def)
qed

lemma pin_shift_le: "pin_shift p \<le> 6"
  by (simp add: pin_shift_def)

lemma pin_edge_same:
  "pin_edge p (w\<lparr>llwu_PE := (llwu_PE w)[pin_reg p := set_edge_field (pin_shift p) v (llwu_PE w ! pin_reg p)]\<rparr>) =
     edge_of_bits v"
  if "pin_reg p < length (llwu_PE w)"
proof -
  have "edge_of_bits (drop_bit (pin_shift p) (set_edge_field (pin_shift p) v (llwu_PE w ! pin_reg p))) =
        edge_of_bits v"
    using pin_shift_le [of p] by (intro edge_of_bits_cong) (simp add: bit_drop_bit_eq bit_set_edge_field)
  then show ?thesis using that by (simp add: pin_edge_def)
qed

lemma pin_edge_other:
  assumes "q \<noteq> p"
  shows "pin_edge q (w\<lparr>llwu_PE := (llwu_PE w)[pin_reg p := set_edge_field (pin_shift p) v (llwu_PE w ! pin_reg p)]\<rparr>) =
           pin_edge q w"
proof (cases "pin_reg q = pin_reg p")
  case False
  then show ?thesis by (simp add: pin_edge_def)
next
  case True
  then have "q mod 4 \<noteq> p mod 4" using assms
    by (simp add: pin_reg_def) (metis div_mult_mod_eq)
  then have far: "\<And>n. n < 2 \<Longrightarrow> \<not> (pin_shift p \<le> pin_shift q + n \<and> pin_shift q + n < pin_shift p + 2)"
    by (simp add: pin_shift_def)
  have "edge_of_bits (drop_bit (pin_shift q) (set_edge_field (pin_shift p) v (llwu_PE w ! pin_reg q))) =
        edge_of_bits (drop_bit (pin_shift q) (llwu_PE w ! pin_reg q))"
  proof (rule edge_of_bits_cong)
    fix n :: nat assume "n < 2"
    with far [OF this] show "bit (drop_bit (pin_shift q) (set_edge_field (pin_shift p) v (llwu_PE w ! pin_reg q))) n =
                   bit (drop_bit (pin_shift q) (llwu_PE w ! pin_reg q)) n"
      by (simp only: bit_drop_bit_eq comp_apply bit_set_edge_field if_False)
  qed
  then show ?thesis using True
    by (cases "pin_reg p < length (llwu_PE w)") (simp_all add: pin_edge_def list_update_beyond not_less)
qed

lemma set_wakeup_pin_Inr:
  "pin < LLWU_WAKEUP_PIN_NUMOF \<Longrightarrow>
   llwu_set_wakeup_pin pin e w =
     Inr (w\<lparr>llwu_PE := (llwu_PE w)[pin_reg pin := set_edge_field (pin_shift pin) (wakeup_edge_bits e)
                                                     (llwu_PE w ! pin_reg pin)]\<rparr>)"
  by (simp add: llwu_set_wakeup_pin_def Let_def)

lemma pin_reg_lt: "pin < LLWU_WAKEUP_PIN_NUMOF \<Longrightarrow> llwu_wake_wf w \<Longrightarrow> pin_reg pin < length (llwu_PE w)"
  by (simp add: pin_reg_def llwu_wake_wf_def)

lemma wake_step_wf: "llwu_wake_wf w \<Longrightarrow> wake_step op w = Inr w' \<Longrightarrow> llwu_wake_wf w'"
  by (cases op)
     (auto simp: llwu_enable_wakeup_module_def llwu_disable_wakeup_module_def llwu_set_wakeup_pin_def
                 llwu_set_wakeup_callback_def llwu_wake_wf_def Let_def split: if_splits)

text \<open>C22: configuring a wake-up pin with an edge sensitivity succeeds for a pin
  number below 16; afterwards the pin reads back that sensitivity, every other
  pin keeps its own, and the module enables and callbacks are unchanged.\<close>

theorem llwu_set_wakeup_pin_reads_back:
  assumes wf: "llwu_wake_wf w" and pin: "pin < LLWU_WAKEUP_PIN_NUMOF"
  shows "\<exists>w'. llwu_set_wakeup_pin pin e w = Inr w' \<and> llwu_wake_wf w' \<and> pin_edge pin w' = e \<and>
              (\<forall>q. q \<noteq> pin \<longrightarrow> pin_edge q w' = pin_edge q w) \<and>
              llwu_ME w' = llwu_ME w \<and> wake_cb w' = wake_cb w"
proof -
  have "llwu_wake_wf (w\<lparr>llwu_PE := (llwu_PE w)[pin_reg pin := set_edge_field (pin_shift pin) (wakeup_edge_bits e)
                                                     (llwu_PE w ! pin_reg pin)]\<rparr>)"
    using wf by (simp add: llwu_wake_wf_def)
  then show ?thesis
    using pin_edge_same [OF pin_reg_lt [OF pin wf]] pin_edge_other
    by (simp add: set_wakeup_pin_Inr [OF pin])
qed

text \<open>An out-of-range module or pin number is reported as an error by each
  configuration call, and changes nothing.\<close>

theorem llwu_wakeup_out_of_range:
  assumes "LLWU_WAKEUP_MODULE_END \<le> m" and "LLWU_WAKEUP_PIN_NUMOF \<le> pin"
  shows "llwu_enable_wakeup_module m w = Inl LLWU_INVALID_PARAM \<and>
         llwu_disable_wakeup_module m w = Inl LLWU_INVALID_PARAM \<and>
         llwu_set_wakeup_pin pin e w = Inl LLWU_INVALID_PARAM \<and>
         llwu_set_wakeup_callback pin cb a w = Inl LLWU_INVALID_PARAM"
  using assms
  by (simp add: llwu_enable_wakeup_module_def llwu_disable_wakeup_module_def llwu_set_wakeup_pin_def
                llwu_set_wakeup_callback_def)

text \<open>Every sequence of configuration calls that succeeds keeps the register
  layout of four pin-enable registers.\<close>

theorem llwu_wake_run_wf:
  "llwu_wake_wf w \<Longrightarrow> wake_run ops w = Inr w' \<Longrightarrow> llwu_wake_wf w'"
proof (induction ops arbitrary: w)
  case Nil
  then show ?case by simp
next
  case (Cons op ops)
  then show ?case by (auto dest: wake_step_wf split: sum.splits)
qed

text \<open>Enabling or disabling a wake-up module changes its own enable bit and no
  other.\<close>

theorem llwu_wakeup_module_bits:
  assumes "m < LLWU_WAKEUP_MODULE_END"
    and "llwu_enable_wakeup_module m w = Inr w1" and "llwu_disable_wakeup_module m w = Inr w2"
  shows "(module_enabled m' w1 \<longleftrightarrow> m' = m \<or> module_enabled m' w) \<and>
         (module_enabled m' w2 \<longleftrightarrow> m' \<noteq> m \<and> module_enabled m' w)"
  using assms
  by (auto simp: llwu_enable_wakeup_module_def llwu_disable_wakeup_module_def module_enabled_def)

text \<open>After a wake-up exactly the callbacks registered for flagged pins are
  called, with their arguments; flagged pins without a callback are skipped.\<close>

theorem llwu_wake_callback_dispatch:
  "(cb, a) \<in> set (llwu_wake_dispatch flagged w) \<longleftrightarrow>
     (\<exists>p < LLWU_WAKEUP_PIN_NUMOF. flagged p \<and> wake_cb w p = Some (cb, a))"
  by (force simp: llwu_wake_dispatch_def map_filter_def split: if_splits)

theorem llwu_set_wakeup_pin_reads_back_witness:
  "llwu_wake_wf llwu_wake_reset \<and> 5 < LLWU_WAKEUP_PIN_NUMOF \<and>
   (\<exists>w'. llwu_set_wakeup_pin 5 LLWU_WAKEUP_EDGE_FALLING llwu_wake_reset = Inr w' \<and> llwu_wake_wf w' \<and>
         pin_edge 5 w' = LLWU_WAKEUP_EDGE_FALLING \<and>
         (\<forall>q. q \<noteq> 5 \<longrightarrow> pin_edge q w' = pin_edge q llwu_wake_reset) \<and>
         llwu_ME w' = llwu_ME llwu_wake_reset \<and> wake_cb w' = wake_cb llwu_wake_reset)"
proof -
  have h1: "llwu_wake_wf llwu_wake_reset" by (simp add: llwu_wake_wf_def llwu_wake_reset_def)
  have h2: "5 < LLWU_WAKEUP_PIN_NUMOF" by simp
  show ?thesis by (rule conjI [OF h1 conjI [OF h2 llwu_set_wakeup_pin_reads_back [OF h1 h2]]])
qed

end
