(* ===== verification/Irq.thy ===== *)
theory Irq
  imports Prelude
begin

text \<open>
  The interrupt-masking primitives of \<open>irq.h\<close>.  The core state is the
  Cortex-M \<open>PRIMASK\<close> register (bit 0 masks every configurable interrupt) and
  the exception number in \<open>IPSR\<close>.  \<open>irq_disable\<close> returns the old mask and
  sets it, \<open>irq_restore\<close> writes a saved mask back (\<open>MSR PRIMASK\<close> takes bit 0),
  and the pair of macros \<open>K60_ENTER_CRITICAL_REGION\<close> /
  \<open>K60_LEAVE_CRITICAL_REGION\<close> brackets a block.  Nested blocks are a small
  program language; the lemmas show that every region restores the mask it
  found, whatever its body does, and that a body which never re-enables
  interrupts runs entirely masked.
\<close>

record cpu_core =
  primask :: u32
  ipsr :: u32

definition irq_disable :: "cpu_core \<Rightarrow> u32 \<times> cpu_core" where
  "irq_disable s = (primask s, s\<lparr>primask := 1\<rparr>)"

definition irq_enable :: "cpu_core \<Rightarrow> cpu_core" where
  "irq_enable s = s\<lparr>primask := 0\<rparr>"

definition irq_restore :: "u32 \<Rightarrow> cpu_core \<Rightarrow> cpu_core" where
  "irq_restore state s = s\<lparr>primask := state AND 1\<rparr>"

definition irq_is_in :: "cpu_core \<Rightarrow> u32" where
  "irq_is_in s = ipsr s AND 0xFF"

text \<open>Whether a configurable interrupt can be taken now.\<close>

definition irq_masked :: "cpu_core \<Rightarrow> bool" where
  "irq_masked s \<longleftrightarrow> primask s AND 1 \<noteq> 0"

subsection \<open>Critical regions\<close>

text \<open>A foreground block: an action (recorded with whether interrupts were
  masked when it ran), a critical region around a sequence of blocks
  (\<open>{ unsigned int mask = irq_disable(); \<dots> irq_restore(mask); }\<close>), or a call of
  \<open>irq_enable\<close>.\<close>

datatype crit_prog = Act nat | Region "crit_prog list" | Enable_irq

fun crit_exec :: "crit_prog \<Rightarrow> cpu_core \<Rightarrow> cpu_core \<times> (nat \<times> bool) list"
and crit_exec_list :: "crit_prog list \<Rightarrow> cpu_core \<Rightarrow> cpu_core \<times> (nat \<times> bool) list" where
  "crit_exec (Act a) s = (s, [(a, irq_masked s)])"
| "crit_exec (Region ps) s =
     (case irq_disable s of (m0, s1) \<Rightarrow>
        (case crit_exec_list ps s1 of (s2, tr) \<Rightarrow> (irq_restore m0 s2, tr)))"
| "crit_exec Enable_irq s = (irq_enable s, [])"
| "crit_exec_list [] s = (s, [])"
| "crit_exec_list (p # ps) s =
     (case crit_exec p s of (s1, tr1) \<Rightarrow>
        (case crit_exec_list ps s1 of (s2, tr2) \<Rightarrow> (s2, tr1 @ tr2)))"

fun enables :: "crit_prog \<Rightarrow> bool"
and enables_list :: "crit_prog list \<Rightarrow> bool" where
  "enables (Act a) = False"
| "enables (Region ps) = enables_list ps"
| "enables Enable_irq = True"
| "enables_list [] = False"
| "enables_list (p # ps) = (enables p \<or> enables_list ps)"

subsection \<open>Properties\<close>

lemma primask_and_1_le: "primask s \<le> 1 \<Longrightarrow> primask s AND 1 = primask s"
  by (auto simp: word_le_1_iff)

lemma crit_exec_primask_le:
  "primask s \<le> 1 \<Longrightarrow> primask (fst (crit_exec p s)) \<le> 1"
  "primask s \<le> 1 \<Longrightarrow> primask (fst (crit_exec_list ps s)) \<le> 1"
  by (induction p s and ps s rule: crit_exec_crit_exec_list.induct)
     (auto simp: irq_disable_def irq_restore_def irq_enable_def word_and_le1 split: prod.split)

text \<open>C20: a critical region restores the interrupt mask it found on entry,
  whatever its body does, also when the body re-enables interrupts or nests
  further regions.\<close>

theorem critical_region_restores:
  assumes "primask s \<le> 1"
  shows "primask (fst (crit_exec (Region ps) s)) = primask s"
  using assms by (simp add: irq_disable_def irq_restore_def primask_and_1_le split: prod.split)

lemma crit_exec_masked:
  "\<not> enables p \<Longrightarrow> irq_masked s \<Longrightarrow> irq_masked (fst (crit_exec p s)) \<and> list_all snd (snd (crit_exec p s))"
  "\<not> enables_list ps \<Longrightarrow> irq_masked s \<Longrightarrow> irq_masked (fst (crit_exec_list ps s)) \<and> list_all snd (snd (crit_exec_list ps s))"
  by (induction p s and ps s rule: crit_exec_crit_exec_list.induct)
     (auto simp: irq_disable_def irq_restore_def irq_masked_def split: prod.split)

text \<open>C21: every action of a critical region whose body never calls \<open>irq_enable\<close>
  runs with interrupts masked, in nested regions too.\<close>

theorem critical_region_masks:
  assumes "\<not> enables_list ps"
  shows "list_all snd (snd (crit_exec (Region ps) s))"
proof -
  have "irq_masked (s\<lparr>primask := 1\<rparr>)" by (simp add: irq_masked_def)
  then have "list_all snd (snd (crit_exec_list ps (s\<lparr>primask := 1\<rparr>)))"
    using crit_exec_masked(2) [OF assms] by blast
  then show ?thesis
    by (simp add: irq_disable_def split: prod.split) (metis snd_conv)
qed

theorem critical_region_restores_witness:
  "primask \<lparr>primask = 0, ipsr = 0\<rparr> \<le> 1 \<and>
   primask (fst (crit_exec (Region [Act 1, Region [Act 2], Enable_irq, Act 3]) \<lparr>primask = 0, ipsr = 0\<rparr>)) =
     primask \<lparr>primask = 0, ipsr = 0\<rparr>"
proof -
  have h: "primask \<lparr>primask = 0, ipsr = 0\<rparr> \<le> (1::u32)" by simp
  show ?thesis by (rule conjI [OF h critical_region_restores [OF h]])
qed

theorem critical_region_masks_witness:
  "\<not> enables_list [Act 1, Region [Act 2]] \<and>
   list_all snd (snd (crit_exec (Region [Act 1, Region [Act 2]]) \<lparr>primask = 0, ipsr = 0\<rparr>))"
proof -
  have h: "\<not> enables_list [Act 1, Region [Act 2]]" by simp
  show ?thesis by (rule conjI [OF h critical_region_masks [OF h]])
qed

end
