(* ===== verification/System.thy ===== *)
theory System
  imports Uart_Init Llwu_Policy Llwu_Wakeup Irq
begin

text \<open>
  The system: the UART driver, the sleep arbiter with its registry and
  counters, the wake-up unit and the core, composed as one step relation.
  Concurrency is the spec's (5): one foreground context and interrupt
  handlers.  A handler runs between two foreground operations when the core is
  awake, interrupts are not masked, its vector is enabled in the NVIC and its
  UART has an enabled interrupt pending; each foreground call and each handler
  run is one step (the inhibit counters' exclusive loops are linearizable,
  \<open>Inhibit.excl_linearizable\<close>, so their updates are atomic at this level).
  The arbiter (\<open>llwu_sleep\<close> of \<open>llwu.c\<close>, from spec 4.2 and 5) masks
  interrupts, decides the depth and halts; the core stays halted until a wake
  source fires, and resumes with interrupts unmasked.  The receiver hardware is
  clocked only when the core runs or waits: a frame or an idle line is
  detected only then, an edge also in STOP and VLPS, and in LLS not at all
  (which is why enabling reception inhibits LLS).  The flag \<open>disc\<close> of the
  relation selects the caller discipline under which receive interrupts are
  enabled only on a line where they are off, and disabled only where they are
  on.
\<close>

record sys =
  drv :: uart_drv
  reg :: llwu_registry
  core :: cpu_core
  wake :: llwu_wake
  halted :: "power_mode option"

definition sys_boot :: sys where
  "sys_boot = \<lparr>drv = uart_drv_boot, reg = registry_boot, core = \<lparr>primask = 0, ipsr = 0\<rparr>,
               wake = llwu_wake_reset, halted = None\<rparr>"

subsection \<open>Foreground operations\<close>

datatype fg_op =
    Fg_uart_init nat u32 u32
  | Fg_enable_rx nat
  | Fg_disable_rx nat
  | Fg_set_rx_callback nat "rx_cb option"
  | Fg_register ctl_addr
  | Fg_set_allow ctl_addr u8
  | Fg_wake_config wake_op
  | Fg_sleep

text \<open>The arbiter: interrupts masked, the decision from the registry and the
  counters, and the halt; \<open>None\<close> when the registry walk does not end (the
  foreground then spins with interrupts masked).\<close>

definition llwu_sleep :: "sys \<Rightarrow> sys option" where
  "llwu_sleep s =
     (case irq_disable (core s) of (m0, c1) \<Rightarrow>
        map_option (\<lambda>m. s\<lparr>core := c1, halted := Some m\<rparr>) (llwu_sleep_mode (reg s) (semas (drv s))))"

fun fg_exec :: "core_clocks \<Rightarrow> (nat \<Rightarrow> bool) \<Rightarrow> fg_op \<Rightarrow> sys \<Rightarrow> sys option" where
  "fg_exec clk conf (Fg_uart_init n hz baud) s = Some (s\<lparr>drv := uart_init clk conf n hz baud (drv s)\<rparr>)"
| "fg_exec clk conf (Fg_enable_rx n) s = Some (s\<lparr>drv := uart_enable_rx_interrupt n (drv s)\<rparr>)"
| "fg_exec clk conf (Fg_disable_rx n) s = Some (s\<lparr>drv := uart_disable_rx_interrupt n (drv s)\<rparr>)"
| "fg_exec clk conf (Fg_set_rx_callback n cb) s = Some (s\<lparr>drv := uart_set_rx_callback n cb (drv s)\<rparr>)"
| "fg_exec clk conf (Fg_register c) s = Some (s\<lparr>reg := llwu_register c (reg s)\<rparr>)"
| "fg_exec clk conf (Fg_set_allow c a) s = Some (s\<lparr>reg := llwu_set_allow c a (reg s)\<rparr>)"
| "fg_exec clk conf (Fg_wake_config op) s =
     (case wake_step op (wake s) of Inl e \<Rightarrow> Some s | Inr w \<Rightarrow> Some (s\<lparr>wake := w\<rparr>))"
| "fg_exec clk conf Fg_sleep s = llwu_sleep s"

text \<open>Receive interrupts of line \<open>n\<close> are on (\<open>C2.RIE\<close>).\<close>

definition rx_enabled :: "uart_drv \<Rightarrow> nat \<Rightarrow> bool" where
  "rx_enabled d n \<longleftrightarrow> C2 (uart d n) AND UART_C2_RIE_MASK \<noteq> 0"

text \<open>The caller discipline for enabling and disabling reception.\<close>

fun fg_disciplined :: "fg_op \<Rightarrow> sys \<Rightarrow> bool" where
  "fg_disciplined (Fg_enable_rx n) s \<longleftrightarrow> n < NUM_UARTS \<and> \<not> rx_enabled (drv s) n"
| "fg_disciplined (Fg_disable_rx n) s \<longleftrightarrow> n < NUM_UARTS \<and> rx_enabled (drv s) n"
| "fg_disciplined op s \<longleftrightarrow> True"

subsection \<open>Hardware, interrupts and wake-up\<close>

text \<open>A receiver event as the line sees it in the core's current state.\<close>

definition rx_hw_possible :: "power_mode option \<Rightarrow> rx_hw \<Rightarrow> bool" where
  "rx_hw_possible h e \<longleftrightarrow>
     (case e of Hw_edge \<Rightarrow> h \<noteq> Some LLS | _ \<Rightarrow> h = None \<or> h = Some WAIT)"

definition uart_irq_ready :: "(nat \<Rightarrow> bool) \<Rightarrow> uart_drv \<Rightarrow> nat \<Rightarrow> bool" where
  "uart_irq_ready conf d n \<longleftrightarrow>
     n < NUM_UARTS \<and> conf n \<and> uart_irqn n \<in> nvic_enabled d \<and> uart_irq_pending (uart d n)"

inductive sys_step :: "core_clocks \<Rightarrow> (nat \<Rightarrow> bool) \<Rightarrow> bool \<Rightarrow> sys \<Rightarrow> sys \<Rightarrow> bool" where
  hw: "n < NUM_UARTS \<Longrightarrow> rx_hw_possible (halted s) e \<Longrightarrow>
       sys_step clk conf disc s (s\<lparr>drv := set_uart n (rx_hw_apply e (uart (drv s) n)) (drv s)\<rparr>)"
| isr: "halted s = None \<Longrightarrow> \<not> irq_masked (core s) \<Longrightarrow> uart_irq_ready conf (drv s) n \<Longrightarrow>
       sys_step clk conf disc s (s\<lparr>drv := isr_uart_status conf n (drv s)\<rparr>)"
| wake_uart: "halted s = Some m \<Longrightarrow> m \<noteq> LLS \<Longrightarrow> uart_irq_ready conf (drv s) n \<Longrightarrow>
       sys_step clk conf disc s (s\<lparr>core := irq_restore 0 (core s), halted := None\<rparr>)"
| wake_module: "halted s = Some m \<Longrightarrow> module_enabled k (wake s) \<Longrightarrow>
       sys_step clk conf disc s (s\<lparr>core := irq_restore 0 (core s), halted := None\<rparr>)"
| fg: "halted s = None \<Longrightarrow> \<not> irq_masked (core s) \<Longrightarrow> (disc \<longrightarrow> fg_disciplined op s) \<Longrightarrow>
       fg_exec clk conf op s = Some t \<Longrightarrow> sys_step clk conf disc s t"

inductive sys_reach :: "core_clocks \<Rightarrow> (nat \<Rightarrow> bool) \<Rightarrow> bool \<Rightarrow> sys \<Rightarrow> bool" where
  boot: "sys_reach clk conf disc sys_boot"
| step: "sys_reach clk conf disc s \<Longrightarrow> sys_step clk conf disc s t \<Longrightarrow> sys_reach clk conf disc t"

inductive_cases sys_step_cases: "sys_step clk conf disc s t"

subsection \<open>The decision and the counters\<close>

lemma sleep_mode_stop_free:
  "llwu_sleep_mode r s = Some m \<Longrightarrow> STOP \<le> m \<Longrightarrow> llwu_inhibit_stop_sema s = 0"
  by (auto simp: llwu_sleep_mode_def llwu_choose_mode_def split: if_splits)

lemma sleep_mode_lls_free:
  "llwu_sleep_mode r s = Some LLS \<Longrightarrow> llwu_inhibit_lls_sema s = 0"
  by (auto simp: llwu_sleep_mode_def llwu_choose_mode_def split: if_splits)

lemma of_nat_small_eq_0:
  assumes "n \<le> NUM_UARTS" and "(of_nat n :: u32) = 0"
  shows "n = 0"
proof -
  have "unat (of_nat n :: u32) = n mod 2 ^ LENGTH(32)" by (rule unat_of_nat)
  moreover have "n mod 2 ^ LENGTH(32) = n" using assms(1) by simp
  ultimately have "unat (of_nat n :: u32) = n" by simp
  with assms(2) show ?thesis by simp
qed

lemma lines_receiving_le: "lines_receiving d \<le> NUM_UARTS"
  unfolding lines_receiving_def using length_filter_le [of _ "[0..<NUM_UARTS]"] by simp

lemma drv_ops_frame [simp]:
  "receiving (uart_init clk conf n hz baud d) = receiving d"
  "semas (uart_init clk conf n hz baud d) = semas d"
  "receiving (uart_enable_rx_interrupt n d) = receiving d"
  "receiving (uart_disable_rx_interrupt n d) = receiving d"
  "receiving (uart_set_rx_callback n cb d) = receiving d"
  "semas (uart_set_rx_callback n cb d) = semas d"
  "receiving (set_uart n r d) = receiving d"
  "semas (set_uart n r d) = semas d"
  by (simp_all add: uart_init_def Let_def debugger_break_def set_uart_def uart_module_enable_def
                    uart_enable_rx_interrupt_def uart_disable_rx_interrupt_def uart_set_rx_callback_def)

lemma stop_sema_frame [simp]:
  "llwu_inhibit_stop_sema (semas (uart_enable_rx_interrupt n d)) = llwu_inhibit_stop_sema (semas d)"
  "llwu_inhibit_stop_sema (semas (uart_disable_rx_interrupt n d)) = llwu_inhibit_stop_sema (semas d)"
  by (simp_all add: uart_enable_rx_interrupt_def uart_disable_rx_interrupt_def Let_def set_uart_def)

lemma stop_inv_drv_frame:
  "stop_inv d \<Longrightarrow> receiving d' = receiving d \<Longrightarrow>
   llwu_inhibit_stop_sema (semas d') = llwu_inhibit_stop_sema (semas d) \<Longrightarrow>
   stop_inv d' \<and> lines_receiving d' = lines_receiving d"
proof -
  assume a: "stop_inv d" and r: "receiving d' = receiving d"
    and st: "llwu_inhibit_stop_sema (semas d') = llwu_inhibit_stop_sema (semas d)"
  show ?thesis by (rule conjI [OF stop_inv_frame [OF a r st] lines_receiving_cong [OF r]])
qed

definition sys_stop_inv :: "sys \<Rightarrow> bool" where
  "sys_stop_inv s \<longleftrightarrow>
     stop_inv (drv s) \<and> (\<forall>m. halted s = Some m \<longrightarrow> STOP \<le> m \<longrightarrow> lines_receiving (drv s) = 0)"

lemma llwu_sleep_Some:
  "llwu_sleep s = Some t \<Longrightarrow>
   \<exists>m. llwu_sleep_mode (reg s) (semas (drv s)) = Some m \<and> t = s\<lparr>core := snd (irq_disable (core s)), halted := Some m\<rparr>"
  by (auto simp: llwu_sleep_def split: prod.splits)

lemma sleep_stop_inv:
  assumes inv: "stop_inv (drv s)" and sl: "llwu_sleep s = Some t"
  shows "sys_stop_inv t"
proof -
  obtain m where m: "llwu_sleep_mode (reg s) (semas (drv s)) = Some m"
    and t: "t = s\<lparr>core := snd (irq_disable (core s)), halted := Some m\<rparr>"
    using llwu_sleep_Some [OF sl] by blast
  have "STOP \<le> m \<Longrightarrow> lines_receiving (drv s) = 0"
  proof -
    assume "STOP \<le> m"
    then have "llwu_inhibit_stop_sema (semas (drv s)) = 0" by (rule sleep_mode_stop_free [OF m])
    then have "(of_nat (lines_receiving (drv s)) :: u32) = 0" using inv by (simp add: stop_inv_def)
    then show ?thesis by (rule of_nat_small_eq_0 [OF lines_receiving_le])
  qed
  then show ?thesis using inv t by (simp add: sys_stop_inv_def)
qed

lemma fg_exec_frame:
  "fg_exec clk conf op s = Some t \<Longrightarrow> op \<noteq> Fg_sleep \<Longrightarrow>
   halted t = halted s \<and> receiving (drv t) = receiving (drv s) \<and>
   llwu_inhibit_stop_sema (semas (drv t)) = llwu_inhibit_stop_sema (semas (drv s))"
  by (cases op) (auto split: sum.splits)

lemma sys_stop_inv_frame:
  assumes inv: "sys_stop_inv s" and h: "halted t = halted s"
    and r: "receiving (drv t) = receiving (drv s)"
    and st: "llwu_inhibit_stop_sema (semas (drv t)) = llwu_inhibit_stop_sema (semas (drv s))"
  shows "sys_stop_inv t"
proof -
  have "stop_inv (drv t) \<and> lines_receiving (drv t) = lines_receiving (drv s)"
    using inv r st by (intro stop_inv_drv_frame) (simp_all add: sys_stop_inv_def)
  then show ?thesis using inv h by (simp add: sys_stop_inv_def)
qed

lemma fg_stop_inv:
  assumes inv: "sys_stop_inv s" and ex: "fg_exec clk conf op s = Some t"
  shows "sys_stop_inv t"
proof (cases "op = Fg_sleep")
  case True
  have "stop_inv (drv s)" using inv by (simp add: sys_stop_inv_def)
  moreover have "llwu_sleep s = Some t" using ex True by simp
  ultimately show ?thesis by (rule sleep_stop_inv)
next
  case False
  then show ?thesis using fg_exec_frame [OF ex False] by (intro sys_stop_inv_frame [OF inv]) simp_all
qed

lemma sys_step_stop_inv:
  assumes "sys_step clk conf disc s t" and inv: "sys_stop_inv s"
  shows "sys_stop_inv t"
  using assms(1)
proof cases
  case (hw n e)
  then show ?thesis by (intro sys_stop_inv_frame [OF inv]) simp_all
next
  case (isr n)
  have "stop_inv (isr_uart_status conf n (drv s))"
    using inv rx_irq_handler_stop_inv by (simp add: sys_stop_inv_def isr_uart_status_def)
  then show ?thesis using isr by (simp add: sys_stop_inv_def)
next
  case (wake_uart m n)
  then show ?thesis using inv by (simp add: sys_stop_inv_def)
next
  case (wake_module m k)
  then show ?thesis using inv by (simp add: sys_stop_inv_def)
next
  case (fg op)
  then show ?thesis using inv by (blast intro: fg_stop_inv)
qed

lemma sys_reach_stop_inv: "sys_reach clk conf disc s \<Longrightarrow> sys_stop_inv s"
proof (induction rule: sys_reach.induct)
  case boot
  have "lines_receiving uart_drv_boot = 0" by (simp add: lines_receiving_def uart_drv_boot_def)
  then show ?case
    by (simp add: sys_stop_inv_def sys_boot_def stop_inv_def uart_drv_boot_def semas_boot_def list_all_iff)
next
  case (step s t)
  then show ?case by (blast intro: sys_step_stop_inv)
qed

text \<open>C1: in every reachable state of the system, whatever the order of hardware
  events, interrupt handlers and foreground calls, when the arbiter has halted
  the core in STOP or a deeper mode no line is in the middle of a reception.\<close>

theorem no_stop_while_receiving:
  assumes "sys_reach clk conf disc s" and "halted s = Some m" and "STOP \<le> m" and "n < NUM_UARTS"
  shows "receiving (drv s) n = 0"
proof -
  have "lines_receiving (drv s) = 0" using sys_reach_stop_inv [OF assms(1)] assms(2,3)
    by (simp add: sys_stop_inv_def)
  then show ?thesis using assms(4) by (auto simp: lines_receiving_def filter_empty_conv)
qed

subsection \<open>LLS and enabled reception\<close>

definition lines_rx_enabled :: "uart_drv \<Rightarrow> nat" where
  "lines_rx_enabled d = length (filter (rx_enabled d) [0..<NUM_UARTS])"

definition lls_inv :: "uart_drv \<Rightarrow> bool" where
  "lls_inv d \<longleftrightarrow> llwu_inhibit_lls_sema (semas d) = of_nat (lines_rx_enabled d)"

lemma rx_handler_c2_lls [simp]:
  "C2 (uart (rx_read_data n d) m) = C2 (uart d m)"
  "C2 (uart (rx_check_idle n d) m) = C2 (uart d m)"
  "C2 (uart (rx_check_edge n d) m) = C2 (uart d m)"
  "llwu_inhibit_lls_sema (semas (rx_read_data n d)) = llwu_inhibit_lls_sema (semas d)"
  "llwu_inhibit_lls_sema (semas (rx_check_idle n d)) = llwu_inhibit_lls_sema (semas d)"
  "llwu_inhibit_lls_sema (semas (rx_check_edge n d)) = llwu_inhibit_lls_sema (semas d)"
  by (auto simp: rx_read_data_def rx_check_idle_def rx_check_edge_def drv_simps Let_def
           split: option.split)

lemma rx_hw_apply_c2 [simp]: "C2 (rx_hw_apply e r) = C2 r"
  by (cases e) simp_all

lemma uart_init_rie:
  "C2 (uart (uart_init clk conf n hz baud d) m) AND UART_C2_RIE_MASK = C2 (uart d m) AND UART_C2_RIE_MASK"
  by (auto simp: uart_init_def Let_def set_uart_def uart_program_regs_def debugger_break_def
                 uart_module_enable_def mask_simps)

lemma lines_rx_enabled_cong:
  "(\<And>m. m < NUM_UARTS \<Longrightarrow> rx_enabled d' m = rx_enabled d m) \<Longrightarrow> lines_rx_enabled d' = lines_rx_enabled d"
  unfolding lines_rx_enabled_def by (rule arg_cong [where f = length], rule filter_cong) simp_all

lemma lines_rx_enabled_upd:
  assumes "n < NUM_UARTS"
  shows "lines_rx_enabled (set_uart n r d) + (if rx_enabled d n then 1 else 0) =
         lines_rx_enabled d + (if C2 r AND UART_C2_RIE_MASK \<noteq> 0 then 1 else 0)"
  using length_filter_fun_upd [of "[0..<NUM_UARTS]" "\<lambda>r. C2 r AND UART_C2_RIE_MASK \<noteq> 0" "uart d" n r] assms
  unfolding lines_rx_enabled_def rx_enabled_def set_uart_def by (simp add: comp_def)

lemma rx_enabled_semas [simp]: "rx_enabled (d\<lparr>semas := x\<rparr>) = rx_enabled d"
  by (rule ext) (simp add: rx_enabled_def)

lemma lines_rx_enabled_semas [simp]: "lines_rx_enabled (d\<lparr>semas := x\<rparr>) = lines_rx_enabled d"
  by (simp add: lines_rx_enabled_def)

lemma enable_rx_lls_inv:
  assumes inv: "lls_inv d" and n: "n < NUM_UARTS" and off: "\<not> rx_enabled d n"
  shows "lls_inv (uart_enable_rx_interrupt n d)"
proof -
  let ?r = "uart d n"
  let ?r3 = "?r\<lparr>C2 := C2 ?r OR UART_C2_RIE_MASK, BDH := BDH ?r OR UART_BDH_RXEDGIE_MASK,
                 C2 := (C2 ?r OR UART_C2_RIE_MASK) OR UART_C2_RE_MASK\<rparr>"
  have e: "uart_enable_rx_interrupt n d = (set_uart n ?r3 d)\<lparr>semas := llwu_inhibit INHIBIT_LLS (semas d)\<rparr>"
    by (simp add: uart_enable_rx_interrupt_def Let_def)
  have on: "C2 ?r3 AND UART_C2_RIE_MASK \<noteq> 0" by (simp add: mask_simps)
  have "lines_rx_enabled (set_uart n ?r3 d) = lines_rx_enabled d + 1"
    using lines_rx_enabled_upd [OF n, of ?r3 d] off on by simp
  then show ?thesis using inv by (simp add: e lls_inv_def set_uart_def)
qed

lemma disable_rx_lls_inv:
  assumes inv: "lls_inv d" and n: "n < NUM_UARTS" and on: "rx_enabled d n"
  shows "lls_inv (uart_disable_rx_interrupt n d)"
proof -
  let ?r = "uart d n"
  let ?r3 = "?r\<lparr>C2 := C2 ?r AND NOT UART_C2_RIE_MASK, BDH := BDH ?r AND NOT UART_BDH_RXEDGIE_MASK,
                 C2 := (C2 ?r AND NOT UART_C2_RIE_MASK) AND NOT UART_C2_RE_MASK\<rparr>"
  have e: "uart_disable_rx_interrupt n d = (set_uart n ?r3 d)\<lparr>semas := llwu_uninhibit INHIBIT_LLS (semas d)\<rparr>"
    by (simp add: uart_disable_rx_interrupt_def Let_def)
  have off: "C2 ?r3 AND UART_C2_RIE_MASK = 0" by (simp add: mask_simps)
  have l: "lines_rx_enabled (set_uart n ?r3 d) + 1 = lines_rx_enabled d"
    using lines_rx_enabled_upd [OF n, of ?r3 d] off on by simp
  have "(of_nat (lines_rx_enabled d) :: u32) - 1 = of_nat (lines_rx_enabled (set_uart n ?r3 d))"
    by (simp flip: l)
  then show ?thesis using inv by (simp add: e lls_inv_def set_uart_def)
qed

lemma lines_rx_enabled_le: "lines_rx_enabled d \<le> NUM_UARTS"
  unfolding lines_rx_enabled_def using length_filter_le [of _ "[0..<NUM_UARTS]"] by simp

lemma rx_enabled_frames [simp]:
  "rx_enabled (rx_irq_handler n d) = rx_enabled d"
  "rx_enabled (uart_set_rx_callback n cb d) = rx_enabled d"
  "rx_enabled (uart_init clk conf n hz baud d) = rx_enabled d"
  "rx_enabled (set_uart n (rx_hw_apply e (uart d n)) d) = rx_enabled d"
  by (rule ext, simp add: rx_enabled_def rx_irq_handler_def uart_set_rx_callback_def uart_init_rie
                          set_uart_def)+

lemma lls_sema_frames [simp]:
  "llwu_inhibit_lls_sema (semas (rx_irq_handler n d)) = llwu_inhibit_lls_sema (semas d)"
  by (simp add: rx_irq_handler_def)

definition sys_lls_inv :: "sys \<Rightarrow> bool" where
  "sys_lls_inv s \<longleftrightarrow> lls_inv (drv s) \<and> (halted s = Some LLS \<longrightarrow> lines_rx_enabled (drv s) = 0)"

lemma sys_lls_inv_frame:
  assumes inv: "sys_lls_inv s" and h: "halted t = halted s"
    and r: "rx_enabled (drv t) = rx_enabled (drv s)"
    and st: "llwu_inhibit_lls_sema (semas (drv t)) = llwu_inhibit_lls_sema (semas (drv s))"
  shows "sys_lls_inv t"
proof -
  have "lines_rx_enabled (drv t) = lines_rx_enabled (drv s)" by (simp add: lines_rx_enabled_def r)
  then show ?thesis using inv h st by (simp add: sys_lls_inv_def lls_inv_def)
qed

lemma sleep_lls_inv:
  assumes inv: "lls_inv (drv s)" and sl: "llwu_sleep s = Some t"
  shows "sys_lls_inv t"
proof -
  obtain m where m: "llwu_sleep_mode (reg s) (semas (drv s)) = Some m"
    and t: "t = s\<lparr>core := snd (irq_disable (core s)), halted := Some m\<rparr>"
    using llwu_sleep_Some [OF sl] by blast
  have "m = LLS \<Longrightarrow> lines_rx_enabled (drv s) = 0"
  proof -
    assume "m = LLS"
    then have "llwu_inhibit_lls_sema (semas (drv s)) = 0" using m by (simp add: sleep_mode_lls_free)
    then have "(of_nat (lines_rx_enabled (drv s)) :: u32) = 0" using inv by (simp add: lls_inv_def)
    then show ?thesis by (rule of_nat_small_eq_0 [OF lines_rx_enabled_le])
  qed
  then show ?thesis using inv t by (auto simp: sys_lls_inv_def)
qed

lemma fg_lls_inv:
  assumes inv: "sys_lls_inv s" and h: "halted s = None" and d: "fg_disciplined op s"
    and ex: "fg_exec clk conf op s = Some t"
  shows "sys_lls_inv t"
proof (cases op)
  case (Fg_enable_rx n)
  then have "lls_inv (drv t)" using inv d ex by (auto simp: sys_lls_inv_def intro: enable_rx_lls_inv)
  then show ?thesis using h ex Fg_enable_rx by (auto simp: sys_lls_inv_def)
next
  case (Fg_disable_rx n)
  then have "lls_inv (drv t)" using inv d ex by (auto simp: sys_lls_inv_def intro: disable_rx_lls_inv)
  then show ?thesis using h ex Fg_disable_rx by (auto simp: sys_lls_inv_def)
next
  case Fg_sleep
  have "lls_inv (drv s)" using inv by (simp add: sys_lls_inv_def)
  moreover have "llwu_sleep s = Some t" using ex Fg_sleep by simp
  ultimately show ?thesis by (rule sleep_lls_inv)
next
  case (Fg_wake_config w)
  then show ?thesis using inv ex by (auto simp: sys_lls_inv_def split: sum.splits)
qed (use inv ex in \<open>auto intro: sys_lls_inv_frame\<close>)

lemma sys_step_lls_inv:
  assumes "sys_step clk conf True s t" and inv: "sys_lls_inv s"
  shows "sys_lls_inv t"
  using assms(1)
proof cases
  case (hw n e)
  then show ?thesis by (intro sys_lls_inv_frame [OF inv]) simp_all
next
  case (isr n)
  then show ?thesis by (intro sys_lls_inv_frame [OF inv]) (simp_all add: isr_uart_status_def)
next
  case (wake_uart m n)
  then show ?thesis using inv by (simp add: sys_lls_inv_def)
next
  case (wake_module m k)
  then show ?thesis using inv by (simp add: sys_lls_inv_def)
next
  case (fg op)
  then show ?thesis using inv by (blast intro: fg_lls_inv)
qed

lemma sys_reach_lls_inv: "sys_reach clk conf disc s \<Longrightarrow> disc \<Longrightarrow> sys_lls_inv s"
proof (induction rule: sys_reach.induct)
  case boot
  have "lines_rx_enabled uart_drv_boot = 0"
    by (simp add: lines_rx_enabled_def rx_enabled_def uart_drv_boot_def uart_regs_reset_def)
  then show ?case by (simp add: sys_lls_inv_def lls_inv_def sys_boot_def uart_drv_boot_def semas_boot_def)
next
  case (step clk conf disc s t)
  then show ?case using sys_step_lls_inv [of clk conf s t] by simp
qed

text \<open>C6: when callers enable reception only on a line where it is off and disable
  it only where it is on, the arbiter never halts the core in LLS while a line
  has its receive interrupts enabled.\<close>

theorem no_lls_while_rx_enabled:
  assumes "sys_reach clk conf True s" and "halted s = Some LLS" and "n < NUM_UARTS"
  shows "\<not> rx_enabled (drv s) n"
proof -
  have "lines_rx_enabled (drv s) = 0" using sys_reach_lls_inv [OF assms(1)] assms(2)
    by (simp add: sys_lls_inv_def)
  then show ?thesis using assms(3) by (auto simp: lines_rx_enabled_def filter_empty_conv)
qed

subsection \<open>Well-formed system states\<close>

definition sys_wf :: "sys \<Rightarrow> bool" where
  "sys_wf s \<longleftrightarrow>
     list_all (\<lambda>n. receiving (drv s) n \<le> 1) [0..<NUM_UARTS] \<and> primask (core s) \<le> 1 \<and>
     llwu_wake_wf (wake s) \<and> (halted s \<noteq> None \<longrightarrow> irq_masked (core s))"

definition sys_core_ok :: "sys \<Rightarrow> bool" where
  "sys_core_ok s \<longleftrightarrow>
     primask (core s) \<le> 1 \<and> llwu_wake_wf (wake s) \<and> (halted s \<noteq> None \<longrightarrow> irq_masked (core s))"

lemma fg_core_ok:
  assumes ok: "sys_core_ok s" and h: "halted s = None" and ex: "fg_exec clk conf op s = Some t"
  shows "sys_core_ok t"
proof (cases op)
  case Fg_sleep
  then show ?thesis using ok ex
    by (auto simp: sys_core_ok_def llwu_sleep_def irq_disable_def irq_masked_def split: prod.splits)
next
  case (Fg_wake_config w)
  then show ?thesis using ok ex by (auto simp: sys_core_ok_def dest: wake_step_wf split: sum.splits)
qed (use ok h ex in \<open>auto simp: sys_core_ok_def\<close>)

lemma sys_step_core_ok:
  assumes "sys_step clk conf disc s t" and ok: "sys_core_ok s"
  shows "sys_core_ok t"
  using assms(1)
proof cases
  case (fg op)
  then show ?thesis using ok by (blast intro: fg_core_ok)
qed (use ok in \<open>auto simp: sys_core_ok_def irq_restore_def\<close>)

text \<open>Every reachable system state is well formed: activity latches are 0 or
  1, PRIMASK is a one-bit value, the wake-up unit has its four pin registers, and
  the core is halted only with interrupts masked.\<close>

theorem sys_reach_wf: "sys_reach clk conf disc s \<Longrightarrow> sys_wf s"
proof -
  assume r: "sys_reach clk conf disc s"
  have "sys_core_ok s" using r
  proof (induction rule: sys_reach.induct)
    case boot
    show ?case by (simp add: sys_core_ok_def sys_boot_def llwu_wake_wf_def llwu_wake_reset_def)
  next
    case (step clk conf disc s t)
    then show ?case by (blast intro: sys_step_core_ok)
  qed
  moreover have "stop_inv (drv s)" using sys_reach_stop_inv [OF r] by (simp add: sys_stop_inv_def)
  ultimately show ?thesis by (simp add: sys_wf_def sys_core_ok_def stop_inv_def)
qed

subsection \<open>Runs\<close>

lemma sys_boot_fields [simp]:
  "drv sys_boot = uart_drv_boot" "reg sys_boot = registry_boot" "core sys_boot = \<lparr>primask = 0, ipsr = 0\<rparr>"
  "wake sys_boot = llwu_wake_reset" "halted sys_boot = None"
  by (simp_all add: sys_boot_def)

lemma sleep_from_boot:
  "llwu_sleep sys_boot = Some (sys_boot\<lparr>core := \<lparr>primask = 1, ipsr = 0\<rparr>, halted := Some LLS\<rparr>)"
  by (simp add: llwu_sleep_def llwu_sleep_mode_def registry_boot_def llwu_all_allow.simps
                llwu_choose_mode_def irq_disable_def sys_boot_def uart_drv_boot_def semas_boot_def)

lemma reach_sleep_from_boot:
  "sys_reach clk conf disc (sys_boot\<lparr>core := \<lparr>primask = 1, ipsr = 0\<rparr>, halted := Some LLS\<rparr>)"
proof (rule sys_reach.step [OF sys_reach.boot])
  show "sys_step clk conf disc sys_boot (sys_boot\<lparr>core := \<lparr>primask = 1, ipsr = 0\<rparr>, halted := Some LLS\<rparr>)"
    by (rule sys_step.fg [where op = Fg_sleep]) (simp_all add: irq_masked_def sleep_from_boot)
qed

text \<open>C9: without that discipline the LLS counter no longer tracks the enabled
  lines: enabling line 0 and disabling line 1 lets the arbiter halt in LLS
  while line 0 has reception enabled.\<close>

theorem lls_with_rx_enabled_unbalanced:
  "\<exists>s. sys_reach clk conf False s \<and> halted s = Some LLS \<and> rx_enabled (drv s) 0"
proof -
  let ?s1 = "sys_boot\<lparr>drv := uart_enable_rx_interrupt 0 uart_drv_boot\<rparr>"
  let ?d2 = "uart_disable_rx_interrupt 1 (uart_enable_rx_interrupt 0 uart_drv_boot)"
  let ?s2 = "sys_boot\<lparr>drv := ?d2\<rparr>"
  let ?s3 = "sys_boot\<lparr>drv := ?d2, core := \<lparr>primask = 1, ipsr = 0\<rparr>, halted := Some LLS\<rparr>"
  have r1: "sys_reach clk conf False ?s1"
    by (rule sys_reach.step [OF sys_reach.boot], rule sys_step.fg [where op = "Fg_enable_rx 0"])
       (simp_all add: sys_boot_def irq_masked_def)
  have r2: "sys_reach clk conf False ?s2"
    by (rule sys_reach.step [OF r1], rule sys_step.fg [where op = "Fg_disable_rx 1"])
       (simp_all add: sys_boot_def irq_masked_def)
  have r3: "sys_reach clk conf False ?s3"
    by (rule sys_reach.step [OF r2], rule sys_step.fg [where op = Fg_sleep])
       (simp_all add: irq_masked_def llwu_sleep_def llwu_sleep_mode_def registry_boot_def
                      llwu_all_allow.simps llwu_choose_mode_def irq_disable_def uart_drv_boot_def
                      semas_boot_def uart_enable_rx_interrupt_def uart_disable_rx_interrupt_def Let_def
                      set_uart_def llwu_inhibit_def llwu_uninhibit_def)
  have "rx_enabled (drv ?s3) 0"
    by (simp add: rx_enabled_def uart_enable_rx_interrupt_def uart_disable_rx_interrupt_def Let_def
                  set_uart_def uart_drv_boot_def uart_regs_reset_def)
  with r3 show ?thesis by auto
qed

theorem no_stop_while_receiving_witness:
  "sys_reach \<lparr>SystemSysClock = 0, SystemBusClock = 0\<rparr> (\<lambda>_. True) False
     (sys_boot\<lparr>core := \<lparr>primask = 1, ipsr = 0\<rparr>, halted := Some LLS\<rparr>) \<and>
   halted (sys_boot\<lparr>core := \<lparr>primask = 1, ipsr = 0\<rparr>, halted := Some LLS\<rparr>) = Some LLS \<and>
   STOP \<le> LLS \<and> (0::nat) < NUM_UARTS \<and>
   receiving (drv (sys_boot\<lparr>core := \<lparr>primask = 1, ipsr = 0\<rparr>, halted := Some LLS\<rparr>)) 0 = 0"
proof -
  have h1: "sys_reach \<lparr>SystemSysClock = 0, SystemBusClock = 0\<rparr> (\<lambda>_. True) False
              (sys_boot\<lparr>core := \<lparr>primask = 1, ipsr = 0\<rparr>, halted := Some LLS\<rparr>)"
    by (rule reach_sleep_from_boot)
  have h2: "halted (sys_boot\<lparr>core := \<lparr>primask = 1, ipsr = 0\<rparr>, halted := Some LLS\<rparr>) = Some LLS" by simp
  have h3: "STOP \<le> LLS" by simp
  have h4: "(0::nat) < NUM_UARTS" by simp
  show ?thesis by (rule conjI [OF h1 conjI [OF h2 conjI [OF h3 conjI [OF h4 no_stop_while_receiving [OF h1 h2 h3 h4]]]]])
qed

theorem no_lls_while_rx_enabled_witness:
  "sys_reach \<lparr>SystemSysClock = 0, SystemBusClock = 0\<rparr> (\<lambda>_. True) True
     (sys_boot\<lparr>core := \<lparr>primask = 1, ipsr = 0\<rparr>, halted := Some LLS\<rparr>) \<and>
   halted (sys_boot\<lparr>core := \<lparr>primask = 1, ipsr = 0\<rparr>, halted := Some LLS\<rparr>) = Some LLS \<and>
   (0::nat) < NUM_UARTS \<and>
   \<not> rx_enabled (drv (sys_boot\<lparr>core := \<lparr>primask = 1, ipsr = 0\<rparr>, halted := Some LLS\<rparr>)) 0"
proof -
  have h1: "sys_reach \<lparr>SystemSysClock = 0, SystemBusClock = 0\<rparr> (\<lambda>_. True) True
              (sys_boot\<lparr>core := \<lparr>primask = 1, ipsr = 0\<rparr>, halted := Some LLS\<rparr>)"
    by (rule reach_sleep_from_boot)
  have h2: "halted (sys_boot\<lparr>core := \<lparr>primask = 1, ipsr = 0\<rparr>, halted := Some LLS\<rparr>) = Some LLS" by simp
  have h3: "(0::nat) < NUM_UARTS" by simp
  show ?thesis by (rule conjI [OF h1 conjI [OF h2 conjI [OF h3 no_lls_while_rx_enabled [OF h1 h2 h3]]]])
qed

end
