(* ===== verification/Mulle_Main.thy ===== *)
theory Mulle_Main
  imports Llwu_Policy Llwu_Wakeup
begin

text \<open>
  The board start-up of \<open>contiki-main.c\<close> that has logic of its own: the
  NVRAM provisioning (\<open>mulle_nvram_init\<close>, a magic word that, when absent,
  triggers zeroing the whole device before it is written), the boot counter
  (\<open>increase_boot_count\<close>), the file-system check (\<open>init_cfs\<close>), the sleep set-up
  of \<open>main\<close> (the \<open>deep_sleep\<close> controller, whose consent depends on
  \<open>WITH_SLIP\<close>), and the order in which \<open>main\<close> runs the NVRAM steps.  The NVRAM
  is a byte store behind a driver whose every call may fail; a failing call is
  given by an oracle over the calls' sequence numbers and transfers nothing,
  a successful one transfers all bytes.  The layout constants of
  \<open>mulle-nvram.h\<close> (not among the sources) are a parameter.  A 32-bit record
  is read and written through a union, so its bytes are the little-endian
  encoding of the word.  The file system is an environment that answers the
  three calls \<open>init_cfs\<close> makes; the calls it makes are the result.
\<close>

subsection \<open>Little-endian records\<close>

definition u32_to_le :: "u32 \<Rightarrow> u8 list" where
  "u32_to_le w = map (\<lambda>k. ucast (drop_bit (8 * k) w)) [0..<4]"

definition le_to_u32 :: "u8 list \<Rightarrow> u32" where
  "le_to_u32 bs = foldr (\<lambda>b acc. ucast b OR push_bit 8 acc) bs 0"

subsection \<open>The NVRAM device\<close>

record nvram_conf =
  MULLE_NVRAM_CAPACITY :: nat
  MULLE_NVRAM_MAGIC :: nat
  MULLE_NVRAM_MAGIC_EXPECTED :: u32
  MULLE_NVRAM_BOOT_COUNT :: nat

record nvram =
  nv_mem :: "nat \<Rightarrow> u8"
  nv_fails :: "nat \<Rightarrow> bool"
  nv_calls :: nat

text \<open>\<open>mulle_nvram->read\<close> and \<open>mulle_nvram->write\<close>: the number of bytes
  transferred, and the device afterwards.\<close>

definition nvram_read :: "nat \<Rightarrow> nat \<Rightarrow> nvram \<Rightarrow> nat \<times> u8 list \<times> nvram" where
  "nvram_read addr len d =
     (let d' = d\<lparr>nv_calls := Suc (nv_calls d)\<rparr> in
      if nv_fails d (nv_calls d) then (0, [], d')
      else (len, map (nv_mem d) [addr..<addr + len], d'))"

definition nvram_write :: "nat \<Rightarrow> u8 list \<Rightarrow> nvram \<Rightarrow> nat \<times> nvram" where
  "nvram_write addr bs d =
     (let d' = d\<lparr>nv_calls := Suc (nv_calls d)\<rparr> in
      if nv_fails d (nv_calls d) then (0, d')
      else (length bs, d'\<lparr>nv_mem := (\<lambda>a. if addr \<le> a \<and> a < addr + length bs
                                             then bs ! (a - addr) else nv_mem d a)\<rparr>))"

subsection \<open>mulle_nvram_init\<close>

text \<open>Lines 75--79: \<open>for (i = 0; i < MULLE_NVRAM_CAPACITY; i += 8)\<close> writes eight
  zero bytes at \<open>i\<close>, and returns -4 at the first short write.\<close>

function nvram_zero_fill :: "nvram_conf \<Rightarrow> nat \<Rightarrow> nvram \<Rightarrow> int option \<times> nvram" where
  "nvram_zero_fill c i d =
     (if i < MULLE_NVRAM_CAPACITY c then
        (case nvram_write i (replicate 8 0) d of
           (n, d') \<Rightarrow> if n \<noteq> 8 then (Some (-4), d') else nvram_zero_fill c (i + 8) d')
      else (None, d))"
  by pat_completeness auto
termination
  by (relation "measure (\<lambda>(c, i, d). MULLE_NVRAM_CAPACITY c - i)") auto

declare nvram_zero_fill.simps [simp del]

text \<open>Lines 51--86; \<open>spi_ok\<close> is the result of \<open>nvram_spi_init\<close>.\<close>

definition mulle_nvram_init :: "nvram_conf \<Rightarrow> bool \<Rightarrow> nvram \<Rightarrow> int \<times> nvram" where
  "mulle_nvram_init c spi_ok d =
     (if \<not> spi_ok then (-2, d)
      else (case nvram_read (MULLE_NVRAM_MAGIC c) 4 d of
        (n, bs, d1) \<Rightarrow>
          if n \<noteq> 4 then (-3, d1)
          else if le_to_u32 bs \<noteq> MULLE_NVRAM_MAGIC_EXPECTED c then
            (case nvram_zero_fill c 0 d1 of
               (Some err, d2) \<Rightarrow> (err, d2)
             | (None, d2) \<Rightarrow>
                 (case nvram_write (MULLE_NVRAM_MAGIC c) (u32_to_le (MULLE_NVRAM_MAGIC_EXPECTED c)) d2 of
                    (m, d3) \<Rightarrow> if m \<noteq> 4 then (-5, d3) else (0, d3)))
          else (0, d1)))"

text \<open>Lines 88--100: the write's result is ignored.\<close>

definition increase_boot_count :: "nvram_conf \<Rightarrow> nvram \<Rightarrow> nvram" where
  "increase_boot_count c d =
     (case nvram_read (MULLE_NVRAM_BOOT_COUNT c) 4 d of
        (n, bs, d1) \<Rightarrow>
          if n \<noteq> 4 then d1
          else snd (nvram_write (MULLE_NVRAM_BOOT_COUNT c) (u32_to_le (le_to_u32 bs + 1)) d1))"

text \<open>Lines 211--216 of \<open>main\<close>.\<close>

definition main_nvram :: "nvram_conf \<Rightarrow> bool \<Rightarrow> nvram \<Rightarrow> int \<times> nvram" where
  "main_nvram c spi_ok d =
     (case mulle_nvram_init c spi_ok d of
        (status, d1) \<Rightarrow> if status = 0 then (status, increase_boot_count c d1) else (status, d1))"

text \<open>The 32-bit value a successful read of a record at \<open>addr\<close> returns.\<close>

definition nvram_u32_at :: "nvram \<Rightarrow> nat \<Rightarrow> u32" where
  "nvram_u32_at d addr = le_to_u32 (map (nv_mem d) [addr..<addr + 4])"

subsection \<open>init_cfs\<close>

text \<open>What the file system answers: whether \<open>"formated"\<close> opens for reading,
  whether formatting succeeds, whether the file opens for writing.\<close>

record cfs_env =
  formated_exists :: bool
  format_ok :: bool
  open_write_ok :: bool

datatype cfs_call = Xmem_init | Open_read | Coffee_format | Open_write | Write_marker | Close

definition init_cfs :: "cfs_env \<Rightarrow> cfs_call list" where
  "init_cfs e =
     (if formated_exists e then [Xmem_init, Open_read, Close]
      else if \<not> format_ok e then [Xmem_init, Open_read, Coffee_format]
      else if \<not> open_write_ok e then [Xmem_init, Open_read, Coffee_format, Open_write]
      else [Xmem_init, Open_read, Coffee_format, Open_write, Write_marker, Close])"

subsection \<open>The sleep set-up of main\<close>

text \<open>Lines 170--179 (\<open>llwu_init\<close>, whose body is not among the sources, is
  left out): the low-power timer becomes a wake-up source, the
  \<open>deep_sleep\<close> controller (line 132) is registered, and it consents to deep
  sleep unless the board talks SLIP over the radio.\<close>

definition main_llwu_setup ::
  "bool \<Rightarrow> ctl_addr \<Rightarrow> llwu_registry \<times> llwu_wake \<Rightarrow> llwu_registry \<times> llwu_wake" where
  "main_llwu_setup with_slip deep_sleep st =
     (case st of (r, w) \<Rightarrow>
        (let w1 = (case llwu_enable_wakeup_module (wakeup_module_num LLWU_WAKEUP_MODULE_LPTMR) w of
                     Inl e \<Rightarrow> w | Inr w' \<Rightarrow> w');
             r1 = llwu_register deep_sleep r;
             r2 = llwu_set_allow deep_sleep (if with_slip then 0 else 1) r1
         in (r2, w1)))"

subsection \<open>Properties\<close>

lemma length_u32_to_le [simp]: "length (u32_to_le w) = 4"
  by (simp add: u32_to_le_def)

lemma le_u32_roundtrip: "le_to_u32 (u32_to_le w) = w"
proof (rule bit_word_eqI)
  fix n assume n: "n < LENGTH(32)"
  have "n < 8 \<or> (8 \<le> n \<and> n < 16) \<or> (16 \<le> n \<and> n < 24) \<or> (24 \<le> n \<and> n < 32)" using n by auto
  then show "bit (le_to_u32 (u32_to_le w)) n = bit w n"
    by (auto simp: u32_to_le_def le_to_u32_def upt_rec bit_or_iff bit_push_bit_iff bit_unsigned_iff
                   bit_drop_bit_eq)
qed

lemma nvram_write_ok:
  "\<not> nv_fails d (nv_calls d) \<Longrightarrow>
   nvram_write addr bs d = (length bs, d\<lparr>nv_calls := Suc (nv_calls d),
      nv_mem := (\<lambda>a. if addr \<le> a \<and> a < addr + length bs then bs ! (a - addr) else nv_mem d a)\<rparr>)"
  by (simp add: nvram_write_def Let_def)

lemma nvram_read_result:
  "nvram_read addr len d =
     (if nv_fails d (nv_calls d) then 0 else len,
      if nv_fails d (nv_calls d) then [] else map (nv_mem d) [addr..<addr + len],
      d\<lparr>nv_calls := Suc (nv_calls d)\<rparr>)"
  by (simp add: nvram_read_def Let_def)

lemma map_written_block:
  "map (\<lambda>a. if addr \<le> a \<and> a < addr + length bs then bs ! (a - addr) else m a) [addr..<addr + length bs] = bs"
  by (rule nth_equalityI) simp_all

lemma nvram_write_zeros:
  assumes "\<not> nv_fails d (nv_calls d)"
  shows "nvram_write i (replicate 8 0) d =
           (8, d\<lparr>nv_calls := Suc (nv_calls d),
                 nv_mem := (\<lambda>a. if i \<le> a \<and> a < i + 8 then 0 else nv_mem d a)\<rparr>)"
proof -
  have "(\<lambda>a. if i \<le> a \<and> a < i + length (replicate 8 (0::u8)) then replicate 8 0 ! (a - i)
              else nv_mem d a) = (\<lambda>a. if i \<le> a \<and> a < i + 8 then 0 else nv_mem d a)"
  proof (rule ext)
    fix a
    show "(if i \<le> a \<and> a < i + length (replicate 8 (0::u8)) then replicate 8 0 ! (a - i) else nv_mem d a) =
          (if i \<le> a \<and> a < i + 8 then 0 else nv_mem d a)"
    proof (cases "i \<le> a \<and> a < i + 8")
      case True
      then have "a - i < 8" by linarith
      then show ?thesis using True by simp
    qed auto
  qed
  then show ?thesis using nvram_write_ok [OF assms, of i "replicate 8 0"] by simp
qed

lemma zero_fill_zeroes:
  "nvram_zero_fill c i d = (None, d') \<Longrightarrow>
   (i \<le> a \<and> a < MULLE_NVRAM_CAPACITY c) \<or> nv_mem d a = 0 \<Longrightarrow> nv_mem d' a = 0"
proof (induction c i d arbitrary: d' rule: nvram_zero_fill.induct)
  case (1 c i d)
  show ?case
  proof (cases "i < MULLE_NVRAM_CAPACITY c")
    case lt: True
    show ?thesis
    proof (cases "nv_fails d (nv_calls d)")
      case True
      then show ?thesis using "1.prems"(1) lt
        by (subst (asm) nvram_zero_fill.simps) (simp add: nvram_write_def Let_def)
    next
      case ok: False
      define d1 where "d1 = d\<lparr>nv_calls := Suc (nv_calls d),
                              nv_mem := (\<lambda>a. if i \<le> a \<and> a < i + 8 then 0 else nv_mem d a)\<rparr>"
      have w: "nvram_write i (replicate 8 0) d = (8, d1)"
        using nvram_write_zeros [OF ok] by (simp add: d1_def)
      have m1: "nv_mem d1 = (\<lambda>a. if i \<le> a \<and> a < i + 8 then 0 else nv_mem d a)" by (simp add: d1_def)
      have rec: "nvram_zero_fill c (i + 8) d1 = (None, d')"
        using "1.prems"(1) lt w by (subst (asm) nvram_zero_fill.simps) simp
      have "(i + 8 \<le> a \<and> a < MULLE_NVRAM_CAPACITY c) \<or> nv_mem d1 a = 0"
        using "1.prems"(2) m1 by auto
      then show ?thesis using "1.IH" [OF lt w [symmetric] _ rec] by simp
    qed
  next
    case False
    then have "d' = d" using "1.prems"(1) by (subst (asm) nvram_zero_fill.simps) simp
    then show ?thesis using "1.prems"(2) False by auto
  qed
qed

lemma zero_fill_err:
  "nvram_zero_fill c i d = (Some e, d') \<Longrightarrow> e = -4"
proof (induction c i d arbitrary: d' rule: nvram_zero_fill.induct)
  case (1 c i d)
  show ?case
  proof (cases "i < MULLE_NVRAM_CAPACITY c")
    case lt: True
    obtain n d1 where w: "nvram_write i (replicate 8 0) d = (n, d1)" by (cases "nvram_write i (replicate 8 0) d")
    show ?thesis
    proof (cases "n = 8")
      case True
      then have "nvram_zero_fill c (i + 8) d1 = (Some e, d')"
        using "1.prems" lt w by (subst (asm) nvram_zero_fill.simps) simp
      then show ?thesis using "1.IH" [OF lt w [symmetric]] True by simp
    next
      case False
      then show ?thesis using "1.prems" lt w by (subst (asm) nvram_zero_fill.simps) simp
    qed
  next
    case False
    then show ?thesis using "1.prems" by (subst (asm) nvram_zero_fill.simps) simp
  qed
qed

lemma zero_fill_no_faults:
  "(\<forall>k. \<not> nv_fails d k) \<Longrightarrow>
   fst (nvram_zero_fill c i d) = None \<and> (\<forall>k. \<not> nv_fails (snd (nvram_zero_fill c i d)) k)"
proof (induction c i d rule: nvram_zero_fill.induct)
  case (1 c i d)
  show ?case
  proof (cases "i < MULLE_NVRAM_CAPACITY c")
    case lt: True
    obtain d1 where w: "nvram_write i (replicate 8 0) d = (8, d1)"
      using "1.prems" by (auto simp: nvram_write_def Let_def)
    have f: "\<forall>k. \<not> nv_fails d1 k" using "1.prems" w by (auto simp: nvram_write_def Let_def)
    have "nvram_zero_fill c i d = nvram_zero_fill c (i + 8) d1"
      using lt w by (subst nvram_zero_fill.simps) simp
    then show ?thesis using "1.IH" [OF lt w [symmetric] _ f] by simp
  next
    case False
    then have "nvram_zero_fill c i d = (None, d)" by (subst nvram_zero_fill.simps) simp
    then show ?thesis using "1.prems" by simp
  qed
qed

lemma nvram_u32_at_written:
  assumes "nv_mem d = (\<lambda>a. if addr \<le> a \<and> a < addr + length (u32_to_le w)
                             then u32_to_le w ! (a - addr) else m a)"
  shows "nvram_u32_at d addr = w"
  using map_written_block [of addr "u32_to_le w" m] assms by (simp add: nvram_u32_at_def le_u32_roundtrip)

lemma nvram_u32_at_zero:
  "(\<forall>a. addr \<le> a \<and> a < addr + 4 \<longrightarrow> nv_mem d a = 0) \<Longrightarrow> nvram_u32_at d addr = 0"
proof -
  assume z: "\<forall>a. addr \<le> a \<and> a < addr + 4 \<longrightarrow> nv_mem d a = 0"
  have "map (nv_mem d) [addr..<addr + 4] = replicate 4 0" by (rule nth_equalityI) (simp_all add: z)
  then show ?thesis by (simp add: nvram_u32_at_def le_to_u32_def numeral_eq_Suc)
qed

lemma increase_boot_count_fails:
  "nv_fails d (nv_calls d) \<or> nv_fails d (Suc (nv_calls d)) \<Longrightarrow>
   nv_mem (increase_boot_count c d) = nv_mem d"
  by (auto simp: increase_boot_count_def nvram_read_result nvram_write_def Let_def)

lemma increase_boot_count_ok:
  assumes "\<not> nv_fails d (nv_calls d)" and "\<not> nv_fails d (Suc (nv_calls d))"
  shows "nv_mem (increase_boot_count c d) =
      (\<lambda>a. if MULLE_NVRAM_BOOT_COUNT c \<le> a \<and>
               a < MULLE_NVRAM_BOOT_COUNT c + length (u32_to_le (nvram_u32_at d (MULLE_NVRAM_BOOT_COUNT c) + 1))
            then u32_to_le (nvram_u32_at d (MULLE_NVRAM_BOOT_COUNT c) + 1) ! (a - MULLE_NVRAM_BOOT_COUNT c)
            else nv_mem d a)"
  using assms by (intro ext) (simp add: increase_boot_count_def nvram_read_result nvram_write_ok nvram_u32_at_def)

lemma increase_boot_count_no_faults:
  "(\<forall>k. \<not> nv_fails d k) \<Longrightarrow> \<forall>k. \<not> nv_fails (increase_boot_count c d) k"
  by (simp add: increase_boot_count_def nvram_read_result nvram_write_def Let_def)

text \<open>C25: When \<open>mulle_nvram_init\<close> returns 0, the magic record reads back the
  expected magic word; and when the magic was missing before, every byte of
  the device outside the magic record has been set to zero.\<close>

theorem mulle_nvram_init_provisions:
  assumes r: "mulle_nvram_init c spi d = (0, d')"
  shows "nvram_u32_at d' (MULLE_NVRAM_MAGIC c) = MULLE_NVRAM_MAGIC_EXPECTED c \<and>
         (nvram_u32_at d (MULLE_NVRAM_MAGIC c) \<noteq> MULLE_NVRAM_MAGIC_EXPECTED c \<longrightarrow>
          (\<forall>a < MULLE_NVRAM_CAPACITY c. a < MULLE_NVRAM_MAGIC c \<or> MULLE_NVRAM_MAGIC c + 4 \<le> a \<longrightarrow>
             nv_mem d' a = 0))"
proof -
  let ?M = "MULLE_NVRAM_MAGIC c" and ?E = "MULLE_NVRAM_MAGIC_EXPECTED c"
  let ?bs = "map (nv_mem d) [?M..<?M + 4]"
  let ?d1 = "d\<lparr>nv_calls := Suc (nv_calls d)\<rparr>"
  have spi: spi using r by (rule contrapos_pp) (simp add: mulle_nvram_init_def)
  have ok: "\<not> nv_fails d (nv_calls d)"
    using r spi by (auto simp: mulle_nvram_init_def nvram_read_result)
  have rd: "nvram_read ?M 4 d = (4, ?bs, ?d1)" using ok by (simp add: nvram_read_result)
  show ?thesis
  proof (cases "le_to_u32 ?bs = ?E")
    case True
    then have "d' = ?d1" using r spi by (simp add: mulle_nvram_init_def rd)
    then show ?thesis using True by (simp add: nvram_u32_at_def)
  next
    case mism: False
    obtain z d2 where zf: "nvram_zero_fill c 0 ?d1 = (z, d2)" by (cases "nvram_zero_fill c 0 ?d1")
    have z: "z = None"
    proof (rule ccontr)
      assume "z \<noteq> None"
      then obtain e where "z = Some e" by blast
      with zf have "e = -4" by (simp add: zero_fill_err)
      with r spi mism zf \<open>z = Some e\<close> show False by (simp add: mulle_nvram_init_def rd)
    qed
    obtain m d3 where wr: "nvram_write ?M (u32_to_le ?E) d2 = (m, d3)"
      by (cases "nvram_write ?M (u32_to_le ?E) d2")
    have d3: "d' = d3" and m4: "m = 4"
      using r spi mism zf z wr by (simp_all add: mulle_nvram_init_def rd split: if_splits)
    have ok2: "\<not> nv_fails d2 (nv_calls d2)" using wr m4 by (auto simp: nvram_write_def Let_def split: if_splits)
    have mem3: "nv_mem d3 = (\<lambda>a. if ?M \<le> a \<and> a < ?M + length (u32_to_le ?E)
                                   then u32_to_le ?E ! (a - ?M) else nv_mem d2 a)"
      using wr ok2 by (auto simp: nvram_write_ok)
    have "nvram_u32_at d3 ?M = ?E"
      using mem3 by (rule nvram_u32_at_written)
    moreover have "\<forall>a < MULLE_NVRAM_CAPACITY c. a < ?M \<or> ?M + 4 \<le> a \<longrightarrow> nv_mem d3 a = 0"
    proof (intro allI impI)
      fix a assume a: "a < MULLE_NVRAM_CAPACITY c" and out: "a < ?M \<or> ?M + 4 \<le> a"
      have "nv_mem d2 a = 0" using zero_fill_zeroes [of c 0 ?d1 d2 a] zf z a by simp
      then show "nv_mem d3 a = 0" using mem3 out by auto
    qed
    ultimately show ?thesis using d3 by simp
  qed
qed


text \<open>C27: \<open>increase_boot_count\<close> adds one to the stored counter, wrapping
  at 2 to the 32, when both driver calls succeed; when either fails the
  counter keeps its value.  No byte outside the counter's record changes.\<close>

theorem increase_boot_count_increments:
  "nvram_u32_at (increase_boot_count c d) (MULLE_NVRAM_BOOT_COUNT c) =
     (if nv_fails d (nv_calls d) \<or> nv_fails d (Suc (nv_calls d))
      then nvram_u32_at d (MULLE_NVRAM_BOOT_COUNT c)
      else nvram_u32_at d (MULLE_NVRAM_BOOT_COUNT c) + 1) \<and>
   (\<forall>a. a < MULLE_NVRAM_BOOT_COUNT c \<or> MULLE_NVRAM_BOOT_COUNT c + 4 \<le> a \<longrightarrow>
      nv_mem (increase_boot_count c d) a = nv_mem d a)"
proof (cases "nv_fails d (nv_calls d) \<or> nv_fails d (Suc (nv_calls d))")
  case True
  then show ?thesis using increase_boot_count_fails [OF True, of c] by (simp add: nvram_u32_at_def)
next
  case False
  then have ok: "\<not> nv_fails d (nv_calls d)" "\<not> nv_fails d (Suc (nv_calls d))" by simp_all
  show ?thesis
    using False increase_boot_count_ok [OF ok, of c] nvram_u32_at_written [OF increase_boot_count_ok [OF ok]]
    by auto
qed

text \<open>C28: On the first boot of a fault-free device without the magic word,
  \<open>main\<close>'s NVRAM steps report status 0 and leave a boot count of 1, provided
  the counter lies on the device apart from the magic record.\<close>

theorem main_nvram_first_boot:
  assumes nf: "\<forall>k. \<not> nv_fails d k"
    and blank: "nvram_u32_at d (MULLE_NVRAM_MAGIC c) \<noteq> MULLE_NVRAM_MAGIC_EXPECTED c"
    and cap: "MULLE_NVRAM_BOOT_COUNT c + 4 \<le> MULLE_NVRAM_CAPACITY c"
    and apart: "MULLE_NVRAM_BOOT_COUNT c + 4 \<le> MULLE_NVRAM_MAGIC c \<or> MULLE_NVRAM_MAGIC c + 4 \<le> MULLE_NVRAM_BOOT_COUNT c"
  shows "fst (main_nvram c True d) = 0 \<and> nvram_u32_at (snd (main_nvram c True d)) (MULLE_NVRAM_BOOT_COUNT c) = 1"
proof -
  let ?M = "MULLE_NVRAM_MAGIC c" and ?E = "MULLE_NVRAM_MAGIC_EXPECTED c" and ?B = "MULLE_NVRAM_BOOT_COUNT c"
  let ?d1 = "d\<lparr>nv_calls := Suc (nv_calls d)\<rparr>"
  obtain d2 where zf: "nvram_zero_fill c 0 ?d1 = (None, d2)" and nf2: "\<forall>k. \<not> nv_fails d2 k"
    using zero_fill_no_faults [of ?d1 c 0] nf by (cases "nvram_zero_fill c 0 ?d1") auto
  define d3 where "d3 = snd (nvram_write ?M (u32_to_le ?E) d2)"
  have wr: "nvram_write ?M (u32_to_le ?E) d2 = (4, d3)" using nf2 by (simp add: d3_def nvram_write_ok)
  have init: "mulle_nvram_init c True d = (0, d3)"
    using nf blank zf wr by (simp add: mulle_nvram_init_def nvram_read_result nvram_u32_at_def)
  have nf3: "\<forall>k. \<not> nv_fails d3 k" using nf2 by (simp add: d3_def nvram_write_def Let_def)
  have "\<forall>a. ?B \<le> a \<and> a < ?B + 4 \<longrightarrow> nv_mem d3 a = 0"
  proof (intro allI impI)
    fix a assume a: "?B \<le> a \<and> a < ?B + 4"
    have "nv_mem d2 a = 0" using zero_fill_zeroes [OF zf, of a] a cap by simp
    then show "nv_mem d3 a = 0" using a apart nf2 by (auto simp: d3_def nvram_write_ok)
  qed
  then have "nvram_u32_at d3 ?B = 0" by (rule nvram_u32_at_zero)
  moreover have "nvram_u32_at (increase_boot_count c d3) ?B = nvram_u32_at d3 ?B + 1"
    using nvram_u32_at_written [OF increase_boot_count_ok] nf3 by simp
  ultimately show ?thesis using init by (simp add: main_nvram_def)
qed

text \<open>C29: \<open>init_cfs\<close> initialises the flash first, formats only when the marker
  file is missing, writes the marker only after a successful format and open,
  and closes a descriptor exactly when one was opened.\<close>

theorem init_cfs_calls:
  "hd (init_cfs e) = Xmem_init \<and>
   (Write_marker \<in> set (init_cfs e) \<longleftrightarrow> \<not> formated_exists e \<and> format_ok e \<and> open_write_ok e) \<and>
   count_list (init_cfs e) Close = (if formated_exists e \<or> (format_ok e \<and> open_write_ok e) then 1 else 0) \<and>
   (Coffee_format \<in> set (init_cfs e) \<longleftrightarrow> \<not> formated_exists e)"
  by (cases "formated_exists e"; cases "format_ok e"; cases "open_write_ok e") (simp_all add: init_cfs_def)

text \<open>After \<open>main\<close>'s sleep set-up, the arbiter never goes deeper than
  WAIT when the board talks SLIP, and otherwise applies the counter policy
  with unanimous consent; the low-power timer is a wake-up source.\<close>

theorem main_llwu_setup_policy:
  "llwu_sleep_mode (fst (main_llwu_setup with_slip ds (registry_boot, llwu_wake_reset))) s =
     Some (if with_slip then WAIT else llwu_choose_mode True s) \<and>
   module_enabled (wakeup_module_num LLWU_WAKEUP_MODULE_LPTMR) (snd (main_llwu_setup with_slip ds (registry_boot, llwu_wake_reset)))"
  by (cases with_slip)
     (simp_all add: main_llwu_setup_def llwu_sleep_mode_def llwu_register_def llwu_set_allow_def registry_boot_def
                LLWU_CONTROL_def llwu_all_allow.simps llwu_choose_mode_def llwu_enable_wakeup_module_def
                module_enabled_def llwu_wake_reset_def set_bit_reg_def)

theorem mulle_nvram_init_provisions_witness:
  "mulle_nvram_init \<lparr>MULLE_NVRAM_CAPACITY = 16, MULLE_NVRAM_MAGIC = 0, MULLE_NVRAM_MAGIC_EXPECTED = 0x4D554C4C, MULLE_NVRAM_BOOT_COUNT = 4\<rparr> True \<lparr>nv_mem = (\<lambda>_. 0xFF), nv_fails = (\<lambda>_. False), nv_calls = 0\<rparr> = (0, snd (mulle_nvram_init \<lparr>MULLE_NVRAM_CAPACITY = 16, MULLE_NVRAM_MAGIC = 0, MULLE_NVRAM_MAGIC_EXPECTED = 0x4D554C4C, MULLE_NVRAM_BOOT_COUNT = 4\<rparr> True \<lparr>nv_mem = (\<lambda>_. 0xFF), nv_fails = (\<lambda>_. False), nv_calls = 0\<rparr>)) \<and>
   nvram_u32_at (snd (mulle_nvram_init \<lparr>MULLE_NVRAM_CAPACITY = 16, MULLE_NVRAM_MAGIC = 0, MULLE_NVRAM_MAGIC_EXPECTED = 0x4D554C4C, MULLE_NVRAM_BOOT_COUNT = 4\<rparr> True \<lparr>nv_mem = (\<lambda>_. 0xFF), nv_fails = (\<lambda>_. False), nv_calls = 0\<rparr>)) 0 = 0x4D554C4C \<and>
   nv_mem (snd (mulle_nvram_init \<lparr>MULLE_NVRAM_CAPACITY = 16, MULLE_NVRAM_MAGIC = 0, MULLE_NVRAM_MAGIC_EXPECTED = 0x4D554C4C, MULLE_NVRAM_BOOT_COUNT = 4\<rparr> True \<lparr>nv_mem = (\<lambda>_. 0xFF), nv_fails = (\<lambda>_. False), nv_calls = 0\<rparr>)) 10 = 0"
proof -
  have h: "mulle_nvram_init \<lparr>MULLE_NVRAM_CAPACITY = 16, MULLE_NVRAM_MAGIC = 0, MULLE_NVRAM_MAGIC_EXPECTED = 0x4D554C4C, MULLE_NVRAM_BOOT_COUNT = 4\<rparr> True \<lparr>nv_mem = (\<lambda>_. 0xFF), nv_fails = (\<lambda>_. False), nv_calls = 0\<rparr> = (0, snd (mulle_nvram_init \<lparr>MULLE_NVRAM_CAPACITY = 16, MULLE_NVRAM_MAGIC = 0, MULLE_NVRAM_MAGIC_EXPECTED = 0x4D554C4C, MULLE_NVRAM_BOOT_COUNT = 4\<rparr> True \<lparr>nv_mem = (\<lambda>_. 0xFF), nv_fails = (\<lambda>_. False), nv_calls = 0\<rparr>))"
    by (simp add: mulle_nvram_init_def nvram_read_def nvram_write_def nvram_zero_fill.simps
                  le_to_u32_def Let_def)
  have nb: "nvram_u32_at \<lparr>nv_mem = (\<lambda>_. 0xFF), nv_fails = (\<lambda>_. False), nv_calls = 0\<rparr> 0 \<noteq> 0x4D554C4C" by (simp add: nvram_u32_at_def le_to_u32_def upt_rec)
  show ?thesis using mulle_nvram_init_provisions [OF h] h nb by simp
qed


theorem increase_boot_count_increments_witness:
  "nvram_u32_at (increase_boot_count \<lparr>MULLE_NVRAM_CAPACITY = 16, MULLE_NVRAM_MAGIC = 0, MULLE_NVRAM_MAGIC_EXPECTED = 0x4D554C4C, MULLE_NVRAM_BOOT_COUNT = 4\<rparr> \<lparr>nv_mem = (\<lambda>_. 0xFF), nv_fails = (\<lambda>_. False), nv_calls = 0\<rparr>) 4 = 0 \<and>
   nv_mem (increase_boot_count \<lparr>MULLE_NVRAM_CAPACITY = 16, MULLE_NVRAM_MAGIC = 0, MULLE_NVRAM_MAGIC_EXPECTED = 0x4D554C4C, MULLE_NVRAM_BOOT_COUNT = 4\<rparr> \<lparr>nv_mem = (\<lambda>_. 0xFF), nv_fails = (\<lambda>_. False), nv_calls = 0\<rparr>) 10 = 0xFF"
proof -
  have ff: "nvram_u32_at \<lparr>nv_mem = (\<lambda>_. 0xFF), nv_fails = (\<lambda>_. False), nv_calls = 0\<rparr> 4 = 0xFFFFFFFF" by (simp add: nvram_u32_at_def le_to_u32_def upt_rec)
  show ?thesis using increase_boot_count_increments [of "\<lparr>MULLE_NVRAM_CAPACITY = 16, MULLE_NVRAM_MAGIC = 0, MULLE_NVRAM_MAGIC_EXPECTED = 0x4D554C4C, MULLE_NVRAM_BOOT_COUNT = 4\<rparr>" "\<lparr>nv_mem = (\<lambda>_. 0xFF), nv_fails = (\<lambda>_. False), nv_calls = 0\<rparr>"] ff by simp
qed

theorem main_nvram_first_boot_witness:
  "fst (main_nvram \<lparr>MULLE_NVRAM_CAPACITY = 16, MULLE_NVRAM_MAGIC = 0, MULLE_NVRAM_MAGIC_EXPECTED = 0x4D554C4C, MULLE_NVRAM_BOOT_COUNT = 4\<rparr> True \<lparr>nv_mem = (\<lambda>_. 0xFF), nv_fails = (\<lambda>_. False), nv_calls = 0\<rparr>) = 0 \<and>
   nvram_u32_at (snd (main_nvram \<lparr>MULLE_NVRAM_CAPACITY = 16, MULLE_NVRAM_MAGIC = 0, MULLE_NVRAM_MAGIC_EXPECTED = 0x4D554C4C, MULLE_NVRAM_BOOT_COUNT = 4\<rparr> True \<lparr>nv_mem = (\<lambda>_. 0xFF), nv_fails = (\<lambda>_. False), nv_calls = 0\<rparr>)) 4 = 1"
proof -
  have nb: "nvram_u32_at \<lparr>nv_mem = (\<lambda>_. 0xFF), nv_fails = (\<lambda>_. False), nv_calls = 0\<rparr> 0 \<noteq> 0x4D554C4C" by (simp add: nvram_u32_at_def le_to_u32_def upt_rec)
  show ?thesis using main_nvram_first_boot [of "\<lparr>nv_mem = (\<lambda>_. 0xFF), nv_fails = (\<lambda>_. False), nv_calls = 0\<rparr>" "\<lparr>MULLE_NVRAM_CAPACITY = 16, MULLE_NVRAM_MAGIC = 0, MULLE_NVRAM_MAGIC_EXPECTED = 0x4D554C4C, MULLE_NVRAM_BOOT_COUNT = 4\<rparr>"] nb by simp
qed

end
