(* ===== verification/Mulle_Boot.thy ===== *)
theory Mulle_Boot
  imports System Mulle_Main "HOL-Library.Monad_Syntax"
begin

text \<open>
  The whole of \<open>main\<close> in \<open>contiki-main.c\<close> (lines 134--240): its calls in
  program order, as a list of \<open>main_call\<close>s with the build options
  \<open>WITH_SLIP\<close> and \<open>MAKE_BOOTLOADER\<close> as parameters, run over a board state that
  holds the system of \<open>System\<close>, the NVRAM of \<open>Mulle_Main\<close>, the interrupt
  priorities, the file-system calls and the power switches.  Calls into
  modules outside the sources (clocks, LEDs, RTC, SPI, the process
  scheduler, the network) have no effect on this state.  The LLWU calls of
  lines 170--179 are foreground operations of the system model, so the state
  \<open>main\<close> hands to its idle loop is a state of the system.  The idle loop
  (lines 236--239) runs \<open>process_run\<close> until it reports no pending work and
  then calls \<open>llwu_sleep\<close>; the results of \<open>process_run\<close> are an oracle.
\<close>

subsection \<open>Foreground calls of the system\<close>

text \<open>A sequence of foreground calls, stopping at the first that does not
  return (a registry walk that never ends).\<close>

fun fg_run :: "core_clocks \<Rightarrow> (nat \<Rightarrow> bool) \<Rightarrow> fg_op list \<Rightarrow> sys \<Rightarrow> sys option" where
  "fg_run clk conf [] s = Some s"
| "fg_run clk conf (op # ops) s =
     (case fg_exec clk conf op s of None \<Rightarrow> None | Some t \<Rightarrow> fg_run clk conf ops t)"

text \<open>Lines 170--179 of \<open>main\<close> as calls of the system model.\<close>

definition main_sleep_ops :: "bool \<Rightarrow> ctl_addr \<Rightarrow> fg_op list" where
  "main_sleep_ops with_slip deep_sleep =
     [Fg_wake_config (Enable_module (wakeup_module_num LLWU_WAKEUP_MODULE_LPTMR)),
      Fg_register deep_sleep,
      Fg_set_allow deep_sleep (if with_slip then 0 else 1)]"

text \<open>Calls that neither sleep nor touch a receiver.\<close>

fun fg_plain :: "fg_op \<Rightarrow> bool" where
  "fg_plain (Fg_enable_rx n) = False"
| "fg_plain (Fg_disable_rx n) = False"
| "fg_plain Fg_sleep = False"
| "fg_plain op = True"

subsection \<open>The calls of main\<close>

text \<open>\<open>PORTE_IRQn\<close>, the last vector of the K60 table (\<open>MK60D10.h\<close>).\<close>

definition PORTE_IRQn :: nat where
  "PORTE_IRQn = 91"

datatype main_call =
    Leds_arch_init | Power_control_init | Power_control_vperiph_set bool | SystemInit
  | NVIC_SetPriority nat nat | SystemCoreClockUpdate | Rtc_time_set nat | Rtc_start
  | Dbg_uart_init | Devicemap_init | Llwu_init | Llwu_call fg_op
  | Power_control_avdd_set bool | Udelay_init | Board_spi_init | Spi_start nat | Print_boot_info
  | Init_cfs | Bootloader_startup | Mulle_nvram | Random_init | Rtimer_init | Clock_init
  | Process_init | Process_start_etimer | Ctimer_init | Init_net | Voltage_init | Autostart_start

text \<open>Lines 138--229: the calls of \<open>main\<close> before its idle loop.\<close>

definition main_calls :: "bool \<Rightarrow> bool \<Rightarrow> ctl_addr \<Rightarrow> main_call list" where
  "main_calls with_slip make_bootloader deep_sleep =
     [Leds_arch_init, Power_control_init, Power_control_vperiph_set False, SystemInit] @
     map (\<lambda>i. NVIC_SetPriority i (16 div 2)) [0..<PORTE_IRQn] @
     [SystemCoreClockUpdate, Rtc_time_set 0, Rtc_start, Dbg_uart_init, Devicemap_init, Llwu_init] @
     map Llwu_call (main_sleep_ops with_slip deep_sleep) @
     [Power_control_vperiph_set True, Power_control_avdd_set True, Udelay_init, Board_spi_init, Spi_start 0] @
     (if with_slip then [] else [Print_boot_info]) @
     [Init_cfs] @
     (if make_bootloader then [Bootloader_startup] else []) @
     [Mulle_nvram, Random_init, Rtimer_init, Clock_init, Process_init, Process_start_etimer,
      Ctimer_init, Init_net, Voltage_init, Autostart_start]"

text \<open>What the board's environment answers: the clocks and the enabled UART
  vectors of the system model, the file system, the NVRAM layout and
  whether its SPI driver initialises.\<close>

record boot_env =
  env_clk :: core_clocks
  env_conf :: "nat \<Rightarrow> bool"
  env_cfs :: cfs_env
  env_nvram :: nvram_conf
  env_spi_ok :: bool

record board =
  b_sys :: sys
  b_nvram :: nvram
  b_nvic_prio :: "nat \<Rightarrow> nat"
  b_cfs :: "cfs_call list"
  b_nvram_status :: "int option"
  b_vperiph :: bool
  b_avdd :: bool

text \<open>The board at reset: the system at boot, the NVRAM as it is, all
  priorities 0, the power switches as they are.\<close>

definition board_reset :: "nvram \<Rightarrow> bool \<Rightarrow> bool \<Rightarrow> board" where
  "board_reset d vperiph avdd =
     \<lparr>b_sys = sys_boot, b_nvram = d, b_nvic_prio = (\<lambda>_. 0), b_cfs = [], b_nvram_status = None,
      b_vperiph = vperiph, b_avdd = avdd\<rparr>"

text \<open>One call; \<open>Mulle_nvram\<close> is lines 211--216 (\<open>Mulle_Main.main_nvram\<close>).\<close>

fun main_step :: "boot_env \<Rightarrow> main_call \<Rightarrow> board \<Rightarrow> board option" where
  "main_step e (Power_control_vperiph_set v) b = Some (b\<lparr>b_vperiph := v\<rparr>)"
| "main_step e (Power_control_avdd_set v) b = Some (b\<lparr>b_avdd := v\<rparr>)"
| "main_step e (NVIC_SetPriority i p) b = Some (b\<lparr>b_nvic_prio := (b_nvic_prio b)(i := p)\<rparr>)"
| "main_step e (Llwu_call op) b =
     map_option (\<lambda>s. b\<lparr>b_sys := s\<rparr>) (fg_exec (env_clk e) (env_conf e) op (b_sys b))"
| "main_step e Init_cfs b = Some (b\<lparr>b_cfs := init_cfs (env_cfs e)\<rparr>)"
| "main_step e Mulle_nvram b =
     (case main_nvram (env_nvram e) (env_spi_ok e) (b_nvram b) of
        (st, d) \<Rightarrow> Some (b\<lparr>b_nvram := d, b_nvram_status := Some st\<rparr>))"
| "main_step e c b = Some b"

fun main_run :: "boot_env \<Rightarrow> main_call list \<Rightarrow> board \<Rightarrow> board option" where
  "main_run e [] b = Some b"
| "main_run e (c # cs) b = main_step e c b \<bind> main_run e cs"

subsection \<open>The idle loop\<close>

text \<open>Line 237: \<open>while(process_run() > 0);\<close>, where \<open>pr k\<close> is what the
  \<open>k\<close>-th call of \<open>process_run\<close> returns; the result is the number of calls
  made so far.  It spins forever while processes keep reporting work.\<close>

partial_function (option) process_drain :: "(nat \<Rightarrow> nat) \<Rightarrow> nat \<Rightarrow> nat option" where
  "process_drain pr k = (if 0 < pr k then process_drain pr (Suc k) else Some (Suc k))"

text \<open>Lines 236--239: one round of the idle loop, then \<open>llwu_sleep\<close>.\<close>

definition idle_round :: "(nat \<Rightarrow> nat) \<Rightarrow> nat \<Rightarrow> sys \<Rightarrow> (nat \<times> sys) option" where
  "idle_round pr k s = do { k' \<leftarrow> process_drain pr k; s' \<leftarrow> llwu_sleep s; Some (k', s') }"

subsection \<open>Properties\<close>

lemma fg_exec_reg:
  "fg_exec clk conf op s = Some t \<Longrightarrow>
   reg t = (case op of Fg_register c \<Rightarrow> llwu_register c (reg s)
                     | Fg_set_allow c a \<Rightarrow> llwu_set_allow c a (reg s) | _ \<Rightarrow> reg s)"
  by (cases op) (auto simp: llwu_sleep_def split: sum.splits prod.splits)

lemma fg_exec_plain:
  "fg_exec clk conf op s = Some t \<Longrightarrow> fg_plain op \<Longrightarrow> halted t = halted s \<and> core t = core s"
  by (cases op) (auto split: sum.splits)

lemma fg_run_reach:
  "fg_run clk conf ops s = Some t \<Longrightarrow> sys_reach clk conf disc s \<Longrightarrow> halted s = None \<Longrightarrow>
   \<not> irq_masked (core s) \<Longrightarrow> list_all fg_plain ops \<Longrightarrow> sys_reach clk conf disc t"
proof (induction ops arbitrary: s)
  case Nil
  then show ?case by simp
next
  case (Cons op ops)
  obtain s1 where ex: "fg_exec clk conf op s = Some s1" and run: "fg_run clk conf ops s1 = Some t"
    using Cons.prems(1) by (auto split: option.splits)
  have pl: "fg_plain op" using Cons.prems(5) by simp
  then have dis: "fg_disciplined op s" by (cases op) simp_all
  have "sys_reach clk conf disc s1"
    using Cons.prems(2-4) ex dis by (blast intro: sys_reach.step sys_step.fg)
  moreover have "halted s1 = None \<and> \<not> irq_masked (core s1)"
    using fg_exec_plain [OF ex pl] Cons.prems(3,4) by simp
  ultimately show ?case using Cons.IH [OF run] Cons.prems(5) by simp
qed

lemma fg_run_main_sleep:
  "fg_run clk conf (main_sleep_ops ws ds) sys_boot =
     Some (sys_boot\<lparr>reg := llwu_set_allow ds (if ws then 0 else 1) (llwu_register ds registry_boot),
                    wake := llwu_wake_reset\<lparr>llwu_ME := set_bit_reg (llwu_ME llwu_wake_reset) 0\<rparr>\<rparr>)"
  by (simp add: main_sleep_ops_def llwu_enable_wakeup_module_def sys_boot_def)

lemma main_run_append [simp]: "main_run e (xs @ ys) b = main_run e xs b \<bind> main_run e ys"
proof (induction xs arbitrary: b)
  case (Cons c cs)
  then show ?case by (cases "main_step e c b") simp_all
qed simp

lemma main_run_nvic:
  "main_run e (map (\<lambda>i. NVIC_SetPriority i p) xs) b =
     Some (b\<lparr>b_nvic_prio := (\<lambda>j. if j \<in> set xs then p else b_nvic_prio b j)\<rparr>)"
  by (induction xs arbitrary: b) (simp_all add: fun_eq_iff)

lemma main_run_llwu:
  "main_run e (map Llwu_call ops) b =
     map_option (\<lambda>s. b\<lparr>b_sys := s\<rparr>) (fg_run (env_clk e) (env_conf e) ops (b_sys b))"
  by (induction ops arbitrary: b) (auto split: option.splits)

lemma main_sleep_state:
  "fg_run clk conf (main_sleep_ops ws ds) sys_boot = Some s0 \<Longrightarrow>
   (reg s0, wake s0) = main_llwu_setup ws ds (registry_boot, llwu_wake_reset) \<and> sys_reach clk conf disc s0"
proof -
  assume run: "fg_run clk conf (main_sleep_ops ws ds) sys_boot = Some s0"
  have "sys_reach clk conf disc s0"
    by (rule fg_run_reach [OF run sys_reach.boot]) (simp_all add: irq_masked_def main_sleep_ops_def)
  moreover have "(reg s0, wake s0) = main_llwu_setup ws ds (registry_boot, llwu_wake_reset)"
    using run by (auto simp: fg_run_main_sleep main_llwu_setup_def llwu_enable_wakeup_module_def)
  ultimately show ?thesis by simp
qed

lemma main_run_main_calls:
  "main_run e (main_calls ws bl ds) (board_reset d vp av) =
     Some \<lparr>b_sys = sys_boot\<lparr>reg := llwu_set_allow ds (if ws then 0 else 1) (llwu_register ds registry_boot),
                             wake := llwu_wake_reset\<lparr>llwu_ME := set_bit_reg (llwu_ME llwu_wake_reset) 0\<rparr>\<rparr>,
           b_nvram = snd (main_nvram (env_nvram e) (env_spi_ok e) d),
           b_nvic_prio = (\<lambda>i. if i < PORTE_IRQn then 8 else 0), b_cfs = init_cfs (env_cfs e),
           b_nvram_status = Some (fst (main_nvram (env_nvram e) (env_spi_ok e) d)),
           b_vperiph = True, b_avdd = True\<rparr>"
  by (simp add: main_calls_def main_run_nvic main_run_llwu fg_run_main_sleep board_reset_def fun_eq_iff
           split: prod.split)

lemma main_run_sys:
  "main_run e (main_calls ws bl ds) (board_reset d vp av) = Some b \<Longrightarrow>
   fg_run (env_clk e) (env_conf e) (main_sleep_ops ws ds) sys_boot = Some (b_sys b)"
  by (auto simp: main_run_main_calls fg_run_main_sleep)

lemma process_drain_Some:
  "pr j = 0 \<Longrightarrow> k \<le> j \<Longrightarrow> \<exists>k'. k' \<le> Suc j \<and> process_drain pr k = Some k'"
proof (induction "j - k" arbitrary: k)
  case 0
  then have "k = j" by simp
  with "0.prems"(1) show ?case by (simp add: process_drain.simps)
next
  case (Suc n)
  show ?case
  proof (cases "0 < pr k")
    case True
    then have "k < j" using Suc.prems by (cases "k = j") auto
    with Suc.hyps(2) have "n = j - Suc k" by simp
    from Suc.hyps(1) [OF this Suc.prems(1)] \<open>k < j\<close> True show ?thesis
      by (subst process_drain.simps) simp
  next
    case False
    then show ?thesis using Suc.prems by (subst process_drain.simps) simp
  qed
qed

lemma process_drain_None:
  assumes "\<forall>j\<ge>k. 0 < pr j"
  shows "process_drain pr k = None"
proof (rule ccontr)
  assume "process_drain pr k \<noteq> None"
  then obtain y where ret: "process_drain pr k = Some y" by blast
  have "pr = pr \<longrightarrow> (\<exists>j\<ge>k. pr j = 0)"
  proof (rule process_drain.raw_induct [where P = "\<lambda>p k' y. p = pr \<longrightarrow> (\<exists>j\<ge>k'. pr j = 0)", OF _ ret])
    fix f p k' y'
    assume IH: "\<And>p k' y. f p k' = Some y \<Longrightarrow> p = pr \<longrightarrow> (\<exists>j\<ge>k'. pr j = 0)"
      and eq: "(if 0 < p k' then f p (Suc k') else Some (Suc k')) = Some y'"
    show "p = pr \<longrightarrow> (\<exists>j\<ge>k'. pr j = 0)"
    proof
      assume p: "p = pr"
      show "\<exists>j\<ge>k'. pr j = 0"
      proof (cases "0 < pr k'")
        case True
        with eq p have "f pr (Suc k') = Some y'" by simp
        with IH obtain j where "j \<ge> Suc k'" "pr j = 0" by blast
        then show ?thesis by (intro exI [of _ j]) simp
      qed auto
    qed
  qed
  with assms show False by auto
qed

lemma idle_round_sleeps:
  "pr j = 0 \<Longrightarrow> k \<le> j \<Longrightarrow> llwu_sleep s = Some t \<Longrightarrow> \<exists>k'. k' \<le> Suc j \<and> idle_round pr k s = Some (k', t)"
  using process_drain_Some [of pr j k] by (auto simp: idle_round_def)

lemma idle_round_spins: "\<forall>j\<ge>k. 0 < pr j \<Longrightarrow> idle_round pr k s = None"
  by (simp add: idle_round_def process_drain_None)

lemma process_drain_stops:
  assumes "process_drain pr k = Some k'"
  shows "k < k' \<and> pr (k' - 1) = 0 \<and> (\<forall>j. k \<le> j \<and> j < k' - 1 \<longrightarrow> 0 < pr j)"
proof -
  have "p = pr \<longrightarrow> k0 < y \<and> pr (y - 1) = 0 \<and> (\<forall>j. k0 \<le> j \<and> j < y - 1 \<longrightarrow> 0 < pr j)"
    if "process_drain p k0 = Some y" for p k0 y
  proof (rule process_drain.raw_induct
           [where P = "\<lambda>p k0 y. p = pr \<longrightarrow> k0 < y \<and> pr (y - 1) = 0 \<and> (\<forall>j. k0 \<le> j \<and> j < y - 1 \<longrightarrow> 0 < pr j)",
            OF _ that])
    fix f p k0 y
    assume IH: "\<And>p k0 y. f p k0 = Some y \<Longrightarrow>
                  p = pr \<longrightarrow> k0 < y \<and> pr (y - 1) = 0 \<and> (\<forall>j. k0 \<le> j \<and> j < y - 1 \<longrightarrow> 0 < pr j)"
      and eq: "(if 0 < p k0 then f p (Suc k0) else Some (Suc k0)) = Some y"
    show "p = pr \<longrightarrow> k0 < y \<and> pr (y - 1) = 0 \<and> (\<forall>j. k0 \<le> j \<and> j < y - 1 \<longrightarrow> 0 < pr j)"
    proof
      assume p: "p = pr"
      show "k0 < y \<and> pr (y - 1) = 0 \<and> (\<forall>j. k0 \<le> j \<and> j < y - 1 \<longrightarrow> 0 < pr j)"
      proof (cases "0 < pr k0")
        case True
        with eq p have "f pr (Suc k0) = Some y" by simp
        with IH have r: "Suc k0 < y \<and> pr (y - 1) = 0 \<and> (\<forall>j. Suc k0 \<le> j \<and> j < y - 1 \<longrightarrow> 0 < pr j)"
          by blast
        have "\<forall>j. k0 \<le> j \<and> j < y - 1 \<longrightarrow> 0 < pr j"
        proof (intro allI impI)
          fix j assume "k0 \<le> j \<and> j < y - 1"
          then show "0 < pr j" using r True by (cases "j = k0") auto
        qed
        then show ?thesis using r by simp
      next
        case False
        with eq p have "y = Suc k0" by simp
        with False show ?thesis by simp
      qed
    qed
  qed
  then show ?thesis using assms by blast
qed

text \<open>\<open>main\<close> runs through to its idle loop, and hands it a board on which
  the system state is reachable in the system model (so every system
  invariant holds from then on), the registry and wake-up unit are as the
  sleep set-up of \<open>Mulle_Main\<close> computes them, the file-system calls are those
  of \<open>init_cfs\<close>, the NVRAM and its status are those of \<open>main\<close>'s NVRAM steps,
  every interrupt below \<open>PORTE_IRQn\<close> has priority 8 and no other was touched,
  and the peripheral and analog supplies are on.\<close>

theorem main_boot_reaches_idle:
  "\<exists>b. main_run e (main_calls ws bl ds) (board_reset d vp av) = Some b \<and>
     sys_reach (env_clk e) (env_conf e) disc (b_sys b) \<and>
     (reg (b_sys b), wake (b_sys b)) = main_llwu_setup ws ds (registry_boot, llwu_wake_reset) \<and>
     b_cfs b = init_cfs (env_cfs e) \<and>
     b_nvram_status b = Some (fst (main_nvram (env_nvram e) (env_spi_ok e) d)) \<and>
     b_nvram b = snd (main_nvram (env_nvram e) (env_spi_ok e) d) \<and>
     b_nvic_prio b = (\<lambda>i. if i < PORTE_IRQn then 8 else 0) \<and> b_vperiph b \<and> b_avdd b"
proof -
  obtain b where run: "main_run e (main_calls ws bl ds) (board_reset d vp av) = Some b"
    using main_run_main_calls by blast
  have "(reg (b_sys b), wake (b_sys b)) = main_llwu_setup ws ds (registry_boot, llwu_wake_reset) \<and>
        sys_reach (env_clk e) (env_conf e) disc (b_sys b)"
    by (rule main_sleep_state [OF main_run_sys [OF run]])
  moreover have "b_cfs b = init_cfs (env_cfs e) \<and>
     b_nvram_status b = Some (fst (main_nvram (env_nvram e) (env_spi_ok e) d)) \<and>
     b_nvram b = snd (main_nvram (env_nvram e) (env_spi_ok e) d) \<and>
     b_nvic_prio b = (\<lambda>i. if i < PORTE_IRQn then 8 else 0) \<and> b_vperiph b \<and> b_avdd b"
    using run by (auto simp: main_run_main_calls)
  ultimately show ?thesis using run by blast
qed

text \<open>C32: one round of \<open>main\<close>'s idle loop returns exactly when some later call
  of \<open>process_run\<close> reports no pending work; it then stops at the first such
  call, having called \<open>process_run\<close> again after every call that reported work,
  and the core is in the state \<open>llwu_sleep\<close> leaves it in.\<close>

theorem idle_round_exact:
  assumes sl: "llwu_sleep s = Some t"
  shows "(idle_round pr k s \<noteq> None \<longleftrightarrow> (\<exists>j\<ge>k. pr j = 0)) \<and>
         (\<forall>k' t'. idle_round pr k s = Some (k', t') \<longrightarrow>
            t' = t \<and> k < k' \<and> pr (k' - 1) = 0 \<and> (\<forall>j. k \<le> j \<and> j < k' - 1 \<longrightarrow> 0 < pr j))"
proof -
  have A: "idle_round pr k s \<noteq> None \<longleftrightarrow> (\<exists>j\<ge>k. pr j = 0)"
  proof
    assume a: "idle_round pr k s \<noteq> None"
    show "\<exists>j\<ge>k. pr j = 0"
    proof (rule ccontr)
      assume "\<not> (\<exists>j\<ge>k. pr j = 0)"
      then have "\<forall>j\<ge>k. 0 < pr j" by simp
      then show False using a idle_round_spins [of k pr s] by simp
    qed
  next
    assume "\<exists>j\<ge>k. pr j = 0"
    then obtain j where "k \<le> j" "pr j = 0" by blast
    then show "idle_round pr k s \<noteq> None" using idle_round_sleeps [OF _ _ sl] by blast
  qed
  have B: "\<forall>k' t'. idle_round pr k s = Some (k', t') \<longrightarrow>
            t' = t \<and> k < k' \<and> pr (k' - 1) = 0 \<and> (\<forall>j. k \<le> j \<and> j < k' - 1 \<longrightarrow> 0 < pr j)"
  proof (intro allI impI)
    fix k' t' assume r: "idle_round pr k s = Some (k', t')"
    then obtain k1 where d: "process_drain pr k = Some k1" and kt: "k' = k1" "t' = t"
      using sl by (auto simp: idle_round_def split: Option.bind_splits)
    show "t' = t \<and> k < k' \<and> pr (k' - 1) = 0 \<and> (\<forall>j. k \<le> j \<and> j < k' - 1 \<longrightarrow> 0 < pr j)"
      using process_drain_stops [OF d] kt by simp
  qed
  from A B show ?thesis by (rule conjI)
qed

theorem idle_round_exact_witness:
  "llwu_sleep sys_boot = Some (sys_boot\<lparr>core := \<lparr>primask = 1, ipsr = 0\<rparr>, halted := Some LLS\<rparr>) \<and>
   idle_round (\<lambda>j. if j < 3 then 1 else 0) 0 sys_boot \<noteq> None"
proof -
  note sl = sleep_from_boot
  let ?pr = "\<lambda>j::nat. if j < 3 then 1 else (0::nat)"
  have ex: "\<exists>j\<ge>0. ?pr j = 0" by (intro exI [of _ 3]) simp
  have e: "idle_round ?pr 0 sys_boot \<noteq> None \<longleftrightarrow> (\<exists>j\<ge>0. ?pr j = 0)"
    using idle_round_exact [OF sl, of ?pr 0] by (rule conjunct1)
  show ?thesis by (intro conjI sl e [THEN iffD2, OF ex])
qed

end
