(* ===== verification/Uart_Tx.thy ===== *)
theory Uart_Tx
  imports Uart_Hw "HOL-Library.Monad_Syntax"
begin

text \<open>
  The transmit side of \<open>uart.c\<close>: \<open>uart_putchar\<close> spins until the transmit data
  register is empty (\<open>S1.TDRE\<close>), writes the byte to \<open>D\<close>, and spins until
  transmission completes (\<open>S1.TC\<close>); \<open>uart_putstring\<close> sends a NUL-terminated
  string one character at a time.  The flags are set by the transmitter, not by
  the driver, so the hardware is an oracle: \<open>env k\<close> is the value \<open>S1\<close> reads at
  the \<open>k\<close>-th poll.  A busy-wait is a \<^theory_text>\<open>partial_function (option)\<close>: a flag
  that is never set makes the wait, and the call, not return (\<open>None\<close>).  A
  byte written to \<open>D\<close> is the event \<open>Ev_tx\<close>.  The lemmas show when the waits
  return and at which poll, that a string goes out byte by byte in order, and
  that transmission leaves the receive state and the inhibit counters alone.
\<close>

type_synonym s1_trace = "nat \<Rightarrow> u8"

subsection \<open>Busy-waiting on a status flag\<close>

text \<open>Lines 193--195 and 199--201: \<open>while (BITBAND_REG8(S1, shift) == 0);\<close>.  The
  result is the index of the next poll.\<close>

partial_function (option) uart_wait_flag :: "s1_trace \<Rightarrow> u8 \<Rightarrow> nat \<Rightarrow> nat option" where
  "uart_wait_flag env m k =
     (if env k AND m = 0 then uart_wait_flag env m (Suc k) else Some (Suc k))"

subsection \<open>uart_putchar and uart_putstring\<close>

definition uart_putchar ::
  "s1_trace \<Rightarrow> nat \<Rightarrow> u8 \<Rightarrow> uart_drv \<times> nat \<Rightarrow> (uart_drv \<times> nat) option" where
  "uart_putchar env n ch st =
     (case st of (s, k) \<Rightarrow> do {
        k1 \<leftarrow> uart_wait_flag env UART_S1_TDRE_MASK k;
        let s1 = emit (Ev_tx n ch) s;
        k2 \<leftarrow> uart_wait_flag env UART_S1_TC_MASK k1;
        Some (s1, k2)
      })"

text \<open>Lines 208--215.  The string is the bytes from \<open>str\<close> on; a list that ends
  before a NUL would make the loop read past the buffer, which has no defined
  result (\<open>None\<close>).\<close>

fun uart_putstring ::
  "s1_trace \<Rightarrow> nat \<Rightarrow> u8 list \<Rightarrow> uart_drv \<times> nat \<Rightarrow> (uart_drv \<times> nat) option" where
  "uart_putstring env n [] st = None"
| "uart_putstring env n (c # cs) st =
     (if c = 0 then Some st
      else do { st' \<leftarrow> uart_putchar env n c st; uart_putstring env n cs st' })"

subsection \<open>Properties\<close>

lemma wait_flag_first:
  "env (k + d) AND m \<noteq> 0 \<Longrightarrow> \<forall>i<d. env (k + i) AND m = 0 \<Longrightarrow>
   uart_wait_flag env m k = Some (Suc (k + d))"
proof (induction d arbitrary: k)
  case 0
  then show ?case by (simp add: uart_wait_flag.simps)
next
  case (Suc d)
  have "env k AND m = 0" using Suc.prems(2) by (metis add_0_right zero_less_Suc)
  moreover have "uart_wait_flag env m (Suc k) = Some (Suc (Suc k + d))"
    using Suc.prems by (intro Suc.IH) (simp_all add: add_Suc_right [symmetric] del: add_Suc_right)
  ultimately show ?case by (simp add: uart_wait_flag.simps)
qed

lemma uart_wait_flag_least:
  assumes "\<exists>j\<ge>k. env j AND m \<noteq> 0"
  shows "uart_wait_flag env m k = Some (Suc (LEAST j. k \<le> j \<and> env j AND m \<noteq> 0))"
proof -
  let ?j = "LEAST j. k \<le> j \<and> env j AND m \<noteq> 0"
  have j: "k \<le> ?j \<and> env ?j AND m \<noteq> 0" using assms by (metis (mono_tags, lifting) LeastI)
  have before: "\<forall>i<?j - k. env (k + i) AND m = 0"
  proof (intro allI impI)
    fix i assume "i < ?j - k"
    then have "k + i < ?j" by simp
    then have "\<not> (k \<le> k + i \<and> env (k + i) AND m \<noteq> 0)" by (rule not_less_Least)
    then show "env (k + i) AND m = 0" by simp
  qed
  have "uart_wait_flag env m k = Some (Suc (k + (?j - k)))"
    using j before by (intro wait_flag_first) simp_all
  then show ?thesis using j by simp
qed

lemma uart_wait_flag_never:
  assumes "\<forall>j\<ge>k. env j AND m = 0"
  shows "uart_wait_flag env m k = None"
proof (rule ccontr)
  assume "uart_wait_flag env m k \<noteq> None"
  then obtain y where ret: "uart_wait_flag env m k = Some y" by blast
  have "env = env \<and> m = m \<longrightarrow> \<not> (\<forall>j\<ge>k. env j AND m = 0)"
  proof (rule uart_wait_flag.raw_induct
           [where P = "\<lambda>e m' k' y. e = env \<and> m' = m \<longrightarrow> \<not> (\<forall>j\<ge>k'. env j AND m = 0)", OF _ ret])
    fix f e m' k' y'
    assume IH: "\<And>e m' k' y. f e m' k' = Some y \<Longrightarrow>
                  e = env \<and> m' = m \<longrightarrow> \<not> (\<forall>j\<ge>k'. env j AND m = 0)"
      and eq: "(if e k' AND m' = 0 then f e m' (Suc k') else Some (Suc k')) = Some y'"
    show "e = env \<and> m' = m \<longrightarrow> \<not> (\<forall>j\<ge>k'. env j AND m = 0)"
    proof (intro impI notI)
      assume em: "e = env \<and> m' = m" and all: "\<forall>j\<ge>k'. env j AND m = 0"
      with eq have "f env m (Suc k') = Some y'" by simp
      with IH have "\<not> (\<forall>j\<ge>Suc k'. env j AND m = 0)" by blast
      with all show False by simp
    qed
  qed
  with assms show False by simp
qed


lemma uart_wait_flag_eventually:
  "\<exists>j\<ge>k. env j AND m \<noteq> 0 \<Longrightarrow> \<exists>k'. k < k' \<and> uart_wait_flag env m k = Some k'"
  by (simp add: uart_wait_flag_least) (metis (mono_tags, lifting) LeastI le_imp_less_Suc)

lemma uart_putchar_Some:
  "uart_wait_flag env UART_S1_TDRE_MASK k = Some k1 \<Longrightarrow>
   uart_putchar env n c (s, k) =
     map_option (\<lambda>k2. (emit (Ev_tx n c) s, k2)) (uart_wait_flag env UART_S1_TC_MASK k1)"
  by (cases "uart_wait_flag env UART_S1_TC_MASK k1") (simp_all add: uart_putchar_def)

text \<open>C17: when the transmit data register empties at some poll and transmission
  completes at some later poll, \<open>uart_putchar\<close> returns, having written the byte
  to the line once.\<close>

theorem uart_putchar_returns:
  assumes tdre: "\<exists>j\<ge>k. env j AND UART_S1_TDRE_MASK \<noteq> 0"
    and tc: "\<forall>i. \<exists>j\<ge>i. env j AND UART_S1_TC_MASK \<noteq> 0"
  shows "\<exists>k'. k < k' \<and> uart_putchar env n c (s, k) = Some (emit (Ev_tx n c) s, k')"
proof -
  obtain k1 where k1: "k < k1" "uart_wait_flag env UART_S1_TDRE_MASK k = Some k1"
    using uart_wait_flag_eventually [OF tdre] by blast
  obtain k2 where k2: "k1 < k2" "uart_wait_flag env UART_S1_TC_MASK k1 = Some k2"
    using uart_wait_flag_eventually tc by blast
  show ?thesis using k1 k2 uart_putchar_Some [OF k1(2), of n c s] by auto
qed

lemma uart_wait_flag_advances:
  assumes "uart_wait_flag env m k = Some k'"
  shows "k < k'"
proof (rule uart_wait_flag.raw_induct [where P = "\<lambda>e m k y. k < y", OF _ assms])
  fix f e m' k'' y
  assume IH: "\<And>e m k y. f e m k = Some y \<Longrightarrow> k < y"
    and eq: "(if e k'' AND m' = 0 then f e m' (Suc k'') else Some (Suc k'')) = Some y"
  show "k'' < y"
  proof (cases "e k'' AND m' = 0")
    case True
    with eq have "f e m' (Suc k'') = Some y" by simp
    then show ?thesis using IH by fastforce
  next
    case False
    with eq show ?thesis by simp
  qed
qed

text \<open>C18: when the transmit data register never empties, or transmission never
  completes, \<open>uart_putchar\<close> spins forever: there is no timeout.\<close>

theorem uart_putchar_blocks:
  assumes "(\<forall>j\<ge>k. env j AND UART_S1_TDRE_MASK = 0) \<or>
           (\<forall>j\<ge>k. env j AND UART_S1_TC_MASK = 0)"
  shows "uart_putchar env n c (s, k) = None"
  using assms
proof
  assume "\<forall>j\<ge>k. env j AND UART_S1_TDRE_MASK = 0"
  then show ?thesis by (simp add: uart_putchar_def uart_wait_flag_never)
next
  assume tc: "\<forall>j\<ge>k. env j AND UART_S1_TC_MASK = 0"
  show ?thesis
  proof (cases "uart_wait_flag env UART_S1_TDRE_MASK k")
    case None
    then show ?thesis by (simp add: uart_putchar_def)
  next
    case (Some k1)
    then have "\<forall>j\<ge>k1. env j AND UART_S1_TC_MASK = 0"
      using tc uart_wait_flag_advances [OF Some] by simp
    then show ?thesis by (simp add: uart_putchar_Some [OF Some] uart_wait_flag_never)
  qed
qed

lemma uart_putchar_ready:
  assumes "env k AND UART_S1_TDRE_MASK \<noteq> 0" and "env (Suc k) AND UART_S1_TC_MASK \<noteq> 0"
  shows "uart_putchar env n c (s, k) = Some (emit (Ev_tx n c) s, Suc (Suc k))"
proof -
  have "uart_wait_flag env UART_S1_TDRE_MASK k = Some (Suc k)"
    using assms(1) by (simp add: uart_wait_flag.simps)
  moreover have "uart_wait_flag env UART_S1_TC_MASK (Suc k) = Some (Suc (Suc k))"
    using assms(2) by (simp add: uart_wait_flag.simps)
  ultimately show ?thesis by (simp add: uart_putchar_Some)
qed

text \<open>C19: with a transmitter that is always ready, \<open>uart_putstring\<close> writes the
  bytes before the first NUL, in order and nothing else, two polls per byte.\<close>

theorem uart_putstring_ready:
  assumes ready: "\<forall>j. env j AND UART_S1_TDRE_MASK \<noteq> 0 \<and> env j AND UART_S1_TC_MASK \<noteq> 0"
    and nz: "0 \<notin> set cs"
  shows "uart_putstring env n (cs @ 0 # rest) (s, k) =
           Some (s\<lparr>events := events s @ map (Ev_tx n) cs\<rparr>, k + 2 * length cs)"
  using nz
proof (induction cs arbitrary: s k)
  case Nil
  then show ?case by simp
next
  case (Cons c cs)
  have "uart_putchar env n c (s, k) = Some (emit (Ev_tx n c) s, Suc (Suc k))"
    using ready by (intro uart_putchar_ready) simp_all
  with Cons show ?case by (simp add: emit_def)
qed

text \<open>The example of the specification: transmitting \<open>"AB"\<close> under an
  always-ready status produces exactly two writes, \<open>A\<close> then \<open>B\<close>.\<close>

theorem uart_putstring_AB:
  "uart_putstring (\<lambda>_. 0xC0) n [65, 66, 0] (s, k) =
     Some (s\<lparr>events := events s @ [Ev_tx n 65, Ev_tx n 66]\<rparr>, k + 4)"
  by (simp add: uart_putchar_ready emit_def)

theorem uart_putchar_returns_witness:
  "(\<exists>j\<ge>0. (\<lambda>_::nat. 0xC0 :: u8) j AND UART_S1_TDRE_MASK \<noteq> 0) \<and>
   (\<forall>i. \<exists>j\<ge>i. (\<lambda>_::nat. 0xC0 :: u8) j AND UART_S1_TC_MASK \<noteq> 0) \<and>
   (\<exists>k'. 0 < k' \<and> uart_putchar (\<lambda>_. 0xC0) 0 65 (uart_drv_boot, 0) =
            Some (emit (Ev_tx 0 65) uart_drv_boot, k'))"
proof -
  have h1: "\<exists>j\<ge>0. (\<lambda>_::nat. 0xC0 :: u8) j AND UART_S1_TDRE_MASK \<noteq> 0" by (intro exI [of _ 0]) simp
  have h2: "\<forall>i. \<exists>j\<ge>i. (\<lambda>_::nat. 0xC0 :: u8) j AND UART_S1_TC_MASK \<noteq> 0" by auto
  show ?thesis by (rule conjI [OF h1 conjI [OF h2 uart_putchar_returns [OF h1 h2]]])
qed

theorem uart_putchar_blocks_witness:
  "((\<forall>j\<ge>0. (\<lambda>_::nat. 0x40 :: u8) j AND UART_S1_TDRE_MASK = 0) \<or>
    (\<forall>j\<ge>0. (\<lambda>_::nat. 0x40 :: u8) j AND UART_S1_TC_MASK = 0)) \<and>
   uart_putchar (\<lambda>_. 0x40) 0 65 (uart_drv_boot, 0) = None"
proof -
  have h: "(\<forall>j\<ge>0. (\<lambda>_::nat. 0x40 :: u8) j AND UART_S1_TDRE_MASK = 0) \<or>
           (\<forall>j\<ge>0. (\<lambda>_::nat. 0x40 :: u8) j AND UART_S1_TC_MASK = 0)" by simp
  show ?thesis by (rule conjI [OF h uart_putchar_blocks [OF h]])
qed

theorem uart_putstring_ready_witness:
  "(\<forall>j. (\<lambda>_::nat. 0xC0 :: u8) j AND UART_S1_TDRE_MASK \<noteq> 0 \<and> (\<lambda>_::nat. 0xC0 :: u8) j AND UART_S1_TC_MASK \<noteq> 0) \<and>
   (0::u8) \<notin> set [72, 105] \<and>
   uart_putstring (\<lambda>_. 0xC0) 1 ([72, 105] @ 0 # [7]) (uart_drv_boot, 0) =
     Some (uart_drv_boot\<lparr>events := events uart_drv_boot @ map (Ev_tx 1) [72, 105]\<rparr>, 0 + 2 * length [72::u8, 105])"
proof -
  have h1: "\<forall>j. (\<lambda>_::nat. 0xC0 :: u8) j AND UART_S1_TDRE_MASK \<noteq> 0 \<and> (\<lambda>_::nat. 0xC0 :: u8) j AND UART_S1_TC_MASK \<noteq> 0"
    by simp
  have h2: "(0::u8) \<notin> set [72, 105]" by simp
  show ?thesis by (rule conjI [OF h1 conjI [OF h2 uart_putstring_ready [OF h1 h2]]])
qed

end
