(* ===== verification/Bitband.thy ===== *)
theory Bitband
  imports Prelude
begin

text \<open>
  Bit-band access (\<open>cpu_conf.h\<close>).  The Cortex-M4 maps every bit of the first
  megabyte of the SRAM and peripheral segments to a word of an alias region
  32 MB above the segment; a write of 1 or 0 to the alias word sets or clears
  the bit, a read returns it.  \<open>BITBAND_ADDR\<close> computes the alias address in
  32-bit arithmetic; the hardware decoding is the arithmetic of the ARM
  architecture manual (alias base + 32 byte_offset + 4 bit_number), over
  byte addresses, with memory as 32-bit words in little-endian order.  The
  lemmas show that the macro hits the alias word of the intended bit, also for
  8-bit registers at unaligned addresses, so that the driver's
  \<open>BITBAND_REG32(reg, shift) = 1\<close> is the bit-set the UART model writes and its
  \<open>BITBAND_REG8(reg, shift)\<close> reads are the mask tests it uses.
\<close>

definition BITBAND_ADDR :: "u32 \<Rightarrow> nat \<Rightarrow> u32" where
  "BITBAND_ADDR addr bit_num =
     (addr AND 0xF0000000) + 0x2000000 + push_bit 5 (addr AND 0xFFFFF) + push_bit 2 (of_nat bit_num)"

text \<open>The hardware: which word and which bit of it an alias address stands for.\<close>

definition bitband_target :: "nat \<Rightarrow> (nat \<times> nat) option" where
  "bitband_target a =
     (let seg = a div 2 ^ 28 * 2 ^ 28; off = a mod 2 ^ 28 in
      if (seg = 0x20000000 \<or> seg = 0x40000000) \<and> 2 ^ 25 \<le> off \<and> off < 2 ^ 26 then
        (let ofs = off - 2 ^ 25; byte = seg + ofs div 32 in
         Some (byte div 4 * 4, 8 * (byte mod 4) + ofs mod 32 div 4))
      else None)"

type_synonym word_mem = "nat \<Rightarrow> u32"

definition bitband_write :: "word_mem \<Rightarrow> nat \<Rightarrow> u32 \<Rightarrow> word_mem" where
  "bitband_write mem a v =
     (case bitband_target a of
        Some (w, b) \<Rightarrow> mem(w := (if bit v 0 then set_bit_reg (mem w) b else clear_bit_reg (mem w) b))
      | None \<Rightarrow> mem(a := v))"

definition bitband_read :: "word_mem \<Rightarrow> nat \<Rightarrow> u32" where
  "bitband_read mem a =
     (case bitband_target a of Some (w, b) \<Rightarrow> (if bit (mem w) b then 1 else 0) | None \<Rightarrow> mem a)"

text \<open>The byte at a byte address, as an 8-bit register reads it.\<close>

definition byte_at :: "word_mem \<Rightarrow> nat \<Rightarrow> u8" where
  "byte_at mem a = ucast (drop_bit (8 * (a mod 4)) (mem (a div 4 * 4)))"

text \<open>\<open>BITBAND_VAR32\<close>, \<open>BITBAND_VAR16\<close>, \<open>BITBAND_VAR8\<close> (and the \<open>BITBAND_REG\<close>
  forms the drivers use): the alias word of bit \<open>b\<close> of the variable at \<open>var\<close>,
  read or assigned.  The access width does not matter to the alias word.\<close>

definition BITBAND_VAR_read :: "word_mem \<Rightarrow> u32 \<Rightarrow> nat \<Rightarrow> u32" where
  "BITBAND_VAR_read mem var b = bitband_read mem (unat (BITBAND_ADDR var b))"

definition BITBAND_VAR_write :: "word_mem \<Rightarrow> u32 \<Rightarrow> nat \<Rightarrow> u32 \<Rightarrow> word_mem" where
  "BITBAND_VAR_write mem var b v = bitband_write mem (unat (BITBAND_ADDR var b)) v"

text \<open>An address in the bit-band region of the SRAM or peripheral segment.\<close>

definition in_bitband_region :: "u32 \<Rightarrow> bool" where
  "in_bitband_region addr \<longleftrightarrow>
     (unat addr div 2 ^ 28 = 2 \<or> unat addr div 2 ^ 28 = 4) \<and> unat addr mod 2 ^ 28 < 2 ^ 20"

subsection \<open>Properties\<close>

lemma u32_hi_mask: "(0xF0000000 :: u32) = NOT (mask 28)"
  by (simp add: mask_eq_exp_minus_1)

lemma u32_lo_mask: "(0xFFFFF :: u32) = mask 20"
  by (simp add: mask_eq_exp_minus_1)

lemma unat_bitband_addr:
  assumes b: "bit_num < 32"
  shows "unat (BITBAND_ADDR addr bit_num) =
           unat addr div 2 ^ 28 * 2 ^ 28 + 2 ^ 25 + unat addr mod 2 ^ 20 * 32 + bit_num * 4"
proof -
  let ?h = "unat addr div 2 ^ 28 * 2 ^ 28" and ?l = "unat addr mod 2 ^ 20"
  have h: "unat (addr AND 0xF0000000) = ?h" by (simp only: u32_hi_mask unat_and_not_mask)
  have h_le: "?h \<le> 2 ^ 32 - 2 ^ 28"
  proof -
    have "unat addr < 2 ^ LENGTH(32)" by (rule unsigned_less)
    then have "unat addr div 2 ^ 28 < 16" by simp
    then show ?thesis by simp
  qed
  have l: "unat (push_bit 5 (addr AND 0xFFFFF)) = ?l * 32"
  proof -
    have a: "unat (addr AND 0xFFFFF) = ?l" by (simp only: u32_lo_mask unat_and_mask_mod)
    have b: "?l * 32 < 2 ^ 32" using mod_less_divisor [of "2 ^ 20" "unat addr"] by simp
    have "unat (push_bit 5 (addr AND 0xFFFFF)) = take_bit LENGTH(32) (push_bit 5 (unat (addr AND 0xFFFFF)))"
      by (rule unsigned_push_bit_eq)
    then show ?thesis using b by (simp only: a) (simp add: push_bit_eq_mult take_bit_eq_mod)
  qed
  have l_lt: "?l * 32 < 2 ^ 25" using mod_less_divisor [of "2 ^ 20" "unat addr"] by simp
  have bb: "unat (push_bit 2 (of_nat bit_num :: u32)) = bit_num * 4"
  proof -
    have e: "push_bit 2 (of_nat bit_num :: u32) = of_nat (bit_num * 4)"
      by (simp add: push_bit_of_nat push_bit_eq_mult)
    have "unat (of_nat (bit_num * 4) :: u32) = bit_num * 4 mod 2 ^ LENGTH(32)" by (rule unat_of_nat)
    then show ?thesis using b by (simp only: e) simp
  qed
  show ?thesis
    using h h_le l l_lt bb b by (simp add: BITBAND_ADDR_def unat_add_lem [THEN iffD1])
qed

lemma bitband_target_addr:
  assumes reg: "in_bitband_region addr" and fits: "8 * (unat addr mod 4) + bit_num < 32"
  shows "bitband_target (unat (BITBAND_ADDR addr bit_num)) =
           Some (unat addr div 4 * 4, 8 * (unat addr mod 4) + bit_num)"
proof -
  let ?n = "unat addr"
  let ?q = "?n div 2 ^ 28" and ?lo = "?n mod 2 ^ 20"
  let ?r = "2 ^ 25 + ?lo * 32 + bit_num * 4"
  have b: "bit_num < 32" using fits by simp
  have lo: "?lo * 32 < 2 ^ 25" using mod_less_divisor [of "2 ^ 20" ?n] by simp
  have r: "?r < 2 ^ 28" using lo b by simp
  have A: "unat (BITBAND_ADDR addr bit_num) = ?q * 2 ^ 28 + ?r"
    using unat_bitband_addr [OF b, of addr] by simp
  have seg: "(?q * 2 ^ 28 + ?r) div 2 ^ 28 = ?q" and off: "(?q * 2 ^ 28 + ?r) mod 2 ^ 28 = ?r"
    using div_mod_split_nat [OF r, of ?q] by simp_all
  have nlo: "?n mod 2 ^ 28 = ?lo"
  proof -
    have "?n mod 2 ^ 28 < 2 ^ 20" using reg by (simp add: in_bitband_region_def)
    then have "?n mod 2 ^ 28 mod 2 ^ 20 = ?n mod 2 ^ 28" by simp
    moreover have "?n mod 2 ^ 28 mod 2 ^ 20 = ?lo" using mod_mod_cancel [of "2 ^ 20" "2 ^ 28" ?n] by simp
    ultimately show ?thesis by simp
  qed
  have n: "?n = ?q * 2 ^ 28 + ?lo"
  proof -
    have "?q * 2 ^ 28 + ?n mod 2 ^ 28 = ?n" by (rule div_mult_mod_eq)
    then show ?thesis unfolding nlo by (rule sym)
  qed
  have o1: "(?lo * 32 + bit_num * 4) div 32 = ?lo + bit_num div 8" by simp
  have o2: "(?lo * 32 + bit_num * 4) mod 32 div 4 = bit_num mod 8"
  proof -
    have a: "(?lo * 32 + bit_num * 4) mod 32 = bit_num * 4 mod 32" by (metis mod_mult_self3 add.commute)
    have "bit_num * 4 mod (8 * 4) = bit_num mod 8 * 4" by (rule mod_mult_mult2)
    with a show ?thesis by simp
  qed
  have byte: "?q * 2 ^ 28 + (?lo + bit_num div 8) = ?n + bit_num div 8" using n by simp
  have small: "?n mod 4 + bit_num div 8 < 4" using fits by simp
  have eq4: "?n + bit_num div 8 = ?n div 4 * 4 + (?n mod 4 + bit_num div 8)"
    using div_mult_mod_eq [of ?n 4] by linarith
  have d4: "(?n + bit_num div 8) div 4 * 4 = ?n div 4 * 4"
    and m4: "(?n + bit_num div 8) mod 4 = ?n mod 4 + bit_num div 8"
    unfolding eq4 using div_mod_split_nat [OF small, of "?n div 4"] by (simp_all only:)
  have rlt: "?lo * 32 + bit_num * 4 < 2 ^ 25"
  proof -
    have lo4: "?lo mod 4 = ?n mod 4" using mod_mod_cancel [of 4 "2 ^ 20" ?n] by simp
    have "?lo < 2 ^ 20" by simp
    then have q: "?lo div 4 < 2 ^ 18" by simp
    have e: "?lo * 32 + bit_num * 4 = ?lo div 4 * 128 + (?lo mod 4 * 32 + bit_num * 4)"
      using div_mult_mod_eq [of ?lo 4] by linarith
    have "?lo mod 4 * 32 + bit_num * 4 < 128" using fits lo4 by simp
    moreover have "(2::nat) ^ 18 = 262144" and "(2::nat) ^ 25 = 33554432" by simp_all
    ultimately show ?thesis using q e by linarith
  qed
  have cond: "(?q * 2 ^ 28 = 0x20000000 \<or> ?q * 2 ^ 28 = 0x40000000) \<and> 2 ^ 25 \<le> ?r \<and> ?r < 2 ^ 26"
    using reg rlt by (auto simp: in_bitband_region_def)
  have ofs: "?r - 2 ^ 25 = ?lo * 32 + bit_num * 4" by simp
  have "bitband_target (?q * 2 ^ 28 + ?r) =
          Some ((?n + bit_num div 8) div 4 * 4, 8 * ((?n + bit_num div 8) mod 4) + bit_num mod 8)"
    unfolding bitband_target_def Let_def seg off by (simp only: cond simp_thms if_True ofs o1 o2 byte)
  also have "\<dots> = Some (?n div 4 * 4, 8 * (?n mod 4) + bit_num)"
    by (simp only: d4 m4) simp
  finally show ?thesis unfolding A .
qed

text \<open>C23: for a word-aligned register in the bit-band region, writing 1 or 0
  through \<open>BITBAND_ADDR(reg, shift)\<close> sets or clears exactly bit \<open>shift\<close> of the
  register: the code's \<open>BITBAND_REG32(reg, shift) = 1\<close> is \<open>set_bit_reg\<close>.\<close>

theorem bitband_reg32_write:
  assumes reg: "in_bitband_region addr" and al: "unat addr mod 4 = 0" and sh: "shift < 32"
  shows "BITBAND_VAR_write mem addr shift 1 =
           mem(unat addr := set_bit_reg (mem (unat addr)) shift) \<and>
         BITBAND_VAR_write mem addr shift 0 =
           mem(unat addr := clear_bit_reg (mem (unat addr)) shift)"
proof -
  have w: "unat addr div 4 * 4 = unat addr" using al div_mult_mod_eq [of "unat addr" 4] by simp
  have "bitband_target (unat (BITBAND_ADDR addr shift)) = Some (unat addr, shift)"
    using bitband_target_addr [OF reg, of shift] al sh by (simp add: w)
  then show ?thesis by (simp add: BITBAND_VAR_write_def bitband_write_def)
qed

lemma bit_byte_at:
  "b < 8 \<Longrightarrow> bit (byte_at mem a) b \<longleftrightarrow> bit (mem (a div 4 * 4)) (8 * (a mod 4) + b)"
  by (simp add: byte_at_def bit_unsigned_iff bit_drop_bit_eq add.commute)

text \<open>C24: for an 8-bit register at any byte address of the bit-band region,
  reading through \<open>BITBAND_ADDR(reg, b)\<close> returns bit \<open>b\<close> of that byte: the code's
  \<open>BITBAND_REG8(reg, shift)\<close> tests are the model's mask tests.\<close>

theorem bitband_reg8_read:
  assumes reg: "in_bitband_region addr" and b: "b < 8"
  shows "BITBAND_VAR_read mem addr b = (if bit (byte_at mem (unat addr)) b then 1 else 0)"
proof -
  have "8 * (unat addr mod 4) + b < 32" using b by simp
  then have "bitband_target (unat (BITBAND_ADDR addr b)) = Some (unat addr div 4 * 4, 8 * (unat addr mod 4) + b)"
    by (rule bitband_target_addr [OF reg])
  then show ?thesis using b by (simp add: BITBAND_VAR_read_def bitband_read_def bit_byte_at)
qed

theorem bitband_reg32_write_witness:
  "in_bitband_region 0x40048034 \<and> unat (0x40048034 :: u32) mod 4 = 0 \<and> (10::nat) < 32 \<and>
   BITBAND_VAR_write (\<lambda>_. 0) 0x40048034 10 1 =
     (\<lambda>_. 0)(unat (0x40048034 :: u32) := set_bit_reg ((\<lambda>_. 0 :: u32) (unat (0x40048034 :: u32))) 10) \<and>
   BITBAND_VAR_write (\<lambda>_. 0) 0x40048034 10 0 =
     (\<lambda>_. 0)(unat (0x40048034 :: u32) := clear_bit_reg ((\<lambda>_. 0 :: u32) (unat (0x40048034 :: u32))) 10)"
proof -
  have h1: "in_bitband_region 0x40048034" by (simp add: in_bitband_region_def)
  have h2: "unat (0x40048034 :: u32) mod 4 = 0" by simp
  have h3: "(10::nat) < 32" by simp
  show ?thesis by (rule conjI [OF h1 conjI [OF h2 conjI [OF h3 bitband_reg32_write [OF h1 h2 h3]]]])
qed

theorem bitband_reg8_read_witness:
  "in_bitband_region 0x4006A004 \<and> (7::nat) < 8 \<and>
   BITBAND_VAR_read (\<lambda>_. 0xC0) 0x4006A004 7 =
     (if bit (byte_at (\<lambda>_. 0xC0) (unat (0x4006A004 :: u32))) 7 then 1 else 0)"
proof -
  have h1: "in_bitband_region 0x4006A004" by (simp add: in_bitband_region_def)
  have h2: "(7::nat) < 8" by simp
  show ?thesis by (rule conjI [OF h1 conjI [OF h2 bitband_reg8_read [OF h1 h2]]])
qed

end
