(* ===== verification/Cpu_Conf.thy ===== *)
theory Cpu_Conf
  imports Bitband
begin

text \<open>
  The configuration header \<open>cpu_conf.h\<close>: the silicon revision selection
  (expected CPUID, random-number module, LPTMR counter latching), the pin
  interrupt codes, the clock-gate macros built on \<open>BITBAND_REG32\<close>, the DMA
  multiplexer source enumeration, and the LPTMR clock-source selection.  The
  register addresses and bit positions the macros name come from the
  vendor header \<open>MK60D10.h\<close> (not among the sources) and the K60 reference
  manual.  The lemmas show that the expected CPUID names the Cortex-M4
  revision the header selects, that the pin codes are the edge-interrupt
  codes of the port's IRQC field, that the clock-gate macros reach distinct
  bits and do not disturb each other, and that the DMA source numbers are
  exactly the values of the multiplexer's 6-bit source field.
\<close>

subsection \<open>Silicon revision (lines 32--60)\<close>

datatype k60_rng = KINETIS_RNGA | KINETIS_RNGB

record k60_rev_conf =
  K60_EXPECTED_CPUID :: u32
  kinetis_rng :: k60_rng

text \<open>\<open>None\<close> is the \<open>#error Unknown CPU model\<close> branch.\<close>

definition k60_cpu_conf :: "nat \<Rightarrow> k60_rev_conf option" where
  "k60_cpu_conf cpu_rev =
     (if cpu_rev = 2 then Some \<lparr>K60_EXPECTED_CPUID = 0x410fc241, kinetis_rng = KINETIS_RNGA\<rparr>
      else if cpu_rev = 1 then Some \<lparr>K60_EXPECTED_CPUID = 0x410fc240, kinetis_rng = KINETIS_RNGB\<rparr>
      else None)"

text \<open>The fields of the Cortex-M CPUID register (ARMv7-M architecture manual):
  implementer, variant, part number and revision.\<close>

definition cpuid_fields :: "u32 \<Rightarrow> nat \<times> nat \<times> nat \<times> nat" where
  "cpuid_fields w =
     (unat (drop_bit 24 w), unat (drop_bit 20 w AND 0xF), unat (drop_bit 4 w AND 0xFFF), unat (w AND 0xF))"

text \<open>Lines 228--240: whether the LPTMR counter must be latched before it is read
  (the \<open>CNR\<close> latching came with revision 2 silicon).\<close>

definition LPTIMER_CNR_NEEDS_LATCHING :: "nat \<Rightarrow> nat option" where
  "LPTIMER_CNR_NEEDS_LATCHING cpu_rev = (if cpu_rev = 1 then Some 0 else if cpu_rev = 2 then Some 1 else None)"

subsection \<open>Cortex-M configuration (line 70)\<close>

text \<open>The number of interrupt vectors of the K60 the port is written for.\<close>

definition CPU_IRQ_NUMOF :: nat where
  "CPU_IRQ_NUMOF = 104"

subsection \<open>Pin interrupt codes (lines 93--95)\<close>

datatype pin_interrupt = PIN_INTERRUPT_RISING | PIN_INTERRUPT_FALLING | PIN_INTERRUPT_EDGE

fun pin_interrupt_code :: "pin_interrupt \<Rightarrow> u32" where
  "pin_interrupt_code PIN_INTERRUPT_RISING = 0b1001"
| "pin_interrupt_code PIN_INTERRUPT_FALLING = 0b1010"
| "pin_interrupt_code PIN_INTERRUPT_EDGE = 0b1011"

text \<open>The \<open>PORTx_PCRn.IRQC\<close> field as the K60 reference manual decodes it.\<close>

datatype irqc_edge = Irqc_rising | Irqc_falling | Irqc_either
datatype irqc_config =
    Irqc_disabled | Irqc_dma irqc_edge | Irqc_irq_edge irqc_edge | Irqc_irq_zero | Irqc_irq_one

definition irqc_decode :: "u32 \<Rightarrow> irqc_config option" where
  "irqc_decode v =
     (if v = 0 then Some Irqc_disabled
      else if v = 1 then Some (Irqc_dma Irqc_rising)
      else if v = 2 then Some (Irqc_dma Irqc_falling)
      else if v = 3 then Some (Irqc_dma Irqc_either)
      else if v = 8 then Some Irqc_irq_zero
      else if v = 9 then Some (Irqc_irq_edge Irqc_rising)
      else if v = 10 then Some (Irqc_irq_edge Irqc_falling)
      else if v = 11 then Some (Irqc_irq_edge Irqc_either)
      else if v = 12 then Some Irqc_irq_one
      else None)"

subsection \<open>Clock gates (lines 98--110, 198--199)\<close>

datatype clock_gate =
    PORTA_CLOCK_GATE | PORTB_CLOCK_GATE | PORTC_CLOCK_GATE | PORTD_CLOCK_GATE | PORTE_CLOCK_GATE
  | DMA_CLOCK_GATE | DMAMUX_CLOCK_GATE | LPTIMER_CLOCK_GATE

text \<open>The SIM register and bit each gate macro names: \<open>SIM->SCGC5\<close> at
  \<open>0x40048038\<close> (LPTMR bit 0, PORTA--PORTE bits 9--13), \<open>SIM->SCGC6\<close> at
  \<open>0x4004803C\<close> (DMAMUX bit 1), \<open>SIM->SCGC7\<close> at \<open>0x40048040\<close> (DMA bit 1).\<close>

fun clock_gate_reg :: "clock_gate \<Rightarrow> u32 \<times> nat" where
  "clock_gate_reg PORTA_CLOCK_GATE = (0x40048038, 9)"
| "clock_gate_reg PORTB_CLOCK_GATE = (0x40048038, 10)"
| "clock_gate_reg PORTC_CLOCK_GATE = (0x40048038, 11)"
| "clock_gate_reg PORTD_CLOCK_GATE = (0x40048038, 12)"
| "clock_gate_reg PORTE_CLOCK_GATE = (0x40048038, 13)"
| "clock_gate_reg DMA_CLOCK_GATE = (0x40048040, 1)"
| "clock_gate_reg DMAMUX_CLOCK_GATE = (0x4004803C, 1)"
| "clock_gate_reg LPTIMER_CLOCK_GATE = (0x40048038, 0)"

text \<open>Assigning to a gate macro: \<open>BITBAND_REG32(SIM->SCGCn, SHIFT) = v\<close>.\<close>

definition clock_gate_set :: "clock_gate \<Rightarrow> u32 \<Rightarrow> word_mem \<Rightarrow> word_mem" where
  "clock_gate_set g v mem = (case clock_gate_reg g of (r, sh) \<Rightarrow> BITBAND_VAR_write mem r sh v)"

definition LPTIMER_CLKEN :: "word_mem \<Rightarrow> word_mem" where
  "LPTIMER_CLKEN mem = clock_gate_set LPTIMER_CLOCK_GATE 1 mem"

definition LPTIMER_CLKDIS :: "word_mem \<Rightarrow> word_mem" where
  "LPTIMER_CLKDIS mem = clock_gate_set LPTIMER_CLOCK_GATE 0 mem"

text \<open>Whether a gate is open: its bit in the SIM register.\<close>

definition clock_gate_open :: "clock_gate \<Rightarrow> word_mem \<Rightarrow> bool" where
  "clock_gate_open g mem = (case clock_gate_reg g of (r, sh) \<Rightarrow> bit (mem (unat r)) sh)"

subsection \<open>DMA multiplexer sources (lines 112--178)\<close>

datatype dma_source_t =
    DMA_SOURCE_DISABLED
  | DMA_SOURCE_RESERVED1
  | DMA_SOURCE_UART0_RX
  | DMA_SOURCE_UART0_TX
  | DMA_SOURCE_UART1_RX
  | DMA_SOURCE_UART1_TX
  | DMA_SOURCE_UART2_RX
  | DMA_SOURCE_UART2_TX
  | DMA_SOURCE_UART3_RX
  | DMA_SOURCE_UART3_TX
  | DMA_SOURCE_UART4_RX
  | DMA_SOURCE_UART4_TX
  | DMA_SOURCE_RESERVED12
  | DMA_SOURCE_RESERVED13
  | DMA_SOURCE_I2S0_RX
  | DMA_SOURCE_I2S0_TX
  | DMA_SOURCE_SPI0_RX
  | DMA_SOURCE_SPI0_TX
  | DMA_SOURCE_SPI1_RX
  | DMA_SOURCE_SPI1_TX
  | DMA_SOURCE_SPI2_RX
  | DMA_SOURCE_SPI2_TX
  | DMA_SOURCE_I2C0
  | DMA_SOURCE_I2C1
  | DMA_SOURCE_FTM0CH0
  | DMA_SOURCE_FTM0CH1
  | DMA_SOURCE_FTM0CH2
  | DMA_SOURCE_FTM0CH3
  | DMA_SOURCE_FTM0CH4
  | DMA_SOURCE_FTM0CH5
  | DMA_SOURCE_FTM0CH6
  | DMA_SOURCE_FTM0CH7
  | DMA_SOURCE_FTM1CH0
  | DMA_SOURCE_FTM1CH1
  | DMA_SOURCE_FTM2CH0
  | DMA_SOURCE_FTM2CH1
  | DMA_SOURCE_IEEE1588_TIMER0
  | DMA_SOURCE_IEEE1588_TIMER1
  | DMA_SOURCE_IEEE1588_TIMER2
  | DMA_SOURCE_IEEE1588_TIMER3
  | DMA_SOURCE_ADC0
  | DMA_SOURCE_ADC1
  | DMA_SOURCE_CMP0
  | DMA_SOURCE_CMP1
  | DMA_SOURCE_CMP2
  | DMA_SOURCE_DAC0
  | DMA_SOURCE_RESERVED46
  | DMA_SOURCE_CMT
  | DMA_SOURCE_PDB
  | DMA_SOURCE_PORT_A
  | DMA_SOURCE_PORT_B
  | DMA_SOURCE_PORT_C
  | DMA_SOURCE_PORT_D
  | DMA_SOURCE_PORT_E
  | DMA_SOURCE_DMAMUX_ALWAYS0
  | DMA_SOURCE_DMAMUX_ALWAYS1
  | DMA_SOURCE_DMAMUX_ALWAYS2
  | DMA_SOURCE_DMAMUX_ALWAYS3
  | DMA_SOURCE_DMAMUX_ALWAYS4
  | DMA_SOURCE_DMAMUX_ALWAYS5
  | DMA_SOURCE_DMAMUX_ALWAYS6
  | DMA_SOURCE_DMAMUX_ALWAYS7
  | DMA_SOURCE_DMAMUX_ALWAYS8
  | DMA_SOURCE_DMAMUX_ALWAYS9

fun dma_source_num :: "dma_source_t \<Rightarrow> nat" where
  "dma_source_num DMA_SOURCE_DISABLED = 0"
| "dma_source_num DMA_SOURCE_RESERVED1 = 1"
| "dma_source_num DMA_SOURCE_UART0_RX = 2"
| "dma_source_num DMA_SOURCE_UART0_TX = 3"
| "dma_source_num DMA_SOURCE_UART1_RX = 4"
| "dma_source_num DMA_SOURCE_UART1_TX = 5"
| "dma_source_num DMA_SOURCE_UART2_RX = 6"
| "dma_source_num DMA_SOURCE_UART2_TX = 7"
| "dma_source_num DMA_SOURCE_UART3_RX = 8"
| "dma_source_num DMA_SOURCE_UART3_TX = 9"
| "dma_source_num DMA_SOURCE_UART4_RX = 10"
| "dma_source_num DMA_SOURCE_UART4_TX = 11"
| "dma_source_num DMA_SOURCE_RESERVED12 = 12"
| "dma_source_num DMA_SOURCE_RESERVED13 = 13"
| "dma_source_num DMA_SOURCE_I2S0_RX = 14"
| "dma_source_num DMA_SOURCE_I2S0_TX = 15"
| "dma_source_num DMA_SOURCE_SPI0_RX = 16"
| "dma_source_num DMA_SOURCE_SPI0_TX = 17"
| "dma_source_num DMA_SOURCE_SPI1_RX = 18"
| "dma_source_num DMA_SOURCE_SPI1_TX = 19"
| "dma_source_num DMA_SOURCE_SPI2_RX = 20"
| "dma_source_num DMA_SOURCE_SPI2_TX = 21"
| "dma_source_num DMA_SOURCE_I2C0 = 22"
| "dma_source_num DMA_SOURCE_I2C1 = 23"
| "dma_source_num DMA_SOURCE_FTM0CH0 = 24"
| "dma_source_num DMA_SOURCE_FTM0CH1 = 25"
| "dma_source_num DMA_SOURCE_FTM0CH2 = 26"
| "dma_source_num DMA_SOURCE_FTM0CH3 = 27"
| "dma_source_num DMA_SOURCE_FTM0CH4 = 28"
| "dma_source_num DMA_SOURCE_FTM0CH5 = 29"
| "dma_source_num DMA_SOURCE_FTM0CH6 = 30"
| "dma_source_num DMA_SOURCE_FTM0CH7 = 31"
| "dma_source_num DMA_SOURCE_FTM1CH0 = 32"
| "dma_source_num DMA_SOURCE_FTM1CH1 = 33"
| "dma_source_num DMA_SOURCE_FTM2CH0 = 34"
| "dma_source_num DMA_SOURCE_FTM2CH1 = 35"
| "dma_source_num DMA_SOURCE_IEEE1588_TIMER0 = 36"
| "dma_source_num DMA_SOURCE_IEEE1588_TIMER1 = 37"
| "dma_source_num DMA_SOURCE_IEEE1588_TIMER2 = 38"
| "dma_source_num DMA_SOURCE_IEEE1588_TIMER3 = 39"
| "dma_source_num DMA_SOURCE_ADC0 = 40"
| "dma_source_num DMA_SOURCE_ADC1 = 41"
| "dma_source_num DMA_SOURCE_CMP0 = 42"
| "dma_source_num DMA_SOURCE_CMP1 = 43"
| "dma_source_num DMA_SOURCE_CMP2 = 44"
| "dma_source_num DMA_SOURCE_DAC0 = 45"
| "dma_source_num DMA_SOURCE_RESERVED46 = 46"
| "dma_source_num DMA_SOURCE_CMT = 47"
| "dma_source_num DMA_SOURCE_PDB = 48"
| "dma_source_num DMA_SOURCE_PORT_A = 49"
| "dma_source_num DMA_SOURCE_PORT_B = 50"
| "dma_source_num DMA_SOURCE_PORT_C = 51"
| "dma_source_num DMA_SOURCE_PORT_D = 52"
| "dma_source_num DMA_SOURCE_PORT_E = 53"
| "dma_source_num DMA_SOURCE_DMAMUX_ALWAYS0 = 54"
| "dma_source_num DMA_SOURCE_DMAMUX_ALWAYS1 = 55"
| "dma_source_num DMA_SOURCE_DMAMUX_ALWAYS2 = 56"
| "dma_source_num DMA_SOURCE_DMAMUX_ALWAYS3 = 57"
| "dma_source_num DMA_SOURCE_DMAMUX_ALWAYS4 = 58"
| "dma_source_num DMA_SOURCE_DMAMUX_ALWAYS5 = 59"
| "dma_source_num DMA_SOURCE_DMAMUX_ALWAYS6 = 60"
| "dma_source_num DMA_SOURCE_DMAMUX_ALWAYS7 = 61"
| "dma_source_num DMA_SOURCE_DMAMUX_ALWAYS8 = 62"
| "dma_source_num DMA_SOURCE_DMAMUX_ALWAYS9 = 63"

text \<open>The enumeration's constructors in declaration order.\<close>

definition all_dma_sources :: "dma_source_t list" where
  "all_dma_sources =
     [DMA_SOURCE_DISABLED, DMA_SOURCE_RESERVED1, DMA_SOURCE_UART0_RX, DMA_SOURCE_UART0_TX,
      DMA_SOURCE_UART1_RX, DMA_SOURCE_UART1_TX, DMA_SOURCE_UART2_RX, DMA_SOURCE_UART2_TX,
      DMA_SOURCE_UART3_RX, DMA_SOURCE_UART3_TX, DMA_SOURCE_UART4_RX, DMA_SOURCE_UART4_TX,
      DMA_SOURCE_RESERVED12, DMA_SOURCE_RESERVED13, DMA_SOURCE_I2S0_RX, DMA_SOURCE_I2S0_TX,
      DMA_SOURCE_SPI0_RX, DMA_SOURCE_SPI0_TX, DMA_SOURCE_SPI1_RX, DMA_SOURCE_SPI1_TX,
      DMA_SOURCE_SPI2_RX, DMA_SOURCE_SPI2_TX, DMA_SOURCE_I2C0, DMA_SOURCE_I2C1,
      DMA_SOURCE_FTM0CH0, DMA_SOURCE_FTM0CH1, DMA_SOURCE_FTM0CH2, DMA_SOURCE_FTM0CH3,
      DMA_SOURCE_FTM0CH4, DMA_SOURCE_FTM0CH5, DMA_SOURCE_FTM0CH6, DMA_SOURCE_FTM0CH7,
      DMA_SOURCE_FTM1CH0, DMA_SOURCE_FTM1CH1, DMA_SOURCE_FTM2CH0, DMA_SOURCE_FTM2CH1,
      DMA_SOURCE_IEEE1588_TIMER0, DMA_SOURCE_IEEE1588_TIMER1, DMA_SOURCE_IEEE1588_TIMER2, DMA_SOURCE_IEEE1588_TIMER3,
      DMA_SOURCE_ADC0, DMA_SOURCE_ADC1, DMA_SOURCE_CMP0, DMA_SOURCE_CMP1,
      DMA_SOURCE_CMP2, DMA_SOURCE_DAC0, DMA_SOURCE_RESERVED46, DMA_SOURCE_CMT,
      DMA_SOURCE_PDB, DMA_SOURCE_PORT_A, DMA_SOURCE_PORT_B, DMA_SOURCE_PORT_C,
      DMA_SOURCE_PORT_D, DMA_SOURCE_PORT_E, DMA_SOURCE_DMAMUX_ALWAYS0, DMA_SOURCE_DMAMUX_ALWAYS1,
      DMA_SOURCE_DMAMUX_ALWAYS2, DMA_SOURCE_DMAMUX_ALWAYS3, DMA_SOURCE_DMAMUX_ALWAYS4, DMA_SOURCE_DMAMUX_ALWAYS5,
      DMA_SOURCE_DMAMUX_ALWAYS6, DMA_SOURCE_DMAMUX_ALWAYS7, DMA_SOURCE_DMAMUX_ALWAYS8, DMA_SOURCE_DMAMUX_ALWAYS9]"

subsection \<open>LPTMR clock selection (lines 193--221)\<close>

text \<open>\<open>LPTIMER_CLKSRC\<close>: the board's choice if it defines one, else
  \<open>LPTIMER_CLKSRC_ERCLK32K\<close> (2).  The sources are numbered as the macros
  \<open>LPTIMER_CLKSRC_MCGIRCLK\<close> (0), \<open>_LPO\<close> (1), \<open>_ERCLK32K\<close> (2), \<open>_OSCERCLK\<close> (3).\<close>

definition lptimer_clksrc :: "nat option \<Rightarrow> nat" where
  "lptimer_clksrc board = (case board of None \<Rightarrow> 2 | Some src \<Rightarrow> src)"

text \<open>\<open>(LPTIMER_CLK_PRESCALE, LPTIMER_SPEED)\<close> chosen by the \<open>#if\<close> chain.\<close>

definition lptimer_clk_conf :: "nat \<Rightarrow> nat \<times> nat" where
  "lptimer_clk_conf src =
     (if src = 0 then (1, 1000000)
      else if src = 3 then (1, 1000000)
      else if src = 2 then (0, 32768)
      else (0, 1000))"

subsection \<open>Properties\<close>

lemma k60_cpuid_fields:
  "k60_cpu_conf r = Some c \<Longrightarrow> cpuid_fields (K60_EXPECTED_CPUID c) = (0x41, 0, 0xC24, r - 1)"
  by (auto simp: k60_cpu_conf_def cpuid_fields_def split: if_splits)

lemma pin_interrupt_code_decodes:
  "irqc_decode (pin_interrupt_code e) =
     Some (Irqc_irq_edge (case e of PIN_INTERRUPT_RISING \<Rightarrow> Irqc_rising
                                  | PIN_INTERRUPT_FALLING \<Rightarrow> Irqc_falling
                                  | PIN_INTERRUPT_EDGE \<Rightarrow> Irqc_either))"
  by (cases e) (simp_all add: irqc_decode_def)

lemma map_dma_source_num: "map dma_source_num all_dma_sources = [0..<64]"
  by code_simp

lemma set_all_dma_sources: "set all_dma_sources = UNIV"
proof -
  have "x \<in> set all_dma_sources" for x by (cases x) (simp_all add: all_dma_sources_def)
  then show ?thesis by blast
qed

text \<open>The DMA multiplexer source enumeration numbers its 64 sources with
  exactly the values 0--63 of the 6-bit \<open>DMAMUX_CHCFG.SOURCE\<close> field, each once.\<close>

theorem dma_source_num_bij: "bij_betw dma_source_num UNIV {..<64}"
proof (rule bij_betw_imageI)
  have "distinct (map dma_source_num all_dma_sources)" by (simp only: map_dma_source_num distinct_upt)
  then show "inj_on dma_source_num UNIV" using set_all_dma_sources by (metis distinct_map)
  have "dma_source_num ` set all_dma_sources = {..<64}"
    by (simp only: set_map [symmetric] map_dma_source_num set_upt lessThan_atLeast0)
  then show "dma_source_num ` UNIV = {..<64}" by (simp only: set_all_dma_sources)
qed

lemma clock_gate_reg_ok:
  "in_bitband_region (fst (clock_gate_reg g)) \<and> unat (fst (clock_gate_reg g)) mod 4 = 0 \<and>
   snd (clock_gate_reg g) < 32"
  by (cases g) (simp_all add: in_bitband_region_def)

lemma clock_gate_set_eq:
  "clock_gate_set g v mem =
     (case clock_gate_reg g of (r, sh) \<Rightarrow>
        mem(unat r := if bit v 0 then set_bit_reg (mem (unat r)) sh else clear_bit_reg (mem (unat r)) sh))"
proof -
  obtain r sh where g: "clock_gate_reg g = (r, sh)" by (cases "clock_gate_reg g")
  have ok: "in_bitband_region r" "unat r mod 4 = 0" "sh < 32" using clock_gate_reg_ok [of g] g by simp_all
  have w: "unat r div 4 * 4 = unat r" using ok(2) div_mult_mod_eq [of "unat r" 4] by simp
  have "bitband_target (unat (BITBAND_ADDR r sh)) = Some (unat r, sh)"
    using bitband_target_addr [OF ok(1), of sh] ok(2,3) by (simp add: w)
  then show ?thesis by (simp add: g clock_gate_set_def BITBAND_VAR_write_def bitband_write_def)
qed

lemma clock_gate_reg_inj: "clock_gate_reg g = clock_gate_reg g' \<Longrightarrow> g = g'"
  by (cases g; cases g') simp_all

text \<open>C30: assigning to a clock-gate macro (\<open>BITBAND_REG32(SIM->SCGCn, SHIFT)\<close>)
  sets the gate it names to bit 0 of the value, leaves every other gate as it
  was, and changes no memory word but that gate's SIM register.\<close>

theorem clock_gates_independent:
  "clock_gate_open g (clock_gate_set g' v mem) = (if g = g' then bit v 0 else clock_gate_open g mem) \<and>
   (\<forall>a. a \<noteq> unat (fst (clock_gate_reg g')) \<longrightarrow> clock_gate_set g' v mem a = mem a)"
proof -
  obtain r sh where g: "clock_gate_reg g = (r, sh)" by (cases "clock_gate_reg g")
  obtain r' sh' where g': "clock_gate_reg g' = (r', sh')" by (cases "clock_gate_reg g'")
  have sh: "sh < 32" using clock_gate_reg_ok [of g] g by simp
  have ne: "g \<noteq> g' \<Longrightarrow> r = r' \<Longrightarrow> sh \<noteq> sh'" using clock_gate_reg_inj [of g g'] g g' by auto
  have "clock_gate_open g (clock_gate_set g' v mem) = (if g = g' then bit v 0 else clock_gate_open g mem)"
  proof (cases "g = g'")
    case True
    then show ?thesis using g g' sh by (simp add: clock_gate_set_eq clock_gate_open_def)
  next
    case False
    have u: "unat r = unat r' \<Longrightarrow> r = r'" by (simp add: word_unat_eq_iff)
    show ?thesis using False g g' ne u by (auto simp: clock_gate_set_eq clock_gate_open_def)
  qed
  moreover have "\<forall>a. a \<noteq> unat (fst (clock_gate_reg g')) \<longrightarrow> clock_gate_set g' v mem a = mem a"
    using g' by (simp add: clock_gate_set_eq)
  ultimately show ?thesis by (rule conjI)
qed

theorem clock_gates_independent_witness:
  "clock_gate_open PORTA_CLOCK_GATE (clock_gate_set LPTIMER_CLOCK_GATE 1 (\<lambda>_. 0)) = False \<and>
   (0 \<noteq> unat (fst (clock_gate_reg LPTIMER_CLOCK_GATE)) \<and>
    clock_gate_set LPTIMER_CLOCK_GATE 1 (\<lambda>_. 0) 0 = 0)"
proof -
  note t = clock_gates_independent [of PORTA_CLOCK_GATE LPTIMER_CLOCK_GATE 1 "\<lambda>_. 0"]
  have h: "0 \<noteq> unat (fst (clock_gate_reg LPTIMER_CLOCK_GATE))" by simp
  have o: "clock_gate_open PORTA_CLOCK_GATE (\<lambda>_. 0) = False" by (simp add: clock_gate_open_def)
  show ?thesis using t h o by simp
qed

end
