(* ===== verification/Spec2Isabelle.thy ===== *)
theory Spec2Isabelle
  imports Mulle_Boot Uart_Tx Bitband Cpu_Conf
begin

text \<open>
  Verification development of the Mulle/K60 port of Contiki: the sleep-mode
  arbitration subsystem of the low-leakage wake-up unit (LLWU), its primary
  consumer, the interrupt-driven UART driver, the interrupt-masking and
  bit-band primitives they are written with, and the parts of the board's
  \<open>main\<close> that have logic of their own.

  \<^bold>\<open>The program.\<close>  Drivers and the foreground ask the arbiter not to
  sleep too deeply by incrementing one of three 32-bit inhibit counters
  (\<open>LLWU_INHIBIT_STOP/VLPS/LLS\<close> in \<open>src/cpu/arm/k60/include/llwu.h\<close>), each
  update an LDREX/STREX retry loop.  Controllers (\<open>struct llwu_control\<close>) are
  linked into a list and can veto deep sleep.  \<open>llwu_sleep\<close> masks interrupts,
  walks the list, and halts in the deepest of WAIT < STOP < VLPS < LLS that no
  counter and no controller forbids.  The UART driver
  (\<open>src/cpu/arm/k60/drivers/uart.c\<close>) holds STOP while a line is receiving:
  \<open>rx_irq_handler\<close> sets a per-line latch on a start-bit edge and releases the
  counter when the receiver goes idle; enabling reception holds LLS, where
  edge detection does not work.  Interrupt masking is \<open>irq.h\<close>, register bits
  are reached through the bit-band alias of \<open>cpu_conf.h\<close>, and
  \<open>src/platform/mulle/contiki-main.c\<close> provisions the NVRAM, counts boots,
  formats the file system, registers the \<open>deep_sleep\<close> controller and runs the
  idle loop that calls \<open>llwu_sleep\<close>.

  \<^bold>\<open>Theories.\<close>
  \<^item> \<open>Prelude\<close>: machine integer types as words, the register bit helpers
    \<open>set_bit_reg\<close>/\<open>clear_bit_reg\<close>, and shared lemmas on words, lists and
    counting.
  \<^item> \<open>Inhibit\<close>: the counters (\<open>inhibit_semas\<close>), the inhibit macros
    (\<open>llwu_inhibit\<close>, \<open>llwu_uninhibit\<close>), and the exclusive retry loop as a
    machine of contexts with a local monitor cleared on every context switch
    (\<open>excl_exec\<close>, \<open>excl_step\<close>, reachability \<open>excl_reach\<close>).  Lemmas: the loop
    is linearizable (the counter equals the committed operations applied in
    commit order), counts exactly on valid traces, and an uninterrupted
    context commits in one pass.
  \<^item> \<open>Llwu_Policy\<close>: the registry as a heap of control structs linked through
    \<open>ctl_next\<close> (\<open>llwu_register\<close>, \<open>llwu_set_allow\<close>), the walk of \<open>llwu_sleep\<close>
    as a \<open>partial_function (option)\<close> (\<open>llwu_all_allow\<close>; \<open>None\<close> is a walk that
    never ends), and the decision \<open>llwu_choose_mode\<close>.  Lemmas: the decision
    refines the policy's deepest permitted mode; the walk terminates for any
    registry in which each controller was registered once.  \<open>llwu_register\<close>
    is the unchecked O(1) prepend the specification (4.2) describes.
  \<^item> \<open>Uart_Hw\<close>, \<open>Uart_Rx\<close>: the UART register file and the driver's globals
    (\<open>uart_drv\<close>), receiver hardware events, \<open>rx_irq_handler\<close> block by block
    (\<open>rx_read_data\<close>, \<open>rx_check_idle\<close>, \<open>rx_check_edge\<close>), the
    \<open>isr_uartN_status\<close> entries, \<open>uart_enable_rx_interrupt\<close>,
    \<open>uart_disable_rx_interrupt\<close> and \<open>uart_set_rx_callback\<close>; effects are an
    event trace.  Lemmas: inhibits and releases of STOP alternate over any
    reception window, interrupts during a reception are absorbed, the
    edge/byte/idle example, and the edge-after-idle behaviour.
  \<^item> \<open>Uart_Init\<close>: \<open>uart_module_enable\<close> over the SIM clock gates and
    \<open>uart_init\<close> with its clock choice, 32-bit divisor arithmetic and register
    programming.  The divisor macros of \<open>uart.h\<close> follow the specification
    (\<open>round (clk / (16 baud))\<close> and a fraction in 1/32 steps); the lemmas do not
    depend on them.  Lemmas: the clock gates, the SBR and BRFA fields holding
    the divisor and fine adjust modulo the field widths (no range check), and
    the error branch that still programs an out-of-range block.
  \<^item> \<open>Uart_Tx\<close>: \<open>uart_putchar\<close>'s busy-wait loops as a
    \<open>partial_function (option)\<close> over the status values the transmitter
    shows at successive polls, and \<open>uart_putstring\<close>.  Lemmas: it returns
    when the flags come up, spins forever when they do not, and writes a
    string byte by byte.
  \<^item> \<open>Irq\<close>: PRIMASK/IPSR and \<open>irq_disable\<close>/\<open>irq_enable\<close>/\<open>irq_restore\<close>;
    nested critical regions as a small block language.  Lemmas: a region
    restores the mask it found and runs masked unless its body enables.
  \<^item> \<open>Llwu_Wakeup\<close>: the module/pin/edge enumerations, the PE/ME registers,
    the callback table and the four configuration calls, returning
    \<open>llwu_error + llwu_wake\<close>.  Lemmas: read-back of pin edges and dispatch
    of callbacks after a wake-up.
  \<^item> \<open>Bitband\<close>: \<open>BITBAND_ADDR\<close> and the \<open>BITBAND_VAR\<close> accessors against the
    Cortex-M4 alias decoding.  Lemmas: writing 1/0 through the alias equals
    \<open>set_bit_reg\<close>/\<open>clear_bit_reg\<close> on the register, and reading through it
    equals the bit test; these justify modelling register bits directly.
  \<^item> \<open>System\<close>: everything composed (\<open>sys\<close>): an inductive step relation
    \<open>sys_step\<close> interleaving hardware events, interrupt handlers (only when the
    core is awake and unmasked), wake-ups, and foreground calls (\<open>fg_op\<close>,
    with \<open>Fg_sleep\<close> the arbiter of the idle loop), and its reachable states
    \<open>sys_reach\<close>.  Lemmas by rule induction: the arbiter never halts in STOP or
    deeper while a line is receiving; it never halts in LLS while reception is
    enabled if enable/disable are paired per line, and can without that
    pairing.
  \<^item> \<open>Mulle_Main\<close>: \<open>mulle_nvram_init\<close> (with its zeroing loop
    \<open>nvram_zero_fill\<close>, a \<open>function\<close> with a measure), \<open>increase_boot_count\<close>,
    \<open>main\<close>'s NVRAM steps, \<open>init_cfs\<close> and \<open>main\<close>'s sleep set-up
    (\<open>main_llwu_setup\<close>).  The NVRAM is a byte store whose driver calls fail
    according to an oracle over call numbers; 32-bit records are the
    little-endian bytes of the \<open>rec\<close> union.  Lemmas: provisioning writes the
    magic and zeroes the rest, records are stored least significant byte
    first and read back unchanged, the boot count increments
    modulo 2 to the 32, first boot yields count 1, the file-system calls on
    every path.
  \<^item> \<open>Mulle_Boot\<close>: all of \<open>main\<close> as the list \<open>main_calls\<close> of its calls in
    program order (\<open>WITH_SLIP\<close> and \<open>MAKE_BOOTLOADER\<close> as parameters), run by
    \<open>main_run\<close> over a \<open>board\<close> that holds the system, the NVRAM, the NVIC
    priorities, the file-system calls and the supply switches; its LLWU calls
    are foreground operations of \<open>System\<close> (\<open>fg_run\<close>, \<open>main_sleep_ops\<close>).  The
    idle loop is \<open>idle_round\<close>: \<open>process_drain\<close>, a \<open>partial_function (option)\<close>
    over the values \<open>process_run\<close> returns, then \<open>llwu_sleep\<close>.  Lemma:
    one round of the idle loop returns exactly when \<open>process_run\<close> eventually
    reports no work, stopping at the first such call, and then sleeps.
  \<^item> \<open>Cpu_Conf\<close>: the revision selection of \<open>cpu_conf.h\<close>, the pin interrupt
    codes against the IRQC decoding, the clock-gate macros over the bit-band
    model, the DMA source enumeration, the LPTMR clock selection and the
    number of interrupt vectors \<open>CPU_IRQ_NUMOF\<close>.
    Lemma: the gate macros set their own bit and no other.
  \<^item> This theory: the invariant of a SLIP build (\<open>slip_inv\<close>: the
    \<open>deep_sleep\<close> controller withholds consent and lies on every finite chain
    of the registry) and, by induction over any run of the system after
    \<open>main\<close>, that such a build never sleeps deeper than WAIT; and that
    \<open>main\<close> reaches its idle loop with exactly the vectors from \<open>PORTE_IRQn\<close>
    up left at priority 0.

  \<^bold>\<open>Bounds and fuel.\<close>  No fuel is used.  Loops that may not end are
  \<open>partial_function (option)\<close> (the registry walk, the UART busy-waits, the
  drain of the idle loop), and
  their termination is proved as \<open>\<exists>\<close>-results under hypotheses and their
  divergence as \<open>None\<close>.  The zeroing loop is a \<open>function\<close> terminating by the
  measure \<open>capacity - i\<close>.  Counters and registers are words of the C widths,
  so wrap-around is the machine's; the exact-count lemma assumes fewer than
  2 to the 32 outstanding inhibits.  There are six UARTs, sixteen wake-up pins
  in four registers, eight wake-up modules, and 91 vectors below
  \<open>PORTE_IRQn\<close> of the 104 the CPU declares.

  \<^bold>\<open>Not modelled.\<close>  The bodies of \<open>llwu.c\<close>, \<open>synchronization.h\<close>,
  \<open>uart.h\<close> and the NVRAM and Coffee drivers are not among the sources: the
  definitions standing for them follow the specification and are marked as
  such, as are the register addresses of \<open>MK60D10.h\<close>.  Plain aliases of
  \<open>cpu_conf.h\<close> without content (\<open>KINETIS_UART\<close>, \<open>LPTIMER_DEV\<close>,
  \<open>CPUID_ID_PTR\<close>, the Cortex-M constants) are not definitions of the model.
  \<open>llwu_init\<close>'s body is not among the sources.  The clock, LED, RTC, SPI,
  process-scheduler and network initialisation of \<open>main\<close> are calls into
  modules outside the sources; they are calls of \<open>main_calls\<close> that leave
  the modelled state unchanged.  The power-mode transition itself (clock gating of
  peripherals per mode) is reduced to which receiver events can happen in
  each mode.
\<close>

subsection \<open>The sleep policy of a SLIP build\<close>

text \<open>A system step that leaves the controller struct at \<open>c\<close> as it was.\<close>

definition app_step :: "core_clocks \<Rightarrow> (nat \<Rightarrow> bool) \<Rightarrow> bool \<Rightarrow> ctl_addr \<Rightarrow> sys \<Rightarrow> sys \<Rightarrow> bool" where
  "app_step clk conf disc c s t \<longleftrightarrow> sys_step clk conf disc s t \<and> controls (reg t) c = controls (reg s) c"

text \<open>The invariant behind \<open>WITH_SLIP\<close>: the controller withholds consent, every
  finite chain from the head passes it, and a halted core is in WAIT.\<close>

definition slip_inv :: "ctl_addr \<Rightarrow> sys \<Rightarrow> bool" where
  "slip_inv c s \<longleftrightarrow> allow_llwu (controls (reg s) c) = 0 \<and>
     (\<forall>cs. ctl_chain (controls (reg s)) (llwu_head (reg s)) cs \<longrightarrow> c \<in> set cs) \<and>
     (\<forall>m. halted s = Some m \<longrightarrow> m = WAIT)"

subsection \<open>Properties spanning the components\<close>

lemma slip_inv_frame:
  "slip_inv c s \<Longrightarrow> reg t = reg s \<Longrightarrow> halted t = halted s \<or> halted t = None \<Longrightarrow> slip_inv c t"
  by (auto simp: slip_inv_def)

lemma slip_inv_fg:
  assumes inv: "slip_inv c s" and ex: "fg_exec clk conf op s = Some t"
    and keep: "controls (reg t) c = controls (reg s) c"
  shows "slip_inv c t"
proof (cases op)
  case (Fg_register c')
  have "\<forall>cs. ctl_chain (controls (reg t)) (llwu_head (reg t)) cs \<longrightarrow> c \<in> set cs"
    using inv register_keeps_member [of "reg s" c c'] fg_exec_reg [OF ex] Fg_register
    by (simp add: slip_inv_def)
  moreover have "halted t = halted s" using fg_exec_frame [OF ex] Fg_register by simp
  ultimately show ?thesis using inv keep by (simp add: slip_inv_def)
next
  case (Fg_set_allow c' a)
  have "\<forall>cs. ctl_chain (controls (reg t)) (llwu_head (reg t)) cs \<longrightarrow> c \<in> set cs"
  proof (intro allI impI)
    fix cs assume "ctl_chain (controls (reg t)) (llwu_head (reg t)) cs"
    then have "ctl_chain (controls (reg s)) (llwu_head (reg s)) cs"
      using fg_exec_reg [OF ex] Fg_set_allow
      by (auto simp: llwu_set_allow_def intro: chain_same_next_rev)
    then show "c \<in> set cs" using inv by (simp add: slip_inv_def)
  qed
  moreover have "halted t = halted s" using fg_exec_frame [OF ex] Fg_set_allow by simp
  ultimately show ?thesis using inv keep by (simp add: slip_inv_def)
next
  case Fg_sleep
  obtain m where m: "llwu_sleep_mode (reg s) (semas (drv s)) = Some m"
    and t: "t = s\<lparr>core := snd (irq_disable (core s)), halted := Some m\<rparr>"
    using llwu_sleep_Some ex Fg_sleep by auto
  have "m = WAIT" using inv unfolding slip_inv_def by (blast intro: sleep_mode_no_consent [OF m])
  then show ?thesis using inv t by (simp add: slip_inv_def)
qed (use inv ex fg_exec_reg [OF ex] fg_exec_frame [OF ex] in \<open>auto intro: slip_inv_frame\<close>)

lemma slip_inv_step:
  assumes inv: "slip_inv c s" and st: "app_step clk conf disc c s t"
  shows "slip_inv c t"
proof -
  have keep: "controls (reg t) c = controls (reg s) c" and ss: "sys_step clk conf disc s t"
    using st by (simp_all add: app_step_def)
  from ss show ?thesis
  proof cases
    case (fg op)
    then show ?thesis using slip_inv_fg [OF inv _ keep] by blast
  qed (use inv in \<open>auto intro: slip_inv_frame\<close>)
qed

lemma slip_inv_main:
  "fg_run clk conf (main_sleep_ops True ds) sys_boot = Some s0 \<Longrightarrow> slip_inv ds s0"
  by (auto simp: fg_run_main_sleep slip_inv_def llwu_set_allow_def llwu_register_def registry_boot_def
           elim: ctl_chain.elims)


text \<open>C12: built \<open>WITH_SLIP\<close>, once \<open>main\<close> has reached its idle loop the arbiter
  never halts the core deeper than WAIT, under any interleaving of hardware
  events, interrupt handlers, wake-ups and foreground calls (other
  controllers registering and changing their consent included), as long as
  the \<open>deep_sleep\<close> controller itself is not changed.\<close>

theorem with_slip_never_deep:
  assumes boot: "main_run e (main_calls True bl ds) (board_reset d vp av) = Some b"
    and steps: "(app_step (env_clk e) (env_conf e) disc ds)\<^sup>*\<^sup>* (b_sys b) s" and h: "halted s = Some m"
  shows "m = WAIT"
proof -
  from steps have "slip_inv ds s"
  proof (induction rule: rtranclp_induct)
    case base
    then show ?case by (rule slip_inv_main [OF main_run_sys [OF boot]])
  next
    case (step t u)
    then show ?case by (blast intro: slip_inv_step)
  qed
  then show ?thesis using h by (simp add: slip_inv_def)
qed

theorem with_slip_never_deep_witness:
  "main_run \<lparr>env_clk = \<lparr>SystemSysClock = 0, SystemBusClock = 0\<rparr>, env_conf = (\<lambda>_. True), env_cfs = \<lparr>formated_exists = True, format_ok = True, open_write_ok = True\<rparr>, env_nvram = \<lparr>MULLE_NVRAM_CAPACITY = 16, MULLE_NVRAM_MAGIC = 0, MULLE_NVRAM_MAGIC_EXPECTED = 0x4D554C4C, MULLE_NVRAM_BOOT_COUNT = 4\<rparr>, env_spi_ok = False\<rparr> (main_calls True False 7) (board_reset \<lparr>nv_mem = (\<lambda>_. 0), nv_fails = (\<lambda>_. False), nv_calls = 0\<rparr> True False) = Some (the (main_run \<lparr>env_clk = \<lparr>SystemSysClock = 0, SystemBusClock = 0\<rparr>, env_conf = (\<lambda>_. True), env_cfs = \<lparr>formated_exists = True, format_ok = True, open_write_ok = True\<rparr>, env_nvram = \<lparr>MULLE_NVRAM_CAPACITY = 16, MULLE_NVRAM_MAGIC = 0, MULLE_NVRAM_MAGIC_EXPECTED = 0x4D554C4C, MULLE_NVRAM_BOOT_COUNT = 4\<rparr>, env_spi_ok = False\<rparr> (main_calls True False 7) (board_reset \<lparr>nv_mem = (\<lambda>_. 0), nv_fails = (\<lambda>_. False), nv_calls = 0\<rparr> True False))) \<and>
   (app_step (env_clk \<lparr>env_clk = \<lparr>SystemSysClock = 0, SystemBusClock = 0\<rparr>, env_conf = (\<lambda>_. True), env_cfs = \<lparr>formated_exists = True, format_ok = True, open_write_ok = True\<rparr>, env_nvram = \<lparr>MULLE_NVRAM_CAPACITY = 16, MULLE_NVRAM_MAGIC = 0, MULLE_NVRAM_MAGIC_EXPECTED = 0x4D554C4C, MULLE_NVRAM_BOOT_COUNT = 4\<rparr>, env_spi_ok = False\<rparr>) (env_conf \<lparr>env_clk = \<lparr>SystemSysClock = 0, SystemBusClock = 0\<rparr>, env_conf = (\<lambda>_. True), env_cfs = \<lparr>formated_exists = True, format_ok = True, open_write_ok = True\<rparr>, env_nvram = \<lparr>MULLE_NVRAM_CAPACITY = 16, MULLE_NVRAM_MAGIC = 0, MULLE_NVRAM_MAGIC_EXPECTED = 0x4D554C4C, MULLE_NVRAM_BOOT_COUNT = 4\<rparr>, env_spi_ok = False\<rparr>) True 7)\<^sup>*\<^sup>* (b_sys (the (main_run \<lparr>env_clk = \<lparr>SystemSysClock = 0, SystemBusClock = 0\<rparr>, env_conf = (\<lambda>_. True), env_cfs = \<lparr>formated_exists = True, format_ok = True, open_write_ok = True\<rparr>, env_nvram = \<lparr>MULLE_NVRAM_CAPACITY = 16, MULLE_NVRAM_MAGIC = 0, MULLE_NVRAM_MAGIC_EXPECTED = 0x4D554C4C, MULLE_NVRAM_BOOT_COUNT = 4\<rparr>, env_spi_ok = False\<rparr> (main_calls True False 7) (board_reset \<lparr>nv_mem = (\<lambda>_. 0), nv_fails = (\<lambda>_. False), nv_calls = 0\<rparr> True False)))) (the (llwu_sleep (b_sys (the (main_run \<lparr>env_clk = \<lparr>SystemSysClock = 0, SystemBusClock = 0\<rparr>, env_conf = (\<lambda>_. True), env_cfs = \<lparr>formated_exists = True, format_ok = True, open_write_ok = True\<rparr>, env_nvram = \<lparr>MULLE_NVRAM_CAPACITY = 16, MULLE_NVRAM_MAGIC = 0, MULLE_NVRAM_MAGIC_EXPECTED = 0x4D554C4C, MULLE_NVRAM_BOOT_COUNT = 4\<rparr>, env_spi_ok = False\<rparr> (main_calls True False 7) (board_reset \<lparr>nv_mem = (\<lambda>_. 0), nv_fails = (\<lambda>_. False), nv_calls = 0\<rparr> True False)))))) \<and>
   halted (the (llwu_sleep (b_sys (the (main_run \<lparr>env_clk = \<lparr>SystemSysClock = 0, SystemBusClock = 0\<rparr>, env_conf = (\<lambda>_. True), env_cfs = \<lparr>formated_exists = True, format_ok = True, open_write_ok = True\<rparr>, env_nvram = \<lparr>MULLE_NVRAM_CAPACITY = 16, MULLE_NVRAM_MAGIC = 0, MULLE_NVRAM_MAGIC_EXPECTED = 0x4D554C4C, MULLE_NVRAM_BOOT_COUNT = 4\<rparr>, env_spi_ok = False\<rparr> (main_calls True False 7) (board_reset \<lparr>nv_mem = (\<lambda>_. 0), nv_fails = (\<lambda>_. False), nv_calls = 0\<rparr> True False)))))) = Some (the (halted (the (llwu_sleep (b_sys (the (main_run \<lparr>env_clk = \<lparr>SystemSysClock = 0, SystemBusClock = 0\<rparr>, env_conf = (\<lambda>_. True), env_cfs = \<lparr>formated_exists = True, format_ok = True, open_write_ok = True\<rparr>, env_nvram = \<lparr>MULLE_NVRAM_CAPACITY = 16, MULLE_NVRAM_MAGIC = 0, MULLE_NVRAM_MAGIC_EXPECTED = 0x4D554C4C, MULLE_NVRAM_BOOT_COUNT = 4\<rparr>, env_spi_ok = False\<rparr> (main_calls True False 7) (board_reset \<lparr>nv_mem = (\<lambda>_. 0), nv_fails = (\<lambda>_. False), nv_calls = 0\<rparr> True False)))))))) \<and>
   the (halted (the (llwu_sleep (b_sys (the (main_run \<lparr>env_clk = \<lparr>SystemSysClock = 0, SystemBusClock = 0\<rparr>, env_conf = (\<lambda>_. True), env_cfs = \<lparr>formated_exists = True, format_ok = True, open_write_ok = True\<rparr>, env_nvram = \<lparr>MULLE_NVRAM_CAPACITY = 16, MULLE_NVRAM_MAGIC = 0, MULLE_NVRAM_MAGIC_EXPECTED = 0x4D554C4C, MULLE_NVRAM_BOOT_COUNT = 4\<rparr>, env_spi_ok = False\<rparr> (main_calls True False 7) (board_reset \<lparr>nv_mem = (\<lambda>_. 0), nv_fails = (\<lambda>_. False), nv_calls = 0\<rparr> True False))))))) = WAIT"
proof -
  let ?e = "\<lparr>env_clk = \<lparr>SystemSysClock = 0, SystemBusClock = 0\<rparr>, env_conf = (\<lambda>_. True), env_cfs = \<lparr>formated_exists = True, format_ok = True, open_write_ok = True\<rparr>, env_nvram = \<lparr>MULLE_NVRAM_CAPACITY = 16, MULLE_NVRAM_MAGIC = 0, MULLE_NVRAM_MAGIC_EXPECTED = 0x4D554C4C, MULLE_NVRAM_BOOT_COUNT = 4\<rparr>, env_spi_ok = False\<rparr>"
  let ?b = "(the (main_run \<lparr>env_clk = \<lparr>SystemSysClock = 0, SystemBusClock = 0\<rparr>, env_conf = (\<lambda>_. True), env_cfs = \<lparr>formated_exists = True, format_ok = True, open_write_ok = True\<rparr>, env_nvram = \<lparr>MULLE_NVRAM_CAPACITY = 16, MULLE_NVRAM_MAGIC = 0, MULLE_NVRAM_MAGIC_EXPECTED = 0x4D554C4C, MULLE_NVRAM_BOOT_COUNT = 4\<rparr>, env_spi_ok = False\<rparr> (main_calls True False 7) (board_reset \<lparr>nv_mem = (\<lambda>_. 0), nv_fails = (\<lambda>_. False), nv_calls = 0\<rparr> True False)))"
  let ?s1 = "the (llwu_sleep (b_sys ?b))"
  have boot: "main_run ?e (main_calls True False 7) (board_reset \<lparr>nv_mem = (\<lambda>_. 0), nv_fails = (\<lambda>_. False), nv_calls = 0\<rparr> True False) = Some ?b"
    by (simp add: main_run_main_calls)
  have "llwu_sleep (b_sys ?b) \<noteq> None"
    by (simp add: main_run_main_calls llwu_sleep_def llwu_sleep_mode_def llwu_set_allow_def llwu_register_def
                  registry_boot_def llwu_all_allow.simps llwu_choose_mode_def irq_disable_def)
  then have sl: "llwu_sleep (b_sys ?b) = Some ?s1" by (rule option.collapse [symmetric])
  have hs: "halted ?s1 = Some WAIT"
    by (simp add: main_run_main_calls llwu_sleep_def llwu_sleep_mode_def llwu_set_allow_def llwu_register_def
                  registry_boot_def llwu_all_allow.simps llwu_choose_mode_def irq_disable_def)
  have ex: "fg_exec (env_clk ?e) (env_conf ?e) Fg_sleep (b_sys ?b) = Some ?s1" using sl by simp
  have "halted (b_sys ?b) = None" and "\<not> irq_masked (core (b_sys ?b))"
    by (simp_all add: main_run_main_calls irq_masked_def)
  then have "sys_step (env_clk ?e) (env_conf ?e) True (b_sys ?b) ?s1"
    using ex by (intro sys_step.fg [where op = Fg_sleep]) simp_all
  moreover have "controls (reg ?s1) 7 = controls (reg (b_sys ?b)) 7"
    using llwu_sleep_Some [OF sl] by auto
  ultimately have "app_step (env_clk ?e) (env_conf ?e) True 7 (b_sys ?b) ?s1"
    unfolding app_step_def by (rule conjI)
  then have st: "(app_step (env_clk ?e) (env_conf ?e) True 7)\<^sup>*\<^sup>* (b_sys ?b) ?s1"
    by (rule r_into_rtranclp)
  have hs': "halted ?s1 = Some (the (halted ?s1))" using hs by simp
  show ?thesis by (intro conjI boot st hs' with_slip_never_deep [OF boot st hs'])
qed

end
